theory Spec2Isabelle
  imports Main "HOL-Library.Word" "HOL-Library.AList" "HOL-Library.DAList"
begin

unbundle bit_operations_syntax

section \<open>The permission context of flatpak-run.c\<close>

subsection \<open>Data model\<close>

text \<open>
  The enums \<open>FlatpakContextShares\<close>, \<open>FlatpakContextSockets\<close>, \<open>FlatpakContextDevices\<close> and
  \<open>FlatpakContextFeatures\<close> are bit masks held in 32-bit unsigned integers; the name tables
  are in the order of the bits.
\<close>

type_synonym guint32 = "32 word"

definition FLATPAK_CONTEXT_SHARED_NETWORK :: guint32 where
  "FLATPAK_CONTEXT_SHARED_NETWORK = push_bit 0 1"

definition FLATPAK_CONTEXT_SHARED_IPC :: guint32 where
  "FLATPAK_CONTEXT_SHARED_IPC = push_bit 1 1"

definition flatpak_context_shares :: "string list" where
  "flatpak_context_shares = [''network'', ''ipc'']"

definition FLATPAK_CONTEXT_SOCKET_X11 :: guint32 where
  "FLATPAK_CONTEXT_SOCKET_X11 = push_bit 0 1"

definition FLATPAK_CONTEXT_SOCKET_WAYLAND :: guint32 where
  "FLATPAK_CONTEXT_SOCKET_WAYLAND = push_bit 1 1"

definition FLATPAK_CONTEXT_SOCKET_PULSEAUDIO :: guint32 where
  "FLATPAK_CONTEXT_SOCKET_PULSEAUDIO = push_bit 2 1"

definition FLATPAK_CONTEXT_SOCKET_SESSION_BUS :: guint32 where
  "FLATPAK_CONTEXT_SOCKET_SESSION_BUS = push_bit 3 1"

definition FLATPAK_CONTEXT_SOCKET_SYSTEM_BUS :: guint32 where
  "FLATPAK_CONTEXT_SOCKET_SYSTEM_BUS = push_bit 4 1"

definition flatpak_context_sockets :: "string list" where
  "flatpak_context_sockets = [''x11'', ''wayland'', ''pulseaudio'', ''session-bus'', ''system-bus'']"

definition flatpak_context_devices :: "string list" where
  "flatpak_context_devices = [''dri'', ''all'', ''kvm'']"

definition flatpak_context_features :: "string list" where
  "flatpak_context_features = [''devel'', ''multiarch'']"

text \<open>In numerical order of more privileges: read-only is 1, read-write 2, create 3.\<close>

datatype FlatpakFilesystemMode =
  FLATPAK_FILESYSTEM_MODE_READ_ONLY
  | FLATPAK_FILESYSTEM_MODE_READ_WRITE
  | FLATPAK_FILESYSTEM_MODE_CREATE

fun filesystem_mode_to_int :: "FlatpakFilesystemMode \<Rightarrow> int" where
  "filesystem_mode_to_int FLATPAK_FILESYSTEM_MODE_READ_ONLY = 1"
| "filesystem_mode_to_int FLATPAK_FILESYSTEM_MODE_READ_WRITE = 2"
| "filesystem_mode_to_int FLATPAK_FILESYSTEM_MODE_CREATE = 3"

text \<open>
  Modelled from the spec: the enum \<open>FlatpakPolicy\<close> is declared in flatpak-proxy.h, which is
  not part of this file. The spec names its members none, see, filtered, talk, own; the table
  \<open>policies\<close> of \<open>flatpak_policy_from_string\<close> lists them in the order of their values.
\<close>

datatype FlatpakPolicy =
  FLATPAK_POLICY_NONE
  | FLATPAK_POLICY_SEE
  | FLATPAK_POLICY_FILTERED
  | FLATPAK_POLICY_TALK
  | FLATPAK_POLICY_OWN

text \<open>
  A \<open>GHashTable\<close> keyed by strings is an association list with distinct keys; the order of
  the list is the order in which \<open>GHashTableIter\<close> visits the entries, which GLib leaves
  unspecified, so every order is a value of the model. \<open>g_hash_table_insert\<close> is
  \<open>DAList.update\<close> and \<open>g_hash_table_lookup\<close> is \<open>DAList.lookup\<close>.

  The values of \<open>env_vars\<close> are \<open>char *\<close> copied with \<open>g_strdup\<close>, which keeps a \<open>NULL\<close>
  (\<open>None\<close>). The table \<open>persistent\<close> stores the constant \<open>GINT_TO_POINTER (1)\<close> under every key, so its
  values are of type \<open>unit\<close>. The table \<open>filesystems\<close> stores the mode as a pointer, the
  \<open>NULL\<close> pointer (\<open>None\<close>) marking a removed filesystem.
\<close>

record FlatpakContext =
  shares :: guint32
  shares_valid :: guint32
  sockets :: guint32
  sockets_valid :: guint32
  devices :: guint32
  devices_valid :: guint32
  features :: guint32
  features_valid :: guint32
  env_vars :: "(string, string option) alist"
  persistent :: "(string, unit) alist"
  filesystems :: "(string, FlatpakFilesystemMode option) alist"
  session_bus_policy :: "(string, FlatpakPolicy) alist"
  system_bus_policy :: "(string, FlatpakPolicy) alist"
  generic_policy :: "(string, string list) alist"

definition flatpak_context_new :: FlatpakContext where
  "flatpak_context_new =
     \<lparr> shares = 0, shares_valid = 0, sockets = 0, sockets_valid = 0,
       devices = 0, devices_valid = 0, features = 0, features_valid = 0,
       env_vars = DAList.empty, persistent = DAList.empty, filesystems = DAList.empty,
       session_bus_policy = DAList.empty, system_bus_policy = DAList.empty,
       generic_policy = DAList.empty \<rparr>"

subsection \<open>Bit masks and their names\<close>

fun bitmask_from_string_loop :: "nat \<Rightarrow> string \<Rightarrow> string list \<Rightarrow> guint32" where
  "bitmask_from_string_loop i name [] = 0"
| "bitmask_from_string_loop i name (n # names) =
     (if n = name then push_bit i 1 else bitmask_from_string_loop (Suc i) name names)"

definition flatpak_context_bitmask_from_string :: "string \<Rightarrow> string list \<Rightarrow> guint32" where
  "flatpak_context_bitmask_from_string name names = bitmask_from_string_loop 0 name names"

fun bitmask_to_string_loop :: "nat \<Rightarrow> guint32 \<Rightarrow> guint32 \<Rightarrow> string list \<Rightarrow> string list" where
  "bitmask_to_string_loop i enabled valid [] = []"
| "bitmask_to_string_loop i enabled valid (n # names) =
     (let bitmask = push_bit i (1 :: guint32) in
      if valid AND bitmask \<noteq> 0
      then (if enabled AND bitmask \<noteq> 0 then n else CHR ''!'' # n)
             # bitmask_to_string_loop (Suc i) enabled valid names
      else bitmask_to_string_loop (Suc i) enabled valid names)"

definition flatpak_context_bitmask_to_string :: "guint32 \<Rightarrow> guint32 \<Rightarrow> string list \<Rightarrow> string list" where
  "flatpak_context_bitmask_to_string enabled valid names = bitmask_to_string_loop 0 enabled valid names"

text \<open>The \<open>*_from_string\<close> functions return 0 and set the error when the name is unknown.\<close>

definition flatpak_context_share_from_string :: "string \<Rightarrow> guint32" where
  "flatpak_context_share_from_string s = flatpak_context_bitmask_from_string s flatpak_context_shares"

definition flatpak_context_socket_from_string :: "string \<Rightarrow> guint32" where
  "flatpak_context_socket_from_string s = flatpak_context_bitmask_from_string s flatpak_context_sockets"

definition flatpak_context_device_from_string :: "string \<Rightarrow> guint32" where
  "flatpak_context_device_from_string s = flatpak_context_bitmask_from_string s flatpak_context_devices"

definition flatpak_context_feature_from_string :: "string \<Rightarrow> guint32" where
  "flatpak_context_feature_from_string s = flatpak_context_bitmask_from_string s flatpak_context_features"

definition flatpak_context_shared_to_string :: "guint32 \<Rightarrow> guint32 \<Rightarrow> string list" where
  "flatpak_context_shared_to_string s valid = flatpak_context_bitmask_to_string s valid flatpak_context_shares"

definition flatpak_context_sockets_to_string :: "guint32 \<Rightarrow> guint32 \<Rightarrow> string list" where
  "flatpak_context_sockets_to_string s valid = flatpak_context_bitmask_to_string s valid flatpak_context_sockets"

definition flatpak_context_devices_to_string :: "guint32 \<Rightarrow> guint32 \<Rightarrow> string list" where
  "flatpak_context_devices_to_string s valid = flatpak_context_bitmask_to_string s valid flatpak_context_devices"

definition flatpak_context_features_to_string :: "guint32 \<Rightarrow> guint32 \<Rightarrow> string list" where
  "flatpak_context_features_to_string s valid = flatpak_context_bitmask_to_string s valid flatpak_context_features"

definition flatpak_context_add_shares :: "FlatpakContext \<Rightarrow> guint32 \<Rightarrow> FlatpakContext" where
  "flatpak_context_add_shares context s =
     context\<lparr> shares_valid := shares_valid context OR s, shares := shares context OR s \<rparr>"

definition flatpak_context_remove_shares :: "FlatpakContext \<Rightarrow> guint32 \<Rightarrow> FlatpakContext" where
  "flatpak_context_remove_shares context s =
     context\<lparr> shares_valid := shares_valid context OR s, shares := shares context AND NOT s \<rparr>"

definition flatpak_context_add_sockets :: "FlatpakContext \<Rightarrow> guint32 \<Rightarrow> FlatpakContext" where
  "flatpak_context_add_sockets context s =
     context\<lparr> sockets_valid := sockets_valid context OR s, sockets := sockets context OR s \<rparr>"

definition flatpak_context_remove_sockets :: "FlatpakContext \<Rightarrow> guint32 \<Rightarrow> FlatpakContext" where
  "flatpak_context_remove_sockets context s =
     context\<lparr> sockets_valid := sockets_valid context OR s, sockets := sockets context AND NOT s \<rparr>"

definition flatpak_context_add_devices :: "FlatpakContext \<Rightarrow> guint32 \<Rightarrow> FlatpakContext" where
  "flatpak_context_add_devices context s =
     context\<lparr> devices_valid := devices_valid context OR s, devices := devices context OR s \<rparr>"

definition flatpak_context_remove_devices :: "FlatpakContext \<Rightarrow> guint32 \<Rightarrow> FlatpakContext" where
  "flatpak_context_remove_devices context s =
     context\<lparr> devices_valid := devices_valid context OR s, devices := devices context AND NOT s \<rparr>"

definition flatpak_context_add_features :: "FlatpakContext \<Rightarrow> guint32 \<Rightarrow> FlatpakContext" where
  "flatpak_context_add_features context s =
     context\<lparr> features_valid := features_valid context OR s, features := features context OR s \<rparr>"

definition flatpak_context_remove_features :: "FlatpakContext \<Rightarrow> guint32 \<Rightarrow> FlatpakContext" where
  "flatpak_context_remove_features context s =
     context\<lparr> features_valid := features_valid context OR s, features := features context AND NOT s \<rparr>"

subsection \<open>Table setters\<close>

definition flatpak_context_set_env_var ::
  "FlatpakContext \<Rightarrow> string \<Rightarrow> string option \<Rightarrow> FlatpakContext" where
  "flatpak_context_set_env_var context name v =
     context\<lparr> env_vars := DAList.update name v (env_vars context) \<rparr>"

definition flatpak_context_set_session_bus_policy ::
  "FlatpakContext \<Rightarrow> string \<Rightarrow> FlatpakPolicy \<Rightarrow> FlatpakContext" where
  "flatpak_context_set_session_bus_policy context name policy =
     context\<lparr> session_bus_policy := DAList.update name policy (session_bus_policy context) \<rparr>"

definition flatpak_context_set_system_bus_policy ::
  "FlatpakContext \<Rightarrow> string \<Rightarrow> FlatpakPolicy \<Rightarrow> FlatpakContext" where
  "flatpak_context_set_system_bus_policy context name policy =
     context\<lparr> system_bus_policy := DAList.update name policy (system_bus_policy context) \<rparr>"

definition flatpak_context_set_persistent :: "FlatpakContext \<Rightarrow> string \<Rightarrow> FlatpakContext" where
  "flatpak_context_set_persistent context path =
     context\<lparr> persistent := DAList.update path () (persistent context) \<rparr>"

subsection \<open>Generic policy\<close>

text \<open>\<open>if (*cmp == '!') cmp++\<close>: one leading exclamation mark is skipped.\<close>

fun skip_bang :: "string \<Rightarrow> string" where
  "skip_bang [] = []"
| "skip_bang (c # cs) = (if c = CHR ''!'' then cs else c # cs)"

text \<open>
  The loop of \<open>flatpak_context_apply_generic_policy\<close> over the old values; \<open>new\<close> is the
  pointer array being filled.
\<close>

fun apply_generic_policy_loop :: "string list \<Rightarrow> string \<Rightarrow> string list \<Rightarrow> string list" where
  "apply_generic_policy_loop [] v new = new"
| "apply_generic_policy_loop (old # old_v) v new =
     (let cmp1 = skip_bang old; cmp2 = skip_bang v in
      if cmp1 \<noteq> cmp2
      then apply_generic_policy_loop old_v v (new @ [old])
      else apply_generic_policy_loop old_v v new)"

text \<open>
  \<open>g_assert (strchr (key, '.') != NULL)\<close> aborts the process; the abort is the result
  \<open>None\<close>. A key that is not in the table has no old values.
\<close>

definition flatpak_context_apply_generic_policy ::
  "FlatpakContext \<Rightarrow> string \<Rightarrow> string \<Rightarrow> FlatpakContext option" where
  "flatpak_context_apply_generic_policy context key v =
     (if CHR ''.'' \<notin> set key then None
      else
        let old_v = (case DAList.lookup (generic_policy context) key of None \<Rightarrow> [] | Some l \<Rightarrow> l);
            new = apply_generic_policy_loop old_v v [] @ [v]
        in Some (context\<lparr> generic_policy := DAList.update key new (generic_policy context) \<rparr>))"

subsection \<open>Filesystem expressions\<close>

text \<open>GLib's string tests, on byte strings.\<close>

definition g_str_has_prefix :: "string \<Rightarrow> string \<Rightarrow> bool" where
  "g_str_has_prefix str pre = (take (length pre) str = pre)"

definition g_str_has_suffix :: "string \<Rightarrow> string \<Rightarrow> bool" where
  "g_str_has_suffix str suf =
     (length suf \<le> length str \<and> drop (length str - length suf) str = suf)"

text \<open>
  \<open>parse_filesystem_flags\<close> returns the expression without its suffix and the mode of the
  suffix, read-write when there is none.
\<close>

definition parse_filesystem_flags :: "string \<Rightarrow> string \<times> FlatpakFilesystemMode" where
  "parse_filesystem_flags filesystem =
     (if g_str_has_suffix filesystem '':ro''
      then (take (length filesystem - 3) filesystem, FLATPAK_FILESYSTEM_MODE_READ_ONLY)
      else if g_str_has_suffix filesystem '':rw''
      then (take (length filesystem - 3) filesystem, FLATPAK_FILESYSTEM_MODE_READ_WRITE)
      else if g_str_has_suffix filesystem '':create''
      then (take (length filesystem - 7) filesystem, FLATPAK_FILESYSTEM_MODE_CREATE)
      else (filesystem, FLATPAK_FILESYSTEM_MODE_READ_WRITE))"

definition get_xdg_dir_from_prefix :: "string \<Rightarrow> bool" where
  "get_xdg_dir_from_prefix pre =
     (if pre = ''xdg-data'' then True
      else if pre = ''xdg-cache'' then True
      else if pre = ''xdg-config'' then True
      else False)"

text \<open>
  \<open>get_xdg_user_dir_from_string\<close> with all its out-parameters \<open>NULL\<close>, as the verifier calls it:
  \<open>prefix\<close> is the text before the first slash and \<open>rest\<close> what follows the slashes after it.
\<close>

definition get_xdg_user_dir_from_string :: "string \<Rightarrow> bool" where
  "get_xdg_user_dir_from_string filesystem =
     (let pre = takeWhile (\<lambda>c. c \<noteq> CHR ''/'') filesystem;
          rest = dropWhile (\<lambda>c. c = CHR ''/'') (dropWhile (\<lambda>c. c \<noteq> CHR ''/'') filesystem)
      in if pre = ''xdg-desktop'' then True
         else if pre = ''xdg-documents'' then True
         else if pre = ''xdg-download'' then True
         else if pre = ''xdg-music'' then True
         else if pre = ''xdg-pictures'' then True
         else if pre = ''xdg-public-share'' then True
         else if pre = ''xdg-templates'' then True
         else if pre = ''xdg-videos'' then True
         else if get_xdg_dir_from_prefix pre then True
         else if pre = ''xdg-run'' \<and> rest \<noteq> [] then True
         else False)"

definition flatpak_context_verify_filesystem :: "string \<Rightarrow> bool" where
  "flatpak_context_verify_filesystem filesystem_and_mode =
     (let filesystem = fst (parse_filesystem_flags filesystem_and_mode)
      in if filesystem = ''host'' then True
         else if filesystem = ''home'' then True
         else if get_xdg_user_dir_from_string filesystem then True
         else if g_str_has_prefix filesystem ''~/'' then True
         else if g_str_has_prefix filesystem ''/'' then True
         else False)"

definition flatpak_context_add_filesystem :: "FlatpakContext \<Rightarrow> string \<Rightarrow> FlatpakContext" where
  "flatpak_context_add_filesystem context what =
     (let (fs, mode) = parse_filesystem_flags what
      in context\<lparr> filesystems := DAList.update fs (Some mode) (filesystems context) \<rparr>)"

definition flatpak_context_remove_filesystem :: "FlatpakContext \<Rightarrow> string \<Rightarrow> FlatpakContext" where
  "flatpak_context_remove_filesystem context what =
     context\<lparr> filesystems := DAList.update (fst (parse_filesystem_flags what)) None (filesystems context) \<rparr>"

definition flatpak_context_allow_host_fs :: "FlatpakContext \<Rightarrow> FlatpakContext" where
  "flatpak_context_allow_host_fs context = flatpak_context_add_filesystem context ''host''"

subsection \<open>Merge\<close>

text \<open>The loop \<open>while (g_hash_table_iter_next (...)) g_hash_table_insert (...)\<close>.\<close>

fun hash_table_insert_each :: "('k \<times> 'v) list \<Rightarrow> ('k, 'v) alist \<Rightarrow> ('k, 'v) alist" where
  "hash_table_insert_each [] table = table"
| "hash_table_insert_each ((key, v) # rest) table =
     hash_table_insert_each rest (DAList.update key v table)"

fun apply_generic_policy_values ::
  "FlatpakContext \<Rightarrow> string \<Rightarrow> string list \<Rightarrow> FlatpakContext option" where
  "apply_generic_policy_values context key [] = Some context"
| "apply_generic_policy_values context key (v # policy_values) =
     (case flatpak_context_apply_generic_policy context key v of
        None \<Rightarrow> None
      | Some context' \<Rightarrow> apply_generic_policy_values context' key policy_values)"

fun merge_generic_policy ::
  "FlatpakContext \<Rightarrow> (string \<times> string list) list \<Rightarrow> FlatpakContext option" where
  "merge_generic_policy context [] = Some context"
| "merge_generic_policy context ((key, policy_values) # rest) =
     (case apply_generic_policy_values context key policy_values of
        None \<Rightarrow> None
      | Some context' \<Rightarrow> merge_generic_policy context' rest)"

text \<open>
  \<open>flatpak_context_merge\<close> changes \<open>context\<close> in place; the result is the changed context, or
  \<open>None\<close> when an assertion aborts. The source runs the loop over \<open>system_bus_policy\<close> twice.
\<close>

definition flatpak_context_merge :: "FlatpakContext \<Rightarrow> FlatpakContext \<Rightarrow> FlatpakContext option" where
  "flatpak_context_merge context other =
     merge_generic_policy
       (context\<lparr>
          shares := (shares context AND NOT (shares_valid other)) OR shares other,
          shares_valid := shares_valid context OR shares_valid other,
          sockets := (sockets context AND NOT (sockets_valid other)) OR sockets other,
          sockets_valid := sockets_valid context OR sockets_valid other,
          devices := (devices context AND NOT (devices_valid other)) OR devices other,
          devices_valid := devices_valid context OR devices_valid other,
          features := (features context AND NOT (features_valid other)) OR features other,
          features_valid := features_valid context OR features_valid other,
          env_vars := hash_table_insert_each (DAList.impl_of (env_vars other)) (env_vars context),
          persistent := hash_table_insert_each (DAList.impl_of (persistent other)) (persistent context),
          filesystems := hash_table_insert_each (DAList.impl_of (filesystems other)) (filesystems context),
          session_bus_policy :=
            hash_table_insert_each (DAList.impl_of (session_bus_policy other)) (session_bus_policy context),
          system_bus_policy :=
            hash_table_insert_each (DAList.impl_of (system_bus_policy other))
              (hash_table_insert_each (DAList.impl_of (system_bus_policy other)) (system_bus_policy context))
        \<rparr>)
       (DAList.impl_of (generic_policy other))"

subsection \<open>Bus names and policies\<close>

text \<open>
  \<open>g_dbus_is_name\<close> and \<open>g_dbus_is_unique_name\<close> belong to GIO; they are parameters of the
  model.
\<close>

record gdbus =
  g_dbus_is_name :: "string \<Rightarrow> bool"
  g_dbus_is_unique_name :: "string \<Rightarrow> bool"

definition flatpak_verify_dbus_name :: "gdbus \<Rightarrow> string \<Rightarrow> bool" where
  "flatpak_verify_dbus_name gio name =
     (let name_part = (if g_str_has_suffix name ''.*'' then take (length name - 2) name else name)
      in g_dbus_is_name gio name_part \<and> \<not> g_dbus_is_unique_name gio name_part)"

text \<open>
  The table \<open>policies\<close> of \<open>flatpak_policy_from_string\<close>, each name with the enum member whose
  value is its index; the result \<open>None\<close> is the error return \<open>-1\<close>.
\<close>

definition policies :: "(string \<times> FlatpakPolicy) list" where
  "policies =
     [(''none'', FLATPAK_POLICY_NONE), (''see'', FLATPAK_POLICY_SEE),
      (''filtered'', FLATPAK_POLICY_FILTERED), (''talk'', FLATPAK_POLICY_TALK),
      (''own'', FLATPAK_POLICY_OWN)]"

fun policy_from_string_loop :: "string \<Rightarrow> (string \<times> FlatpakPolicy) list \<Rightarrow> FlatpakPolicy option" where
  "policy_from_string_loop s [] = None"
| "policy_from_string_loop s ((name, i) # rest) =
     (if s = name then Some i else policy_from_string_loop s rest)"

definition flatpak_policy_from_string :: "string \<Rightarrow> FlatpakPolicy option" where
  "flatpak_policy_from_string s = policy_from_string_loop s policies"

definition flatpak_policy_to_string :: "FlatpakPolicy \<Rightarrow> string" where
  "flatpak_policy_to_string policy =
     (if policy = FLATPAK_POLICY_SEE then ''see''
      else if policy = FLATPAK_POLICY_TALK then ''talk''
      else if policy = FLATPAK_POLICY_OWN then ''own''
      else ''none'')"

subsection \<open>Command-line options\<close>

text \<open>
  Each callback returns \<open>TRUE\<close> or \<open>FALSE\<close> and the context it leaves behind. The two policy
  callbacks can reach the assertion of \<open>flatpak_context_apply_generic_policy\<close>, so their result
  is optional.
\<close>

definition option_share_cb :: "FlatpakContext \<Rightarrow> string \<Rightarrow> bool \<times> FlatpakContext" where
  "option_share_cb context v =
     (let share = flatpak_context_share_from_string v
      in if share = 0 then (False, context) else (True, flatpak_context_add_shares context share))"

definition option_unshare_cb :: "FlatpakContext \<Rightarrow> string \<Rightarrow> bool \<times> FlatpakContext" where
  "option_unshare_cb context v =
     (let share = flatpak_context_share_from_string v
      in if share = 0 then (False, context) else (True, flatpak_context_remove_shares context share))"

definition option_socket_cb :: "FlatpakContext \<Rightarrow> string \<Rightarrow> bool \<times> FlatpakContext" where
  "option_socket_cb context v =
     (let socket = flatpak_context_socket_from_string v
      in if socket = 0 then (False, context) else (True, flatpak_context_add_sockets context socket))"

definition option_nosocket_cb :: "FlatpakContext \<Rightarrow> string \<Rightarrow> bool \<times> FlatpakContext" where
  "option_nosocket_cb context v =
     (let socket = flatpak_context_socket_from_string v
      in if socket = 0 then (False, context) else (True, flatpak_context_remove_sockets context socket))"

definition option_device_cb :: "FlatpakContext \<Rightarrow> string \<Rightarrow> bool \<times> FlatpakContext" where
  "option_device_cb context v =
     (let device = flatpak_context_device_from_string v
      in if device = 0 then (False, context) else (True, flatpak_context_add_devices context device))"

definition option_nodevice_cb :: "FlatpakContext \<Rightarrow> string \<Rightarrow> bool \<times> FlatpakContext" where
  "option_nodevice_cb context v =
     (let device = flatpak_context_device_from_string v
      in if device = 0 then (False, context) else (True, flatpak_context_remove_devices context device))"

definition option_allow_cb :: "FlatpakContext \<Rightarrow> string \<Rightarrow> bool \<times> FlatpakContext" where
  "option_allow_cb context v =
     (let feature = flatpak_context_feature_from_string v
      in if feature = 0 then (False, context) else (True, flatpak_context_add_features context feature))"

definition option_disallow_cb :: "FlatpakContext \<Rightarrow> string \<Rightarrow> bool \<times> FlatpakContext" where
  "option_disallow_cb context v =
     (let feature = flatpak_context_feature_from_string v
      in if feature = 0 then (False, context) else (True, flatpak_context_remove_features context feature))"

definition option_filesystem_cb :: "FlatpakContext \<Rightarrow> string \<Rightarrow> bool \<times> FlatpakContext" where
  "option_filesystem_cb context v =
     (if \<not> flatpak_context_verify_filesystem v then (False, context)
      else (True, flatpak_context_add_filesystem context v))"

definition option_nofilesystem_cb :: "FlatpakContext \<Rightarrow> string \<Rightarrow> bool \<times> FlatpakContext" where
  "option_nofilesystem_cb context v =
     (if \<not> flatpak_context_verify_filesystem v then (False, context)
      else (True, flatpak_context_remove_filesystem context v))"

text \<open>
  \<open>g_strsplit (value, "=", 2)\<close> cuts at the first equals sign; it has no first part for the
  empty string and no second part when there is no equals sign.
\<close>

definition option_env_cb :: "FlatpakContext \<Rightarrow> string \<Rightarrow> bool \<times> FlatpakContext" where
  "option_env_cb context v =
     (let split0 = takeWhile (\<lambda>c. c \<noteq> CHR ''='') v;
          split1 = drop 1 (dropWhile (\<lambda>c. c \<noteq> CHR ''='') v)
      in if v = [] \<or> split0 = [] \<or> CHR ''='' \<notin> set v then (False, context)
         else (True, flatpak_context_set_env_var context split0 (Some split1)))"

definition option_own_name_cb :: "gdbus \<Rightarrow> FlatpakContext \<Rightarrow> string \<Rightarrow> bool \<times> FlatpakContext" where
  "option_own_name_cb gio context v =
     (if \<not> flatpak_verify_dbus_name gio v then (False, context)
      else (True, flatpak_context_set_session_bus_policy context v FLATPAK_POLICY_OWN))"

definition option_talk_name_cb :: "gdbus \<Rightarrow> FlatpakContext \<Rightarrow> string \<Rightarrow> bool \<times> FlatpakContext" where
  "option_talk_name_cb gio context v =
     (if \<not> flatpak_verify_dbus_name gio v then (False, context)
      else (True, flatpak_context_set_session_bus_policy context v FLATPAK_POLICY_TALK))"

definition option_system_own_name_cb :: "gdbus \<Rightarrow> FlatpakContext \<Rightarrow> string \<Rightarrow> bool \<times> FlatpakContext" where
  "option_system_own_name_cb gio context v =
     (if \<not> flatpak_verify_dbus_name gio v then (False, context)
      else (True, flatpak_context_set_system_bus_policy context v FLATPAK_POLICY_OWN))"

definition option_system_talk_name_cb :: "gdbus \<Rightarrow> FlatpakContext \<Rightarrow> string \<Rightarrow> bool \<times> FlatpakContext" where
  "option_system_talk_name_cb gio context v =
     (if \<not> flatpak_verify_dbus_name gio v then (False, context)
      else (True, flatpak_context_set_system_bus_policy context v FLATPAK_POLICY_TALK))"

definition option_add_generic_policy_cb ::
  "FlatpakContext \<Rightarrow> string \<Rightarrow> (bool \<times> FlatpakContext) option" where
  "option_add_generic_policy_cb context v =
     (if CHR ''='' \<notin> set v then Some (False, context)
      else
        let policy_value = drop 1 (dropWhile (\<lambda>c. c \<noteq> CHR ''='') v);
            key = takeWhile (\<lambda>c. c \<noteq> CHR ''='') v
        in if CHR ''.'' \<notin> set key then Some (False, context)
           else if g_str_has_prefix policy_value ''!'' then Some (False, context)
           else map_option (Pair True) (flatpak_context_apply_generic_policy context key policy_value))"

definition option_remove_generic_policy_cb ::
  "FlatpakContext \<Rightarrow> string \<Rightarrow> (bool \<times> FlatpakContext) option" where
  "option_remove_generic_policy_cb context v =
     (if CHR ''='' \<notin> set v then Some (False, context)
      else
        let policy_value = drop 1 (dropWhile (\<lambda>c. c \<noteq> CHR ''='') v);
            key = takeWhile (\<lambda>c. c \<noteq> CHR ''='') v
        in if CHR ''.'' \<notin> set key then Some (False, context)
           else if g_str_has_prefix policy_value ''!'' then Some (False, context)
           else
             let extended_value = ''!'' @ policy_value
             in map_option (Pair True) (flatpak_context_apply_generic_policy context key extended_value))"

definition option_persist_cb :: "FlatpakContext \<Rightarrow> string \<Rightarrow> bool \<times> FlatpakContext" where
  "option_persist_cb context v = (True, flatpak_context_set_persistent context v)"

text \<open>The table \<open>context_options\<close>: the callback of each long option name.\<close>

definition context_options ::
  "gdbus \<Rightarrow> (string \<times> (FlatpakContext \<Rightarrow> string \<Rightarrow> (bool \<times> FlatpakContext) option)) list" where
  "context_options gio =
     [(''share'', \<lambda>c v. Some (option_share_cb c v)),
      (''unshare'', \<lambda>c v. Some (option_unshare_cb c v)),
      (''socket'', \<lambda>c v. Some (option_socket_cb c v)),
      (''nosocket'', \<lambda>c v. Some (option_nosocket_cb c v)),
      (''device'', \<lambda>c v. Some (option_device_cb c v)),
      (''nodevice'', \<lambda>c v. Some (option_nodevice_cb c v)),
      (''allow'', \<lambda>c v. Some (option_allow_cb c v)),
      (''disallow'', \<lambda>c v. Some (option_disallow_cb c v)),
      (''filesystem'', \<lambda>c v. Some (option_filesystem_cb c v)),
      (''nofilesystem'', \<lambda>c v. Some (option_nofilesystem_cb c v)),
      (''env'', \<lambda>c v. Some (option_env_cb c v)),
      (''own-name'', \<lambda>c v. Some (option_own_name_cb gio c v)),
      (''talk-name'', \<lambda>c v. Some (option_talk_name_cb gio c v)),
      (''system-own-name'', \<lambda>c v. Some (option_system_own_name_cb gio c v)),
      (''system-talk-name'', \<lambda>c v. Some (option_system_talk_name_cb gio c v)),
      (''add-policy'', option_add_generic_policy_cb),
      (''remove-policy'', option_remove_generic_policy_cb),
      (''persist'', \<lambda>c v. Some (option_persist_cb c v))]"

subsection \<open>Key files\<close>

text \<open>
  \<open>GKeyFile\<close> belongs to GLib. The model keeps the groups in their order and the entries with
  their decoded values: a string, as \<open>g_key_file_set_string\<close> stores it, or a list of strings,
  as \<open>g_key_file_set_string_list\<close> stores it. The escaping that GLib applies to the text of
  the file is not modelled; a getter of the other kind returns \<open>NULL\<close>, as it does for a
  missing key.
\<close>

datatype kf_value = KF_string string | KF_string_list "string list"

record GKeyFile =
  kf_groups :: "string list"
  kf_entries :: "((string \<times> string) \<times> kf_value) list"

definition g_key_file_new :: GKeyFile where
  "g_key_file_new = \<lparr> kf_groups = [], kf_entries = [] \<rparr>"

definition g_key_file_has_group :: "GKeyFile \<Rightarrow> string \<Rightarrow> bool" where
  "g_key_file_has_group kf g = (g \<in> set (kf_groups kf))"

definition g_key_file_get_groups :: "GKeyFile \<Rightarrow> string list" where
  "g_key_file_get_groups kf = kf_groups kf"

definition g_key_file_has_key :: "GKeyFile \<Rightarrow> string \<Rightarrow> string \<Rightarrow> bool" where
  "g_key_file_has_key kf g k = (g \<in> set (kf_groups kf) \<and> map_of (kf_entries kf) (g, k) \<noteq> None)"

definition g_key_file_get_keys :: "GKeyFile \<Rightarrow> string \<Rightarrow> string list option" where
  "g_key_file_get_keys kf g =
     (if g \<in> set (kf_groups kf)
      then Some (map (\<lambda>e. snd (fst e)) (filter (\<lambda>e. fst (fst e) = g) (kf_entries kf)))
      else None)"

definition g_key_file_get_string :: "GKeyFile \<Rightarrow> string \<Rightarrow> string \<Rightarrow> string option" where
  "g_key_file_get_string kf g k =
     (if g \<in> set (kf_groups kf)
      then (case map_of (kf_entries kf) (g, k) of Some (KF_string v) \<Rightarrow> Some v | _ \<Rightarrow> None)
      else None)"

definition g_key_file_get_string_list :: "GKeyFile \<Rightarrow> string \<Rightarrow> string \<Rightarrow> string list option" where
  "g_key_file_get_string_list kf g k =
     (if g \<in> set (kf_groups kf)
      then (case map_of (kf_entries kf) (g, k) of Some (KF_string_list l) \<Rightarrow> Some l | _ \<Rightarrow> None)
      else None)"

definition g_key_file_set_value :: "GKeyFile \<Rightarrow> string \<Rightarrow> string \<Rightarrow> kf_value \<Rightarrow> GKeyFile" where
  "g_key_file_set_value kf g k v =
     \<lparr> kf_groups = (if g \<in> set (kf_groups kf) then kf_groups kf else kf_groups kf @ [g]),
       kf_entries = AList.update (g, k) v (kf_entries kf) \<rparr>"

text \<open>\<open>g_key_file_set_string\<close> returns at once when the string is \<open>NULL\<close>.\<close>

definition g_key_file_set_string :: "GKeyFile \<Rightarrow> string \<Rightarrow> string \<Rightarrow> string option \<Rightarrow> GKeyFile" where
  "g_key_file_set_string kf g k v =
     (case v of None \<Rightarrow> kf | Some s \<Rightarrow> g_key_file_set_value kf g k (KF_string s))"

definition g_key_file_set_string_list :: "GKeyFile \<Rightarrow> string \<Rightarrow> string \<Rightarrow> string list \<Rightarrow> GKeyFile" where
  "g_key_file_set_string_list kf g k l = g_key_file_set_value kf g k (KF_string_list l)"

definition g_key_file_remove_key :: "GKeyFile \<Rightarrow> string \<Rightarrow> string \<Rightarrow> GKeyFile" where
  "g_key_file_remove_key kf g k = kf\<lparr> kf_entries := AList.delete (g, k) (kf_entries kf) \<rparr>"

definition g_key_file_remove_group :: "GKeyFile \<Rightarrow> string \<Rightarrow> GKeyFile" where
  "g_key_file_remove_group kf g =
     \<lparr> kf_groups = removeAll g (kf_groups kf),
       kf_entries = filter (\<lambda>e. fst (fst e) \<noteq> g) (kf_entries kf) \<rparr>"

text \<open>
  Modelled from the spec: the names of the groups and keys are macros of flatpak-run.h, which
  is not part of this file; the spec gives the section and key names of the metadata schema.
\<close>

definition FLATPAK_METADATA_GROUP_CONTEXT :: string where
  "FLATPAK_METADATA_GROUP_CONTEXT = ''Context''"

definition FLATPAK_METADATA_KEY_SHARED :: string where
  "FLATPAK_METADATA_KEY_SHARED = ''shared''"

definition FLATPAK_METADATA_KEY_SOCKETS :: string where
  "FLATPAK_METADATA_KEY_SOCKETS = ''sockets''"

definition FLATPAK_METADATA_KEY_DEVICES :: string where
  "FLATPAK_METADATA_KEY_DEVICES = ''devices''"

definition FLATPAK_METADATA_KEY_FEATURES :: string where
  "FLATPAK_METADATA_KEY_FEATURES = ''features''"

definition FLATPAK_METADATA_KEY_FILESYSTEMS :: string where
  "FLATPAK_METADATA_KEY_FILESYSTEMS = ''filesystems''"

definition FLATPAK_METADATA_KEY_PERSISTENT :: string where
  "FLATPAK_METADATA_KEY_PERSISTENT = ''persistent''"

definition FLATPAK_METADATA_GROUP_SESSION_BUS_POLICY :: string where
  "FLATPAK_METADATA_GROUP_SESSION_BUS_POLICY = ''Session Bus Policy''"

definition FLATPAK_METADATA_GROUP_SYSTEM_BUS_POLICY :: string where
  "FLATPAK_METADATA_GROUP_SYSTEM_BUS_POLICY = ''System Bus Policy''"

definition FLATPAK_METADATA_GROUP_ENVIRONMENT :: string where
  "FLATPAK_METADATA_GROUP_ENVIRONMENT = ''Environment''"

definition FLATPAK_METADATA_GROUP_PREFIX_POLICY :: string where
  "FLATPAK_METADATA_GROUP_PREFIX_POLICY = ''Policy ''"

subsection \<open>Loading metadata\<close>

definition parse_negated :: "string \<Rightarrow> string \<times> bool" where
  "parse_negated opt = (if g_str_has_prefix opt ''!'' then (drop 1 opt, True) else (opt, False))"

text \<open>
  The four loops over the lists \<open>shared\<close>, \<open>sockets\<close>, \<open>devices\<close> and \<open>features\<close> differ in
  the three functions they call, which are the parameters here. A loop that meets an unknown
  name returns \<open>FALSE\<close> and leaves the context as far as it got.
\<close>

fun load_bitmask_loop ::
  "(string \<Rightarrow> guint32) \<Rightarrow> (FlatpakContext \<Rightarrow> guint32 \<Rightarrow> FlatpakContext)
     \<Rightarrow> (FlatpakContext \<Rightarrow> guint32 \<Rightarrow> FlatpakContext)
     \<Rightarrow> FlatpakContext \<Rightarrow> string list \<Rightarrow> bool \<times> FlatpakContext" where
  "load_bitmask_loop from_string add remove context [] = (True, context)"
| "load_bitmask_loop from_string add remove context (entry # entries) =
     (let (name, negated) = parse_negated entry;
          bits = from_string name
      in if bits = 0 then (False, context)
         else load_bitmask_loop from_string add remove
                (if negated then remove context bits else add context bits) entries)"

definition load_bitmask_key ::
  "GKeyFile \<Rightarrow> string \<Rightarrow> (string \<Rightarrow> guint32) \<Rightarrow> (FlatpakContext \<Rightarrow> guint32 \<Rightarrow> FlatpakContext)
     \<Rightarrow> (FlatpakContext \<Rightarrow> guint32 \<Rightarrow> FlatpakContext)
     \<Rightarrow> FlatpakContext \<Rightarrow> bool \<times> FlatpakContext" where
  "load_bitmask_key metakey key from_string add remove context =
     (if g_key_file_has_key metakey FLATPAK_METADATA_GROUP_CONTEXT key
      then (case g_key_file_get_string_list metakey FLATPAK_METADATA_GROUP_CONTEXT key of
              None \<Rightarrow> (False, context)
            | Some entries \<Rightarrow> load_bitmask_loop from_string add remove context entries)
      else (True, context))"

fun load_filesystems_loop :: "FlatpakContext \<Rightarrow> string list \<Rightarrow> bool \<times> FlatpakContext" where
  "load_filesystems_loop context [] = (True, context)"
| "load_filesystems_loop context (entry # entries) =
     (let (fs, negated) = parse_negated entry
      in if \<not> flatpak_context_verify_filesystem fs then (False, context)
         else load_filesystems_loop
                (if negated then flatpak_context_remove_filesystem context fs
                 else flatpak_context_add_filesystem context fs) entries)"

definition load_filesystems :: "GKeyFile \<Rightarrow> FlatpakContext \<Rightarrow> bool \<times> FlatpakContext" where
  "load_filesystems metakey context =
     (if g_key_file_has_key metakey FLATPAK_METADATA_GROUP_CONTEXT FLATPAK_METADATA_KEY_FILESYSTEMS
      then (case g_key_file_get_string_list metakey FLATPAK_METADATA_GROUP_CONTEXT
                   FLATPAK_METADATA_KEY_FILESYSTEMS of
              None \<Rightarrow> (False, context)
            | Some entries \<Rightarrow> load_filesystems_loop context entries)
      else (True, context))"

definition load_persistent :: "GKeyFile \<Rightarrow> FlatpakContext \<Rightarrow> bool \<times> FlatpakContext" where
  "load_persistent metakey context =
     (if g_key_file_has_key metakey FLATPAK_METADATA_GROUP_CONTEXT FLATPAK_METADATA_KEY_PERSISTENT
      then (case g_key_file_get_string_list metakey FLATPAK_METADATA_GROUP_CONTEXT
                   FLATPAK_METADATA_KEY_PERSISTENT of
              None \<Rightarrow> (False, context)
            | Some entries \<Rightarrow> (True, fold (\<lambda>path c. flatpak_context_set_persistent c path) entries context))
      else (True, context))"

text \<open>
  The loops over the keys of a bus policy group. A \<open>NULL\<close> value reaches \<open>strcmp\<close> in
  \<open>flatpak_policy_from_string\<close>, after the name was verified: the crash is the result \<open>None\<close>.
\<close>

fun load_bus_policy_loop ::
  "gdbus \<Rightarrow> GKeyFile \<Rightarrow> string \<Rightarrow> (FlatpakContext \<Rightarrow> string \<Rightarrow> FlatpakPolicy \<Rightarrow> FlatpakContext)
     \<Rightarrow> FlatpakContext \<Rightarrow> string list \<Rightarrow> (bool \<times> FlatpakContext) option" where
  "load_bus_policy_loop gio metakey g set_policy context [] = Some (True, context)"
| "load_bus_policy_loop gio metakey g set_policy context (key # keys) =
     (let v = g_key_file_get_string metakey g key
      in if \<not> flatpak_verify_dbus_name gio key then Some (False, context)
         else (case v of
                 None \<Rightarrow> None
               | Some s \<Rightarrow>
                   (case flatpak_policy_from_string s of
                      None \<Rightarrow> Some (False, context)
                    | Some policy \<Rightarrow>
                        load_bus_policy_loop gio metakey g set_policy (set_policy context key policy) keys)))"

definition load_bus_policy ::
  "gdbus \<Rightarrow> GKeyFile \<Rightarrow> string \<Rightarrow> (FlatpakContext \<Rightarrow> string \<Rightarrow> FlatpakPolicy \<Rightarrow> FlatpakContext)
     \<Rightarrow> FlatpakContext \<Rightarrow> (bool \<times> FlatpakContext) option" where
  "load_bus_policy gio metakey g set_policy context =
     (if g_key_file_has_group metakey g
      then (case g_key_file_get_keys metakey g of
              None \<Rightarrow> Some (True, context)
            | Some keys \<Rightarrow> load_bus_policy_loop gio metakey g set_policy context keys)
      else Some (True, context))"

definition load_environment :: "GKeyFile \<Rightarrow> FlatpakContext \<Rightarrow> FlatpakContext" where
  "load_environment metakey context =
     (if g_key_file_has_group metakey FLATPAK_METADATA_GROUP_ENVIRONMENT
      then (case g_key_file_get_keys metakey FLATPAK_METADATA_GROUP_ENVIRONMENT of
              None \<Rightarrow> context
            | Some keys \<Rightarrow>
                fold (\<lambda>key c. flatpak_context_set_env_var c key
                                (g_key_file_get_string metakey FLATPAK_METADATA_GROUP_ENVIRONMENT key))
                     keys context)
      else context)"

text \<open>The loops over the groups whose name starts with the policy prefix, their keys and values.\<close>

fun load_policy_keys_loop ::
  "GKeyFile \<Rightarrow> string \<Rightarrow> string \<Rightarrow> FlatpakContext \<Rightarrow> string list \<Rightarrow> FlatpakContext option" where
  "load_policy_keys_loop metakey g subsystem context [] = Some context"
| "load_policy_keys_loop metakey g subsystem context (key # keys) =
     (let policy_key = subsystem @ ''.'' @ key;
          vs = (case g_key_file_get_string_list metakey g key of None \<Rightarrow> [] | Some l \<Rightarrow> l)
      in case apply_generic_policy_values context policy_key vs of
           None \<Rightarrow> None
         | Some context' \<Rightarrow> load_policy_keys_loop metakey g subsystem context' keys)"

fun load_policy_groups_loop :: "GKeyFile \<Rightarrow> FlatpakContext \<Rightarrow> string list \<Rightarrow> FlatpakContext option" where
  "load_policy_groups_loop metakey context [] = Some context"
| "load_policy_groups_loop metakey context (g # groups) =
     (if g_str_has_prefix g FLATPAK_METADATA_GROUP_PREFIX_POLICY
      then
        (let subsystem = drop (length FLATPAK_METADATA_GROUP_PREFIX_POLICY) g;
             keys = (case g_key_file_get_keys metakey g of None \<Rightarrow> [] | Some l \<Rightarrow> l)
         in case load_policy_keys_loop metakey g subsystem context keys of
              None \<Rightarrow> None
            | Some context' \<Rightarrow> load_policy_groups_loop metakey context' groups)
      else load_policy_groups_loop metakey context groups)"

text \<open>
  The parts of \<open>flatpak_context_load_metadata\<close> follow one another: a part that returned
  \<open>FALSE\<close> ends the function with \<open>FALSE\<close> and the context as it is, and a crash ends it.
\<close>

definition then_part ::
  "bool \<times> FlatpakContext \<Rightarrow> (FlatpakContext \<Rightarrow> (bool \<times> FlatpakContext) option)
     \<Rightarrow> (bool \<times> FlatpakContext) option" where
  "then_part r rest = (if fst r then rest (snd r) else Some (False, snd r))"

definition then_part_opt ::
  "(bool \<times> FlatpakContext) option \<Rightarrow> (FlatpakContext \<Rightarrow> (bool \<times> FlatpakContext) option)
     \<Rightarrow> (bool \<times> FlatpakContext) option" where
  "then_part_opt r rest = (case r of None \<Rightarrow> None | Some r' \<Rightarrow> then_part r' rest)"

text \<open>
  \<open>flatpak_context_load_metadata\<close> merges the key file into the context, in place. The result
  is the returned boolean with the context as it was left, or \<open>None\<close> when the process dies.
\<close>

definition flatpak_context_load_metadata ::
  "gdbus \<Rightarrow> FlatpakContext \<Rightarrow> GKeyFile \<Rightarrow> (bool \<times> FlatpakContext) option" where
  "flatpak_context_load_metadata gio context metakey =
     then_part (load_bitmask_key metakey FLATPAK_METADATA_KEY_SHARED flatpak_context_share_from_string
                  flatpak_context_add_shares flatpak_context_remove_shares context) (\<lambda>c1.
     then_part (load_bitmask_key metakey FLATPAK_METADATA_KEY_SOCKETS flatpak_context_socket_from_string
                  flatpak_context_add_sockets flatpak_context_remove_sockets c1) (\<lambda>c2.
     then_part (load_bitmask_key metakey FLATPAK_METADATA_KEY_DEVICES flatpak_context_device_from_string
                  flatpak_context_add_devices flatpak_context_remove_devices c2) (\<lambda>c3.
     then_part (load_bitmask_key metakey FLATPAK_METADATA_KEY_FEATURES flatpak_context_feature_from_string
                  flatpak_context_add_features flatpak_context_remove_features c3) (\<lambda>c4.
     then_part (load_filesystems metakey c4) (\<lambda>c5.
     then_part (load_persistent metakey c5) (\<lambda>c6.
     then_part_opt (load_bus_policy gio metakey FLATPAK_METADATA_GROUP_SESSION_BUS_POLICY
                      flatpak_context_set_session_bus_policy c6) (\<lambda>c7.
     then_part_opt (load_bus_policy gio metakey FLATPAK_METADATA_GROUP_SYSTEM_BUS_POLICY
                      flatpak_context_set_system_bus_policy c7) (\<lambda>c8.
     map_option (Pair True)
       (load_policy_groups_loop metakey (load_environment metakey c8)
          (g_key_file_get_groups metakey))))))))))"

subsection \<open>Saving metadata\<close>

definition save_bitmask_key :: "GKeyFile \<Rightarrow> string \<Rightarrow> string list \<Rightarrow> GKeyFile" where
  "save_bitmask_key metakey key names =
     (if names \<noteq> []
      then g_key_file_set_string_list metakey FLATPAK_METADATA_GROUP_CONTEXT key names
      else g_key_file_remove_key metakey FLATPAK_METADATA_GROUP_CONTEXT key)"

text \<open>
  The loop over \<open>context->filesystems\<close>: a read-only or create entry is written with its
  suffix, any other entry whose value is not \<open>NULL\<close> is written bare, and an entry whose
  value is \<open>NULL\<close> is not written.
\<close>

fun save_filesystems_loop :: "(string \<times> FlatpakFilesystemMode option) list \<Rightarrow> string list" where
  "save_filesystems_loop [] = []"
| "save_filesystems_loop ((key, v) # rest) =
     (if v = Some FLATPAK_FILESYSTEM_MODE_READ_ONLY then (key @ '':ro'') # save_filesystems_loop rest
      else if v = Some FLATPAK_FILESYSTEM_MODE_CREATE then (key @ '':create'') # save_filesystems_loop rest
      else if v \<noteq> None then key # save_filesystems_loop rest
      else save_filesystems_loop rest)"

definition save_filesystems :: "FlatpakContext \<Rightarrow> GKeyFile \<Rightarrow> GKeyFile" where
  "save_filesystems context metakey =
     (if DAList.impl_of (filesystems context) \<noteq> []
      then g_key_file_set_string_list metakey FLATPAK_METADATA_GROUP_CONTEXT
             FLATPAK_METADATA_KEY_FILESYSTEMS (save_filesystems_loop (DAList.impl_of (filesystems context)))
      else g_key_file_remove_key metakey FLATPAK_METADATA_GROUP_CONTEXT FLATPAK_METADATA_KEY_FILESYSTEMS)"

definition save_persistent :: "FlatpakContext \<Rightarrow> GKeyFile \<Rightarrow> GKeyFile" where
  "save_persistent context metakey =
     (if DAList.impl_of (persistent context) \<noteq> []
      then g_key_file_set_string_list metakey FLATPAK_METADATA_GROUP_CONTEXT
             FLATPAK_METADATA_KEY_PERSISTENT (map fst (DAList.impl_of (persistent context)))
      else g_key_file_remove_key metakey FLATPAK_METADATA_GROUP_CONTEXT FLATPAK_METADATA_KEY_PERSISTENT)"

text \<open>A bus policy is written when \<open>policy > 0\<close>, that is when it is not the member none.\<close>

fun save_bus_policy_loop :: "string \<Rightarrow> (string \<times> FlatpakPolicy) list \<Rightarrow> GKeyFile \<Rightarrow> GKeyFile" where
  "save_bus_policy_loop g [] metakey = metakey"
| "save_bus_policy_loop g ((key, policy) # rest) metakey =
     save_bus_policy_loop g rest
       (if policy \<noteq> FLATPAK_POLICY_NONE
        then g_key_file_set_string metakey g key (Some (flatpak_policy_to_string policy))
        else metakey)"

fun save_environment_loop :: "(string \<times> string option) list \<Rightarrow> GKeyFile \<Rightarrow> GKeyFile" where
  "save_environment_loop [] metakey = metakey"
| "save_environment_loop ((key, v) # rest) metakey =
     save_environment_loop rest
       (g_key_file_set_string metakey FLATPAK_METADATA_GROUP_ENVIRONMENT key v)"

fun remove_policy_groups_loop :: "string list \<Rightarrow> GKeyFile \<Rightarrow> GKeyFile" where
  "remove_policy_groups_loop [] metakey = metakey"
| "remove_policy_groups_loop (g # groups) metakey =
     remove_policy_groups_loop groups
       (if g_str_has_prefix g FLATPAK_METADATA_GROUP_PREFIX_POLICY
        then g_key_file_remove_group metakey g else metakey)"

text \<open>
  The loop over \<open>context->generic_policy\<close>. \<open>g_strsplit (key, ".", 2)\<close> cuts the key at its
  first dot, and \<open>g_assert (parts[1] != NULL)\<close> aborts when there is none.
\<close>

fun save_generic_policy_loop ::
  "bool \<Rightarrow> (string \<times> string list) list \<Rightarrow> GKeyFile \<Rightarrow> GKeyFile option" where
  "save_generic_policy_loop flatten [] metakey = Some metakey"
| "save_generic_policy_loop flatten ((key, policy_values) # rest) metakey =
     (if CHR ''.'' \<notin> set key then None
      else
        let parts0 = takeWhile (\<lambda>c. c \<noteq> CHR ''.'') key;
            parts1 = drop 1 (dropWhile (\<lambda>c. c \<noteq> CHR ''.'') key);
            new = filter (\<lambda>policy_value. \<not> flatten \<or> \<not> g_str_has_prefix policy_value ''!'') policy_values
        in save_generic_policy_loop flatten rest
             (if new \<noteq> []
              then g_key_file_set_string_list metakey (FLATPAK_METADATA_GROUP_PREFIX_POLICY @ parts0) parts1 new
              else metakey))"

text \<open>
  \<open>flatpak_context_save_metadata\<close>. The local \<open>features_valid\<close> is initialised from
  \<open>context->features\<close>, as the source has it.
\<close>

definition flatpak_context_save_metadata :: "FlatpakContext \<Rightarrow> bool \<Rightarrow> GKeyFile \<Rightarrow> GKeyFile option" where
  "flatpak_context_save_metadata context flatten metakey =
     (let shares_mask0 = shares context;
          shares_valid0 = shares_valid context;
          sockets_mask0 = sockets context;
          sockets_valid0 = sockets_valid context;
          devices_mask0 = devices context;
          devices_valid0 = devices_valid context;
          features_mask0 = features context;
          features_valid0 = features context;
          shares_mask = (if flatten then shares_mask0 AND shares_valid0 else shares_mask0);
          sockets_mask = (if flatten then sockets_mask0 AND sockets_valid0 else sockets_mask0);
          devices_mask = (if flatten then devices_mask0 AND devices_valid0 else devices_mask0);
          features_mask = (if flatten then features_mask0 AND features_valid0 else features_mask0);
          shares_valid1 = (if flatten then shares_mask else shares_valid0);
          sockets_valid1 = (if flatten then sockets_mask else sockets_valid0);
          devices_valid1 = (if flatten then devices_mask else devices_valid0);
          features_valid1 = (if flatten then features_mask else features_valid0);
          shared = flatpak_context_shared_to_string shares_mask shares_valid1;
          sockets_s = flatpak_context_sockets_to_string sockets_mask sockets_valid1;
          devices_s = flatpak_context_devices_to_string devices_mask devices_valid1;
          features_s = flatpak_context_features_to_string features_mask features_valid1;
          k1 = save_bitmask_key metakey FLATPAK_METADATA_KEY_SHARED shared;
          k2 = save_bitmask_key k1 FLATPAK_METADATA_KEY_SOCKETS sockets_s;
          k3 = save_bitmask_key k2 FLATPAK_METADATA_KEY_DEVICES devices_s;
          k4 = save_bitmask_key k3 FLATPAK_METADATA_KEY_FEATURES features_s;
          k5 = save_filesystems context k4;
          k6 = save_persistent context k5;
          k7 = save_bus_policy_loop FLATPAK_METADATA_GROUP_SESSION_BUS_POLICY
                 (DAList.impl_of (session_bus_policy context))
                 (g_key_file_remove_group k6 FLATPAK_METADATA_GROUP_SESSION_BUS_POLICY);
          k8 = save_bus_policy_loop FLATPAK_METADATA_GROUP_SYSTEM_BUS_POLICY
                 (DAList.impl_of (system_bus_policy context))
                 (g_key_file_remove_group k7 FLATPAK_METADATA_GROUP_SYSTEM_BUS_POLICY);
          k9 = save_environment_loop (DAList.impl_of (env_vars context))
                 (g_key_file_remove_group k8 FLATPAK_METADATA_GROUP_ENVIRONMENT);
          k10 = remove_policy_groups_loop (g_key_file_get_groups k9) k9
      in save_generic_policy_loop flatten (DAList.impl_of (generic_policy context)) k10)"

section \<open>The export planner\<close>

text \<open>
  The fake modes share the integer range of the filesystem modes:
  \<open>FAKE_MODE_DIR\<close> is -1, \<open>FAKE_MODE_TMPFS\<close> is 0 and \<open>FAKE_MODE_SYMLINK\<close> is \<open>G_MAXINT\<close>.
\<close>

definition FAKE_MODE_DIR :: int where
  "FAKE_MODE_DIR = - 1"

definition FAKE_MODE_TMPFS :: int where
  "FAKE_MODE_TMPFS = 0"

definition G_MAXINT :: int where
  "G_MAXINT = 2147483647"

definition FAKE_MODE_SYMLINK :: int where
  "FAKE_MODE_SYMLINK = G_MAXINT"

text \<open>
  \<open>FlatpakExports\<close> is a hash table from the path to its \<open>ExportedPath\<close>, whose field \<open>path\<close>
  is the key itself; the table of the model maps the path to the \<open>mode\<close>.
\<close>

type_synonym FlatpakExports = "(string, int) alist"

definition exports_new :: FlatpakExports where
  "exports_new = DAList.empty"

definition dont_export_in :: "string list" where
  "dont_export_in = [''/lib'', ''/lib32'', ''/lib64'', ''/bin'', ''/sbin'', ''/usr'', ''/etc'', ''/app'', ''/dev'']"

text \<open>
  The host as the planner sees it. \<open>lstat\<close> gives the type of a file (\<open>None\<close> when it fails).
  \<open>flatpak_resolve_link\<close>, \<open>flatpak_canonicalize_filename\<close> and \<open>flatpak_has_path_prefix\<close>
  are functions of flatpak-utils.c, and \<open>g_build_filename\<close> is GLib's; none is part of this
  file, so they are parameters.
\<close>

datatype st_mode = S_IFDIR | S_IFREG | S_IFLNK | S_IFSOCK | S_IFCHR | S_IFBLK | S_IFIFO

record host =
  lstat :: "string \<Rightarrow> st_mode option"
  flatpak_resolve_link :: "string \<Rightarrow> string option"
  flatpak_canonicalize_filename :: "string \<Rightarrow> string"
  flatpak_has_path_prefix :: "string \<Rightarrow> string \<Rightarrow> bool"
  g_build_filename :: "string \<Rightarrow> string \<Rightarrow> string"

definition path_is_dir :: "host \<Rightarrow> string \<Rightarrow> bool" where
  "path_is_dir h path = (case lstat h path of None \<Rightarrow> False | Some m \<Rightarrow> m = S_IFDIR)"

definition path_is_symlink :: "host \<Rightarrow> string \<Rightarrow> bool" where
  "path_is_symlink h path = (case lstat h path of None \<Rightarrow> False | Some m \<Rightarrow> m = S_IFLNK)"

definition never_export_as_symlink :: "string \<Rightarrow> bool" where
  "never_export_as_symlink path = (if path = ''/tmp'' then True else False)"

definition g_path_is_absolute :: "string \<Rightarrow> bool" where
  "g_path_is_absolute path = g_str_has_prefix path ''/''"

definition do_export_path :: "FlatpakExports \<Rightarrow> string \<Rightarrow> int \<Rightarrow> FlatpakExports" where
  "do_export_path exports path mode =
     (let old_ep = DAList.lookup exports path;
          ep_mode = (case old_ep of Some old_mode \<Rightarrow> max old_mode mode | None \<Rightarrow> mode)
      in DAList.update path ep_mode exports)"

text \<open>
  The \<open>do\<close> loop of \<open>_exports_path_expose\<close> moves \<open>slash\<close> from one slash of the canonical
  path to the next, starting after the first character, and cuts the path there. Each round
  sees the path up to the slash and the text after it; the last round sees the whole path and
  no slash. \<open>expose_walk\<close> lists what the rounds see: \<open>seen\<close> is the text up to the
  character under examination. An empty canonical path does not occur (the path is absolute);
  it has the one round of the empty path.
\<close>

fun expose_walk :: "string \<Rightarrow> string \<Rightarrow> (string \<times> string option) list" where
  "expose_walk seen [] = [(seen, None)]"
| "expose_walk seen (c # cs) =
     (if c = CHR ''/''
      then (seen, Some cs) # expose_walk (seen @ [c]) cs
      else expose_walk (seen @ [c]) cs)"

definition expose_rounds :: "string \<Rightarrow> (string \<times> string option) list" where
  "expose_rounds canonical = (case canonical of [] \<Rightarrow> [([], None)] | c # cs \<Rightarrow> expose_walk [c] cs)"

text \<open>
  \<open>_exports_path_expose\<close> (an Isabelle name cannot start with an underscore). The result is
  the returned boolean and the export table as the call left it. The loop leaves at the
  first round whose path is a symlink that may be exported as one; \<open>find\<close> picks that round.
\<close>

function exports_path_expose_level ::
  "host \<Rightarrow> FlatpakExports \<Rightarrow> int \<Rightarrow> string \<Rightarrow> int \<Rightarrow> bool \<times> FlatpakExports" where
  "exports_path_expose_level h exports mode path level =
     (if level > 40 then (False, exports)
      else if \<not> g_path_is_absolute path then (False, exports)
      else (case lstat h path of
              None \<Rightarrow> (False, exports)
            | Some st \<Rightarrow>
                if \<not> (st = S_IFDIR \<or> st = S_IFREG \<or> st = S_IFLNK \<or> st = S_IFSOCK) then (False, exports)
                else
                  let canonical = flatpak_canonicalize_filename h path
                  in if list_ex (\<lambda>d. flatpak_has_path_prefix h canonical d) dont_export_in
                     then (False, exports)
                     else (case find (\<lambda>(p, rest). path_is_symlink h p \<and> \<not> never_export_as_symlink p)
                                  (expose_rounds canonical) of
                             None \<Rightarrow> (True, do_export_path exports canonical mode)
                           | Some (p, rest) \<Rightarrow>
                               (case flatpak_resolve_link h p of
                                  None \<Rightarrow> (False, exports)
                                | Some resolved \<Rightarrow>
                                    let new_target = (case rest of
                                                        Some r \<Rightarrow> g_build_filename h resolved r
                                                      | None \<Rightarrow> resolved)
                                    in (case exports_path_expose_level h exports mode new_target (level + 1) of
                                          (True, exports') \<Rightarrow> (True, do_export_path exports' p FAKE_MODE_SYMLINK)
                                        | (False, exports') \<Rightarrow> (False, exports'))))))"
  by pat_completeness auto
termination
  by (relation "measure (\<lambda>(h, exports, mode, path, level). nat (41 - level))") auto

definition exports_path_expose :: "host \<Rightarrow> FlatpakExports \<Rightarrow> FlatpakFilesystemMode \<Rightarrow> string \<Rightarrow> FlatpakExports" where
  "exports_path_expose h exports mode path =
     snd (exports_path_expose_level h exports (filesystem_mode_to_int mode) path 0)"

definition exports_path_tmpfs :: "host \<Rightarrow> FlatpakExports \<Rightarrow> string \<Rightarrow> FlatpakExports" where
  "exports_path_tmpfs h exports path = snd (exports_path_expose_level h exports FAKE_MODE_TMPFS path 0)"

definition exports_path_dir :: "host \<Rightarrow> FlatpakExports \<Rightarrow> string \<Rightarrow> FlatpakExports" where
  "exports_path_dir h exports path = snd (exports_path_expose_level h exports FAKE_MODE_DIR path 0)"

text \<open>
  What one call of \<open>_exports_path_expose\<close> decides before it exports or calls itself: it
  fails, exports the canonical path, or follows a symlink \<open>p\<close> to a new target. The tests
  are those of the function, in its order.
\<close>

datatype expose_step = Step_fail | Step_export string | Step_follow string string

definition expose_step :: "host \<Rightarrow> string \<Rightarrow> int \<Rightarrow> expose_step" where
  "expose_step h path level =
     (if level > 40 then Step_fail
      else if \<not> g_path_is_absolute path then Step_fail
      else (case lstat h path of
              None \<Rightarrow> Step_fail
            | Some st \<Rightarrow>
                if \<not> (st = S_IFDIR \<or> st = S_IFREG \<or> st = S_IFLNK \<or> st = S_IFSOCK) then Step_fail
                else
                  let canonical = flatpak_canonicalize_filename h path
                  in if list_ex (\<lambda>d. flatpak_has_path_prefix h canonical d) dont_export_in
                     then Step_fail
                     else (case find (\<lambda>(p, rest). path_is_symlink h p \<and> \<not> never_export_as_symlink p)
                                  (expose_rounds canonical) of
                             None \<Rightarrow> Step_export canonical
                           | Some (p, rest) \<Rightarrow>
                               (case flatpak_resolve_link h p of
                                  None \<Rightarrow> Step_fail
                                | Some resolved \<Rightarrow>
                                    Step_follow p (case rest of
                                                     Some r \<Rightarrow> g_build_filename h resolved r
                                                   | None \<Rightarrow> resolved)))))"



text \<open>
  Modelled from the spec: \<open>flatpak_has_path_prefix\<close> is a function of flatpak-utils.c, which
  is not part of this file; the spec speaks of the paths beneath a prefix. The theorems hold
  for every such function; this one serves in the example host.
\<close>

definition path_has_prefix :: "string \<Rightarrow> string \<Rightarrow> bool" where
  "path_has_prefix str pre = (str = pre \<or> g_str_has_prefix str (pre @ ''/''))"

text \<open>
  An example host: \<open>/p\<close> is a directory, \<open>/a\<close> is a symlink to \<open>/b\<close>, which does not exist,
  and \<open>/l\<close> is a symlink to itself.
\<close>

definition example_host :: host where
  "example_host =
     \<lparr> lstat = (\<lambda>p. if p = ''/p'' then Some S_IFDIR
                   else if p = ''/a'' \<or> p = ''/l'' then Some S_IFLNK else None),
       flatpak_resolve_link = (\<lambda>p. if p = ''/a'' then Some ''/b''
                                  else if p = ''/l'' then Some ''/l'' else None),
       flatpak_canonicalize_filename = (\<lambda>p. p),
       flatpak_has_path_prefix = path_has_prefix,
       g_build_filename = (\<lambda>a b. a @ ''/'' @ b) \<rparr>"

section \<open>The launcher\<close>

subsection \<open>Arguments and environment\<close>

text \<open>
  An argument vector is a list of strings, and so is an environment (\<open>char **envp\<close>), whose
  entries read \<open>NAME=value\<close>. \<open>g_environ_unsetenv\<close> and \<open>g_environ_setenv\<close> are GLib's:
  the first drops every entry of the variable, the second, asked to overwrite, replaces the
  entry of the variable or appends one.
\<close>

definition add_args :: "string list \<Rightarrow> string list \<Rightarrow> string list" where
  "add_args argv_array args = argv_array @ args"

definition g_environ_unsetenv :: "string list \<Rightarrow> string \<Rightarrow> string list" where
  "g_environ_unsetenv envp variable = filter (\<lambda>e. \<not> g_str_has_prefix e (variable @ ''='')) envp"

fun g_environ_setenv :: "string list \<Rightarrow> string \<Rightarrow> string \<Rightarrow> string list" where
  "g_environ_setenv [] variable v = [variable @ ''='' @ v]"
| "g_environ_setenv (e # envp) variable v =
     (if g_str_has_prefix e (variable @ ''='') then (variable @ ''='' @ v) # envp
      else e # g_environ_setenv envp variable v)"

text \<open>\<open>g_strdup_printf ("%d", n)\<close> for a number that is not negative: its decimal digits.\<close>

function decimal :: "nat \<Rightarrow> string" where
  "decimal n =
     (if n < 10 then [''0123456789'' ! n]
      else decimal (n div 10) @ [''0123456789'' ! (n mod 10)])"
  by pat_completeness auto
termination
  by (relation "measure (\<lambda>n. n)") auto

definition add_args_data_fd ::
  "string list \<Rightarrow> nat list \<Rightarrow> string \<Rightarrow> nat \<Rightarrow> string option \<Rightarrow> string list \<times> nat list" where
  "add_args_data_fd argv_array fd_array opn fd path_optional =
     (add_args argv_array ([opn, decimal fd] @ (case path_optional of None \<Rightarrow> [] | Some p \<Rightarrow> [p])),
      fd_array @ [fd])"

subsection \<open>X11\<close>

definition g_ascii_isdigit :: "char \<Rightarrow> bool" where
  "g_ascii_isdigit c = (48 \<le> (of_char c :: nat) \<and> (of_char c :: nat) \<le> 57)"

text \<open>
  \<open>flatpak_run_add_x11_args\<close>. Its inputs from the process are the value of \<open>DISPLAY\<close>
  (\<open>g_getenv\<close>), the user id, and, where the code is built with \<open>ENABLE_XAUTH\<close>, the
  descriptor of the temporary Xauthority file (\<open>None\<close> without \<open>ENABLE_XAUTH\<close> or when the
  file cannot be made). The result is the argument vector, the descriptors and the
  environment.
\<close>

record x11_host =
  getenv_DISPLAY :: "string option"
  getuid :: nat
  xauth_tmp_fd :: "nat option"

definition flatpak_run_add_x11_args ::
  "x11_host \<Rightarrow> string list \<Rightarrow> nat list \<Rightarrow> string list \<Rightarrow> bool
     \<Rightarrow> string list \<times> nat list \<times> string list" where
  "flatpak_run_add_x11_args xh argv_array fd_array envp allowed =
     (let argv1 = add_args argv_array [''--tmpfs'', ''/tmp/.X11-unix'']
      in if \<not> allowed then (argv1, fd_array, g_environ_unsetenv envp ''DISPLAY'')
         else
           (case getenv_DISPLAY xh of
              Some (c0 # c1 # cs) \<Rightarrow>
                if c0 = CHR '':'' \<and> g_ascii_isdigit c1
                then
                  (let d = takeWhile g_ascii_isdigit (c1 # cs);
                       x11_socket = ''/tmp/.X11-unix/X'' @ d;
                       argv2 = add_args argv1 [''--bind'', x11_socket, ''/tmp/.X11-unix/X99''];
                       envp2 = g_environ_setenv envp ''DISPLAY'' '':99.0''
                   in case xauth_tmp_fd xh of
                        None \<Rightarrow> (argv2, fd_array, envp2)
                      | Some tmp_fd \<Rightarrow>
                          (let dest = ''/run/user/'' @ decimal (getuid xh) @ ''/Xauthority'';
                               (argv3, fds3) = add_args_data_fd argv2 fd_array ''--bind-data'' tmp_fd (Some dest)
                           in (argv3, fds3, g_environ_setenv envp2 ''XAUTHORITY'' dest)))
                else (argv1, fd_array, g_environ_unsetenv envp ''DISPLAY'')
            | _ \<Rightarrow> (argv1, fd_array, g_environ_unsetenv envp ''DISPLAY'')))"

text \<open>
  The call in \<open>flatpak_run_add_environment_args\<close>: it is not under any condition, and the x11
  bit of the context's sockets decides \<open>allowed\<close>.
\<close>

definition add_environment_args_x11 ::
  "x11_host \<Rightarrow> FlatpakContext \<Rightarrow> string list \<Rightarrow> nat list \<Rightarrow> string list
     \<Rightarrow> string list \<times> nat list \<times> string list" where
  "add_environment_args_x11 xh context argv_array fd_array envp =
     flatpak_run_add_x11_args xh argv_array fd_array envp
       (sockets context AND FLATPAK_CONTEXT_SOCKET_X11 \<noteq> 0)"

subsection \<open>Seccomp\<close>

datatype syscall =
  SYS_syslog | SYS_uselib | SYS_personality | SYS_acct | SYS_modify_ldt | SYS_quotactl
  | SYS_add_key | SYS_keyctl | SYS_request_key | SYS_move_pages | SYS_mbind | SYS_get_mempolicy
  | SYS_set_mempolicy | SYS_migrate_pages | SYS_unshare | SYS_mount | SYS_pivot_root | SYS_clone
  | SYS_ioctl | SYS_perf_event_open | SYS_ptrace | SYS_socket

datatype scmp_compare = SCMP_CMP_NE | SCMP_CMP_EQ | SCMP_CMP_GE | SCMP_CMP_MASKED_EQ

record scmp_arg_cmp =
  arg :: nat
  op :: scmp_compare
  datum_a :: int
  datum_b :: int

datatype errno = EPERM | EAFNOSUPPORT

datatype scmp_action = SCMP_ACT_ALLOW | SCMP_ACT_ERRNO errno

datatype scmp_arch = SCMP_ARCH_X86 | SCMP_ARCH_X86_64 | SCMP_ARCH_ARM | SCMP_ARCH_AARCH64

text \<open>Constants of the Linux headers.\<close>

definition TIOCSTI :: int where
  "TIOCSTI = 21522"

definition CLONE_NEWUSER :: int where
  "CLONE_NEWUSER = 268435456"

definition EFAULT :: int where
  "EFAULT = 14"

definition EEXIST :: int where
  "EEXIST = 17"


definition AF_NETLINK :: int where
  "AF_NETLINK = 16"

text \<open>
  A rule as it is handed to \<open>seccomp_rule_add\<close> or \<open>seccomp_rule_add_exact\<close>; \<open>rule_exact\<close>
  tells which of the two. libseccomp is not part of this repository: what its functions return
  is a parameter of the model, and so is the number that the macro \<open>SCMP_SYS\<close> gives a
  syscall. The filter context is the state that libseccomp keeps: the default action, and the
  architectures and rules that are in the filter, in the order in which they came. By the
  contract of the library a call that returns a negative value has failed and leaves the
  filter as it was, and any other call has added its architecture or its rule.
\<close>

record seccomp_rule =
  rule_action :: scmp_action
  rule_syscall :: syscall
  rule_args :: "scmp_arg_cmp list"
  rule_exact :: bool

record scmp_filter_ctx =
  default_action :: scmp_action
  arches :: "scmp_arch list"
  rules :: "seccomp_rule list"

record libseccomp =
  seccomp_init_ok :: bool
  SCMP_SYS :: "syscall \<Rightarrow> int"
  seccomp_arch_add :: "scmp_filter_ctx \<Rightarrow> scmp_arch \<Rightarrow> int"
  seccomp_rule_add :: "scmp_filter_ctx \<Rightarrow> seccomp_rule \<Rightarrow> int"
  seccomp_rule_add_exact :: "scmp_filter_ctx \<Rightarrow> seccomp_rule \<Rightarrow> int"
  open_anonymous_tmpfile :: "nat option"
  seccomp_export_bpf :: "scmp_filter_ctx \<Rightarrow> int"

definition SCMP_A0 :: "scmp_compare \<Rightarrow> int \<Rightarrow> int \<Rightarrow> scmp_arg_cmp" where
  "SCMP_A0 c a b = \<lparr> arg = 0, op = c, datum_a = a, datum_b = b \<rparr>"

definition SCMP_A1 :: "scmp_compare \<Rightarrow> int \<Rightarrow> int \<Rightarrow> scmp_arg_cmp" where
  "SCMP_A1 c a b = \<lparr> arg = 1, op = c, datum_a = a, datum_b = b \<rparr>"

definition syscall_blacklist :: "int \<Rightarrow> (syscall \<times> scmp_arg_cmp option) list" where
  "syscall_blacklist allowed_personality =
     [(SYS_syslog, None),
      (SYS_uselib, None),
      (SYS_personality, Some (SCMP_A0 SCMP_CMP_NE allowed_personality 0)),
      (SYS_acct, None),
      (SYS_modify_ldt, None),
      (SYS_quotactl, None),
      (SYS_add_key, None),
      (SYS_keyctl, None),
      (SYS_request_key, None),
      (SYS_move_pages, None),
      (SYS_mbind, None),
      (SYS_get_mempolicy, None),
      (SYS_set_mempolicy, None),
      (SYS_migrate_pages, None),
      (SYS_unshare, None),
      (SYS_mount, None),
      (SYS_pivot_root, None),
      (SYS_clone, Some (SCMP_A0 SCMP_CMP_MASKED_EQ CLONE_NEWUSER CLONE_NEWUSER)),
      (SYS_ioctl, Some (SCMP_A1 SCMP_CMP_EQ TIOCSTI 0))]"

definition syscall_nondevel_blacklist :: "(syscall \<times> scmp_arg_cmp option) list" where
  "syscall_nondevel_blacklist = [(SYS_perf_event_open, None), (SYS_ptrace, None)]"

text \<open>The address families, by their numbers in the Linux headers; the last is \<open>AF_NETLINK + 1\<close>.\<close>

definition socket_family_blacklist :: "int list" where
  "socket_family_blacklist = [3, 4, 5, 6, 7, 8, 9, 11, 12, 13, 14, 15, AF_NETLINK + 1]"

definition seccomp_x86_64_extra_arches :: "scmp_arch list" where
  "seccomp_x86_64_extra_arches = [SCMP_ARCH_X86]"

definition seccomp_aarch64_extra_arches :: "scmp_arch list" where
  "seccomp_aarch64_extra_arches = [SCMP_ARCH_ARM]"

definition eperm_rule :: "syscall \<times> scmp_arg_cmp option \<Rightarrow> seccomp_rule" where
  "eperm_rule entry =
     \<lparr> rule_action = SCMP_ACT_ERRNO EPERM, rule_syscall = fst entry,
       rule_args = (case snd entry of None \<Rightarrow> [] | Some a \<Rightarrow> [a]), rule_exact = False \<rparr>"

text \<open>
  The loop over a block list: \<open>seccomp_rule_add\<close> is called for each entry, and the return
  value \<open>-EFAULT\<close> (unknown syscall) ends the setup with the error of that syscall. After any
  other return value the loop goes on; the rule is in the filter when the call did not fail.
\<close>

fun block_syscalls_loop ::
  "libseccomp \<Rightarrow> scmp_filter_ctx \<Rightarrow> (syscall \<times> scmp_arg_cmp option) list \<Rightarrow> syscall + scmp_filter_ctx" where
  "block_syscalls_loop lib seccomp [] = Inr seccomp"
| "block_syscalls_loop lib seccomp (entry # rest) =
     (let r = seccomp_rule_add lib seccomp (eperm_rule entry);
          seccomp' = (if r < 0 then seccomp
                      else seccomp\<lparr> rules := rules seccomp @ [eperm_rule entry] \<rparr>)
      in if r < 0 \<and> r = - EFAULT then Inl (fst entry)
         else block_syscalls_loop lib seccomp' rest)"

text \<open>
  The calls of \<open>seccomp_arch_add\<close>: a negative return value other than \<open>-EEXIST\<close> is an error.
\<close>

fun add_arches_loop :: "libseccomp \<Rightarrow> scmp_filter_ctx \<Rightarrow> scmp_arch list \<Rightarrow> scmp_filter_ctx option" where
  "add_arches_loop lib seccomp [] = Some seccomp"
| "add_arches_loop lib seccomp (a # rest) =
     (let r = seccomp_arch_add lib seccomp a;
          seccomp' = (if r < 0 then seccomp else seccomp\<lparr> arches := arches seccomp @ [a] \<rparr>)
      in if r < 0 \<and> r \<noteq> - EEXIST then None
         else add_arches_loop lib seccomp' rest)"

text \<open>
  The loop over the socket families calls \<open>seccomp_rule_add_exact\<close> and ignores what it
  returns; the last family gets the comparison \<open>SCMP_CMP_GE\<close>.
\<close>

fun socket_family_loop :: "libseccomp \<Rightarrow> scmp_filter_ctx \<Rightarrow> int list \<Rightarrow> scmp_filter_ctx" where
  "socket_family_loop lib seccomp [] = seccomp"
| "socket_family_loop lib seccomp (family # rest) =
     (let rule = \<lparr> rule_action = SCMP_ACT_ERRNO EAFNOSUPPORT, rule_syscall = SYS_socket,
                    rule_args = [SCMP_A0 (if rest = [] then SCMP_CMP_GE else SCMP_CMP_EQ) family 0],
                    rule_exact = True \<rparr>;
          r = seccomp_rule_add_exact lib seccomp rule
      in socket_family_loop lib
           (if r < 0 then seccomp else seccomp\<lparr> rules := rules seccomp @ [rule] \<rparr>)
           rest)"

text \<open>\<open>g_strdup_printf ("%d", n)\<close> for any number: a minus sign before the digits of a negative one.\<close>

definition decimal_int :: "int \<Rightarrow> string" where
  "decimal_int n = (if n < 0 then ''-'' @ decimal (nat (- n)) else decimal (nat n))"

text \<open>
  The parts of \<open>setup_seccomp\<close>, in their order. The first adds the architecture of \<open>arch\<close>
  and, with \<open>multiarch\<close>, its extra architectures; an unknown \<open>arch\<close> leaves \<open>arch_id\<close> 0 and
  adds nothing.
\<close>

definition setup_seccomp_arches ::
  "libseccomp \<Rightarrow> scmp_filter_ctx \<Rightarrow> string option \<Rightarrow> bool \<Rightarrow> string + scmp_filter_ctx" where
  "setup_seccomp_arches lib seccomp arch multiarch =
     (let arch_id = (case arch of
                       None \<Rightarrow> None
                     | Some a \<Rightarrow>
                         if a = ''i386'' then Some (SCMP_ARCH_X86, [])
                         else if a = ''x86_64'' then Some (SCMP_ARCH_X86_64, seccomp_x86_64_extra_arches)
                         else if a = ''arm'' then Some (SCMP_ARCH_ARM, [])
                         else if a = ''aarch64'' then Some (SCMP_ARCH_AARCH64, seccomp_aarch64_extra_arches)
                         else None)
      in case arch_id of
           None \<Rightarrow> Inr seccomp
         | Some (arch_id', extra_arches) \<Rightarrow>
             (case add_arches_loop lib seccomp [arch_id'] of
                None \<Rightarrow> Inl ''Failed to add architecture to seccomp filter''
              | Some seccomp1 \<Rightarrow>
                  if multiarch
                  then (case add_arches_loop lib seccomp1 extra_arches of
                          None \<Rightarrow> Inl ''Failed to add multiarch architecture to seccomp filter''
                        | Some seccomp2 \<Rightarrow> Inr seccomp2)
                  else Inr seccomp1))"

text \<open>
  The second part runs the loop over \<open>syscall_blacklist\<close> and, \<open>if (!devel)\<close>, the loop over
  \<open>syscall_nondevel_blacklist\<close>; its error is the syscall that libseccomp does not know.
\<close>

definition setup_seccomp_syscalls ::
  "libseccomp \<Rightarrow> scmp_filter_ctx \<Rightarrow> int \<Rightarrow> bool \<Rightarrow> syscall + scmp_filter_ctx" where
  "setup_seccomp_syscalls lib seccomp allowed_personality devel =
     (case block_syscalls_loop lib seccomp (syscall_blacklist allowed_personality) of
        Inl scall \<Rightarrow> Inl scall
      | Inr seccomp' \<Rightarrow>
          if \<not> devel then block_syscalls_loop lib seccomp' syscall_nondevel_blacklist
          else Inr seccomp')"

text \<open>
  \<open>setup_seccomp\<close>: the error message, or the filter with the argument vector and the
  descriptors after \<open>--seccomp FD\<close> was added. The message of
  \<open>glnx_open_anonymous_tmpfile\<close> is the name of that function here.
\<close>

definition setup_seccomp ::
  "libseccomp \<Rightarrow> string list \<Rightarrow> nat list \<Rightarrow> string option \<Rightarrow> int \<Rightarrow> bool \<Rightarrow> bool
     \<Rightarrow> string + (scmp_filter_ctx \<times> string list \<times> nat list)" where
  "setup_seccomp lib argv_array fd_array arch allowed_personality multiarch devel =
     (if \<not> seccomp_init_ok lib then Inl ''Initialize seccomp failed''
      else
        case setup_seccomp_arches lib \<lparr> default_action = SCMP_ACT_ALLOW, arches = [], rules = [] \<rparr>
               arch multiarch of
          Inl e \<Rightarrow> Inl e
        | Inr seccomp2 \<Rightarrow>
            (case setup_seccomp_syscalls lib seccomp2 allowed_personality devel of
               Inl scall \<Rightarrow> Inl (''Failed to block syscall '' @ decimal_int (SCMP_SYS lib scall))
             | Inr seccomp4 \<Rightarrow>
                 (let seccomp5 = socket_family_loop lib seccomp4 socket_family_blacklist
                  in case open_anonymous_tmpfile lib of
                       None \<Rightarrow> Inl ''open_anonymous_tmpfile''
                     | Some fd \<Rightarrow>
                         if seccomp_export_bpf lib seccomp5 \<noteq> 0 then Inl ''Failed to export bpf''
                         else
                           (let (argv', fds') = add_args_data_fd argv_array fd_array ''--seccomp'' fd None
                            in Inr (seccomp5, argv', fds')))))"

subsection \<open>The rest of the command line\<close>

text \<open>
  What \<open>add_rest_args\<close> uses of the world around it: whether the proxy of the document
  portal could be made, \<open>flatpak_exports_path_is_visible\<close> on the exports at hand, the path of
  the \<open>GFile\<close> of a URI or of a path, its base name, \<open>g_build_filename\<close> on three parts,
  \<open>g_filename_to_uri\<close>, and the outcome of \<open>forward_file\<close>: the error or the document id.
\<close>

record doc_portal =
  documents_proxy_new :: bool
  path_is_visible :: "string \<Rightarrow> bool"
  file_new_for_uri :: "string \<Rightarrow> string"
  file_new_for_path :: "string \<Rightarrow> string"
  file_get_basename :: "string \<Rightarrow> string"
  build_filename3 :: "string \<Rightarrow> string \<Rightarrow> string \<Rightarrow> string"
  g_filename_to_uri :: "string \<Rightarrow> string option"
  forward_file :: "string \<Rightarrow> string + string"

datatype rest_error = Error string | Assertion_failed

text \<open>
  The loop over \<open>args\<close>, with the locals \<open>forwarding\<close> and \<open>forwarding_uri\<close>. A file is only
  made while forwarding with \<open>can_forward\<close>, which needs the mount path, so the bare
  \<open>doc_mount_path\<close> is not read when it is \<open>NULL\<close>.
\<close>

fun add_rest_args_loop ::
  "doc_portal \<Rightarrow> bool \<Rightarrow> bool \<Rightarrow> string option \<Rightarrow> bool \<Rightarrow> bool \<Rightarrow> string list \<Rightarrow> string list
     \<Rightarrow> rest_error + string list" where
  "add_rest_args_loop dp file_forwarding can_forward doc_mount_path forwarding forwarding_uri argv_array [] =
     Inr argv_array"
| "add_rest_args_loop dp file_forwarding can_forward doc_mount_path forwarding forwarding_uri argv_array
     (a # args) =
     (if file_forwarding \<and> (a = ''@@'' \<or> a = ''@@u'')
      then add_rest_args_loop dp file_forwarding can_forward doc_mount_path
             (\<not> forwarding) (a = ''@@u'') argv_array args
      else
        let file = (if can_forward \<and> forwarding
                    then (if forwarding_uri
                          then (if g_str_has_prefix a ''file:'' then Some (file_new_for_uri dp a)
                                else if g_str_has_prefix a ''/'' then Some (file_new_for_path dp a)
                                else None)
                          else Some (file_new_for_path dp a))
                    else None)
        in case file of
             None \<Rightarrow>
               add_rest_args_loop dp file_forwarding can_forward doc_mount_path forwarding forwarding_uri
                 (argv_array @ [a]) args
           | Some f \<Rightarrow>
               if path_is_visible dp f
               then add_rest_args_loop dp file_forwarding can_forward doc_mount_path forwarding forwarding_uri
                      (argv_array @ [a]) args
               else
                 (case forward_file dp f of
                    Inl e \<Rightarrow> Inl (Error e)
                  | Inr doc_id \<Rightarrow>
                      let doc_path = build_filename3 dp (case doc_mount_path of None \<Rightarrow> [] | Some m \<Rightarrow> m)
                                       doc_id (file_get_basename dp f)
                      in if forwarding_uri
                         then (case g_filename_to_uri dp doc_path of
                                 None \<Rightarrow> Inl Assertion_failed
                               | Some uri \<Rightarrow>
                                   add_rest_args_loop dp file_forwarding can_forward doc_mount_path
                                     forwarding forwarding_uri (argv_array @ [uri]) args)
                         else add_rest_args_loop dp file_forwarding can_forward doc_mount_path
                                forwarding forwarding_uri (argv_array @ [doc_path]) args))"

definition add_rest_args ::
  "doc_portal \<Rightarrow> bool \<Rightarrow> string option \<Rightarrow> string list \<Rightarrow> string list \<Rightarrow> rest_error + string list" where
  "add_rest_args dp file_forwarding doc_mount_path argv_array args =
     (let can_forward =
            (if file_forwarding \<and> doc_mount_path = None then False
             else if file_forwarding then (if \<not> documents_proxy_new dp then False else True)
             else True)
      in add_rest_args_loop dp file_forwarding can_forward doc_mount_path False False argv_array args)"

section \<open>Notions used in the statements\<close>

text \<open>The values stored under a key of the generic policy, none when the key is absent.\<close>

definition generic_policy_values :: "FlatpakContext \<Rightarrow> string \<Rightarrow> string list" where
  "generic_policy_values context key =
     (case DAList.lookup (generic_policy context) key of None \<Rightarrow> [] | Some l \<Rightarrow> l)"

text \<open>
  A path that \<open>_exports_path_expose\<close> exports under its own name: absolute, a directory, a
  regular file or a socket, canonical, outside the directories of \<open>dont_export_in\<close>, and
  with no symlink among its leading parts.
\<close>

definition direct_path :: "host \<Rightarrow> string \<Rightarrow> bool" where
  "direct_path h path =
     (g_path_is_absolute path
      \<and> (lstat h path = Some S_IFDIR \<or> lstat h path = Some S_IFREG \<or> lstat h path = Some S_IFSOCK)
      \<and> flatpak_canonicalize_filename h path = path
      \<and> \<not> list_ex (\<lambda>d. flatpak_has_path_prefix h path d) dont_export_in
      \<and> \<not> list_ex (\<lambda>(p, rest). path_is_symlink h p \<and> \<not> never_export_as_symlink p) (expose_rounds path))"







text \<open>
  Example surroundings for the launcher: a display \<open>:0\<close> with an Xauthority descriptor, a
  libseccomp whose calls all succeed, a libseccomp that is out of memory whenever a rule is
  to be added (\<open>-ENOMEM\<close>) and works otherwise, and a document portal whose proxy cannot be
  made. \<open>example_SCMP_SYS\<close> gives \<open>ioctl\<close>, \<open>ptrace\<close>, \<open>syslog\<close> and \<open>perf_event_open\<close>
  their numbers on x86_64 and every other syscall the number 0.
\<close>

definition example_x11_host :: x11_host where
  "example_x11_host = \<lparr> getenv_DISPLAY = Some '':0'', getuid = 1000, xauth_tmp_fd = Some 7 \<rparr>"

definition example_SCMP_SYS :: "syscall \<Rightarrow> int" where
  "example_SCMP_SYS s =
     (if s = SYS_ioctl then 16 else if s = SYS_ptrace then 101 else if s = SYS_syslog then 103
      else if s = SYS_perf_event_open then 298 else 0)"

definition example_libseccomp :: libseccomp where
  "example_libseccomp =
     \<lparr> seccomp_init_ok = True, SCMP_SYS = example_SCMP_SYS,
       seccomp_arch_add = (\<lambda>ctx a. 0), seccomp_rule_add = (\<lambda>ctx r. 0),
       seccomp_rule_add_exact = (\<lambda>ctx r. 0),
       open_anonymous_tmpfile = Some 5, seccomp_export_bpf = (\<lambda>ctx. 0) \<rparr>"


definition example_doc_portal :: doc_portal where
  "example_doc_portal =
     \<lparr> documents_proxy_new = False, path_is_visible = (\<lambda>p. False),
       file_new_for_uri = (\<lambda>u. drop 7 u), file_new_for_path = (\<lambda>p. p),
       file_get_basename = (\<lambda>p. p), build_filename3 = (\<lambda>a b c. a @ ''/'' @ b @ ''/'' @ c),
       g_filename_to_uri = (\<lambda>p. Some (''file://'' @ p)), forward_file = (\<lambda>f. Inl ''no portal'') \<rparr>"

text \<open>
  \<open>bits_within bits valid\<close>: no bit of \<open>bits\<close> is outside \<open>valid\<close>. The invariant of a
  context asks this of each of its four bit sets.
\<close>

definition bits_within :: "guint32 \<Rightarrow> guint32 \<Rightarrow> bool" where
  "bits_within bits valid = (bits AND NOT valid = 0)"

definition bitsets_within_valid :: "FlatpakContext \<Rightarrow> bool" where
  "bitsets_within_valid context =
     (bits_within (shares context) (shares_valid context)
      \<and> bits_within (sockets context) (sockets_valid context)
      \<and> bits_within (devices context) (devices_valid context)
      \<and> bits_within (features context) (features_valid context))"

text \<open>
  The contexts that sequences of the operations produce: a new context, the adding and
  removing of bits, the setters that other files call, the loading of a key file (whatever
  it returns, the context it leaves is a context of the program), an option of the command
  line, and the merge with another such context.
\<close>

inductive produced :: "gdbus \<Rightarrow> FlatpakContext \<Rightarrow> bool" for gio :: gdbus where
  produced_new: "produced gio flatpak_context_new"
| produced_add_shares: "produced gio c \<Longrightarrow> produced gio (flatpak_context_add_shares c s)"
| produced_remove_shares: "produced gio c \<Longrightarrow> produced gio (flatpak_context_remove_shares c s)"
| produced_add_sockets: "produced gio c \<Longrightarrow> produced gio (flatpak_context_add_sockets c s)"
| produced_remove_sockets: "produced gio c \<Longrightarrow> produced gio (flatpak_context_remove_sockets c s)"
| produced_add_devices: "produced gio c \<Longrightarrow> produced gio (flatpak_context_add_devices c s)"
| produced_remove_devices: "produced gio c \<Longrightarrow> produced gio (flatpak_context_remove_devices c s)"
| produced_add_features: "produced gio c \<Longrightarrow> produced gio (flatpak_context_add_features c s)"
| produced_remove_features: "produced gio c \<Longrightarrow> produced gio (flatpak_context_remove_features c s)"
| produced_set_session_bus_policy:
    "produced gio c \<Longrightarrow> produced gio (flatpak_context_set_session_bus_policy c name policy)"
| produced_set_system_bus_policy:
    "produced gio c \<Longrightarrow> produced gio (flatpak_context_set_system_bus_policy c name policy)"
| produced_allow_host_fs: "produced gio c \<Longrightarrow> produced gio (flatpak_context_allow_host_fs c)"
| produced_load_metadata:
    "produced gio c \<Longrightarrow> flatpak_context_load_metadata gio c metakey = Some (ok, c')
       \<Longrightarrow> produced gio c'"
| produced_option:
    "produced gio c \<Longrightarrow> (name, callback) \<in> set (context_options gio)
       \<Longrightarrow> callback c v = Some (ok, c') \<Longrightarrow> produced gio c'"
| produced_merge:
    "produced gio c \<Longrightarrow> produced gio other \<Longrightarrow> flatpak_context_merge c other = Some c'
       \<Longrightarrow> produced gio c'"

text \<open>Two contexts with the same eight bit masks.\<close>

definition same_bitsets :: "FlatpakContext \<Rightarrow> FlatpakContext \<Rightarrow> bool" where
  "same_bitsets c c' =
     (shares c' = shares c \<and> shares_valid c' = shares_valid c
      \<and> sockets c' = sockets c \<and> sockets_valid c' = sockets_valid c
      \<and> devices c' = devices c \<and> devices_valid c' = devices_valid c
      \<and> features c' = features c \<and> features_valid c' = features_valid c)"

text \<open>An example of GIO's tests of bus names, for the examples below.\<close>

definition example_gdbus :: gdbus where
  "example_gdbus = \<lparr> g_dbus_is_name = (\<lambda>s. CHR ''.'' \<in> set s), g_dbus_is_unique_name = (\<lambda>s. g_str_has_prefix s '':'') \<rparr>"

text \<open>
  Notions for the merge. \<open>policy_step\<close> is what one application of a value does to the
  list of a key, and \<open>merge_values\<close> applies the values of a list in their order.
  \<open>comb_values\<close> is the entry of a key after a merge, from its entries in the two
  contexts. A merge aborts when the other context has a key without a dot that has values.
  Two tables are the same when they have the same entries, in any order, and two contexts
  are equal when their bit masks are equal and their tables are the same.
\<close>

definition policy_step :: "string \<Rightarrow> string list \<Rightarrow> string list" where
  "policy_step v l = filter (\<lambda>old. skip_bang old \<noteq> skip_bang v) l @ [v]"

definition merge_values :: "string list \<Rightarrow> string list \<Rightarrow> string list" where
  "merge_values old vs = foldl (\<lambda>acc v. policy_step v acc) old vs"

definition comb_values :: "string list option \<Rightarrow> string list option \<Rightarrow> string list option" where
  "comb_values x y =
     (case y of
        None \<Rightarrow> x
      | Some vs \<Rightarrow> if vs = [] then x else Some (merge_values (case x of None \<Rightarrow> [] | Some l \<Rightarrow> l) vs))"

definition same_table :: "('k, 'v) alist \<Rightarrow> ('k, 'v) alist \<Rightarrow> bool" where
  "same_table s t = (set (DAList.impl_of s) = set (DAList.impl_of t))"

definition context_equal :: "FlatpakContext \<Rightarrow> FlatpakContext \<Rightarrow> bool" where
  "context_equal c d =
     (shares c = shares d \<and> shares_valid c = shares_valid d
      \<and> sockets c = sockets d \<and> sockets_valid c = sockets_valid d
      \<and> devices c = devices d \<and> devices_valid c = devices_valid d
      \<and> features c = features d \<and> features_valid c = features_valid d
      \<and> same_table (env_vars c) (env_vars d)
      \<and> same_table (persistent c) (persistent d)
      \<and> same_table (filesystems c) (filesystems d)
      \<and> same_table (session_bus_policy c) (session_bus_policy d)
      \<and> same_table (system_bus_policy c) (system_bus_policy d)
      \<and> same_table (generic_policy c) (generic_policy d))"

definition merge_aborts :: "FlatpakContext \<Rightarrow> bool" where
  "merge_aborts other =
     list_ex (\<lambda>(key, policy_values). policy_values \<noteq> [] \<and> CHR ''.'' \<notin> set key)
       (DAList.impl_of (generic_policy other))"

definition comb_table ::
  "(string \<Rightarrow> string list option) \<Rightarrow> (string \<Rightarrow> string list option) \<Rightarrow> string \<Rightarrow> string list option" where
  "comb_table m n k = comb_values (m k) (n k)"

definition aborting_entry :: "string \<times> string list \<Rightarrow> bool" where
  "aborting_entry e = (snd e \<noteq> [] \<and> CHR ''.'' \<notin> set (fst e))"

definition merged_bits :: "guint32 \<Rightarrow> guint32 \<Rightarrow> guint32 \<Rightarrow> guint32" where
  "merged_bits b ov ob = (b AND NOT ov) OR ob"

definition merge_left :: "FlatpakContext \<Rightarrow> FlatpakContext \<Rightarrow> FlatpakContext \<Rightarrow> FlatpakContext option" where
  "merge_left a b c =
     (case flatpak_context_merge a b of None \<Rightarrow> None | Some ab \<Rightarrow> flatpak_context_merge ab c)"

definition merge_right :: "FlatpakContext \<Rightarrow> FlatpakContext \<Rightarrow> FlatpakContext \<Rightarrow> FlatpakContext option" where
  "merge_right a b c =
     (case flatpak_context_merge b c of None \<Rightarrow> None | Some bc \<Rightarrow> flatpak_context_merge a bc)"

definition example_context_a :: FlatpakContext where
  "example_context_a =
     flatpak_context_new\<lparr> shares := 1, shares_valid := 3,
       env_vars := DAList.update ''A'' (Some ''1'') DAList.empty,
       generic_policy := DAList.update ''s.k'' [''x'', ''y''] DAList.empty \<rparr>"

definition example_context_b :: FlatpakContext where
  "example_context_b =
     flatpak_context_new\<lparr> shares := 2, shares_valid := 2,
       env_vars := DAList.update ''A'' (Some ''2'') DAList.empty,
       generic_policy := DAList.update ''s.k'' [''!x''] DAList.empty \<rparr>"

definition example_context_c :: FlatpakContext where
  "example_context_c =
     flatpak_context_new\<lparr> shares_valid := 1,
       generic_policy := DAList.update ''s.k'' [''z''] DAList.empty \<rparr>"

text \<open>
  Notions for the round trip through a key file. \<open>metadata_round_trip\<close> saves a context
  into a new key file with \<open>flatpak_context_save_metadata\<close> and loads the file into a new
  context with \<open>flatpak_context_load_metadata\<close>; the result is \<open>None\<close> when the saving
  aborts.
\<close>

definition metadata_round_trip :: "gdbus \<Rightarrow> bool \<Rightarrow> FlatpakContext \<Rightarrow> (bool \<times> FlatpakContext) option" where
  "metadata_round_trip gio flatten c =
     (case flatpak_context_save_metadata c flatten g_key_file_new of
        None \<Rightarrow> None
      | Some metakey \<Rightarrow> flatpak_context_load_metadata gio flatpak_context_new metakey)"

text \<open>
  The bits that have a name in a table are the lowest ones, one for each name, and
  \<open>flatpak_context_bitmask_from_string\<close> gives no other bit. \<open>valid_within_names\<close> holds
  for a context whose valid masks lie within the named bits.
\<close>

definition named_bits :: "string list \<Rightarrow> guint32" where
  "named_bits names = mask (length names)"

definition valid_within_names :: "FlatpakContext \<Rightarrow> bool" where
  "valid_within_names c =
     (bits_within (shares_valid c) (named_bits flatpak_context_shares)
      \<and> bits_within (sockets_valid c) (named_bits flatpak_context_sockets)
      \<and> bits_within (devices_valid c) (named_bits flatpak_context_devices)
      \<and> bits_within (features_valid c) (named_bits flatpak_context_features))"

text \<open>
  The filesystem entries that \<open>flatpak_context_save_metadata\<close> writes are those whose value
  is not \<open>NULL\<close>. \<open>filesystem_key\<close> holds for a key that
  \<open>flatpak_context_verify_filesystem\<close> accepts and that carries no mode suffix of its own:
  \<open>parse_filesystem_flags\<close> leaves it as it is. This is what
  \<open>flatpak_context_add_filesystem\<close> stores for a verified expression with one suffix at most.
\<close>

definition filesystem_key :: "string \<Rightarrow> bool" where
  "filesystem_key k =
     (flatpak_context_verify_filesystem k
      \<and> parse_filesystem_flags k = (k, FLATPAK_FILESYSTEM_MODE_READ_WRITE))"

definition written_filesystems ::
  "(string \<times> FlatpakFilesystemMode option) list \<Rightarrow> (string \<times> FlatpakFilesystemMode option) list" where
  "written_filesystems l = filter (\<lambda>(key, v). v \<noteq> None) l"

text \<open>
  The bus policies that are written are those above \<open>FLATPAK_POLICY_NONE\<close>, and the
  members that \<open>flatpak_policy_to_string\<close> has a name for are see, talk and own. The
  environment variables that are written are those with a value.
\<close>

definition saved_policy :: "FlatpakPolicy \<Rightarrow> bool" where
  "saved_policy p = (p = FLATPAK_POLICY_SEE \<or> p = FLATPAK_POLICY_TALK \<or> p = FLATPAK_POLICY_OWN)"

definition written_policies :: "(string \<times> FlatpakPolicy) list \<Rightarrow> (string \<times> FlatpakPolicy) list" where
  "written_policies l = filter (\<lambda>(key, policy). policy \<noteq> FLATPAK_POLICY_NONE) l"

definition written_env :: "(string \<times> string option) list \<Rightarrow> (string \<times> string option) list" where
  "written_env l = filter (\<lambda>(key, v). v \<noteq> None) l"

text \<open>
  The values of a generic policy key that are written: all of them, or with \<open>flatten\<close> those
  that do not start with an exclamation mark; a key is written when it has such a value.
\<close>

definition policy_values_written :: "bool \<Rightarrow> string list \<Rightarrow> string list" where
  "policy_values_written flatten policy_values =
     filter (\<lambda>policy_value. \<not> flatten \<or> \<not> g_str_has_prefix policy_value ''!'') policy_values"

definition written_generic_policy :: "(string \<times> string list) list \<Rightarrow> (string \<times> string list) list" where
  "written_generic_policy l =
     map (\<lambda>e. (fst e, policy_values_written True (snd e)))
       (filter (\<lambda>e. policy_values_written True (snd e) \<noteq> []) l)"

text \<open>
  \<open>metadata_context\<close> is the condition on a context under which the round trip is
  stated: the bits lie within the valid masks and these within the named bits, the written
  filesystem keys are locations without a suffix, the written bus names are names that
  \<open>flatpak_verify_dbus_name\<close> accepts with a policy that has a name, and every generic policy
  key has a dot and values that differ once one leading exclamation mark is skipped.
  \<open>nothing_denied\<close> holds when no entry is one that the saving leaves out: all feature
  bits of the valid mask are set, no environment variable and no filesystem has the value
  \<open>NULL\<close>, no bus name has the policy none and no generic policy key is without values.
\<close>

definition metadata_context :: "gdbus \<Rightarrow> FlatpakContext \<Rightarrow> bool" where
  "metadata_context gio c =
     (bitsets_within_valid c \<and> valid_within_names c
      \<and> list_all (\<lambda>(key, v). filesystem_key key) (written_filesystems (DAList.impl_of (filesystems c)))
      \<and> list_all (\<lambda>(name, policy). flatpak_verify_dbus_name gio name \<and> saved_policy policy)
           (written_policies (DAList.impl_of (session_bus_policy c)))
      \<and> list_all (\<lambda>(name, policy). flatpak_verify_dbus_name gio name \<and> saved_policy policy)
           (written_policies (DAList.impl_of (system_bus_policy c)))
      \<and> list_all (\<lambda>(key, vs). CHR ''.'' \<in> set key \<and> distinct (map skip_bang vs))
           (DAList.impl_of (generic_policy c)))"

definition nothing_denied :: "FlatpakContext \<Rightarrow> bool" where
  "nothing_denied c =
     (features_valid c = features c
      \<and> list_all (\<lambda>(name, v). v \<noteq> None) (DAList.impl_of (env_vars c))
      \<and> list_all (\<lambda>(key, v). v \<noteq> None) (DAList.impl_of (filesystems c))
      \<and> list_all (\<lambda>(name, policy). policy \<noteq> FLATPAK_POLICY_NONE) (DAList.impl_of (session_bus_policy c))
      \<and> list_all (\<lambda>(name, policy). policy \<noteq> FLATPAK_POLICY_NONE) (DAList.impl_of (system_bus_policy c))
      \<and> list_all (\<lambda>(key, vs). vs \<noteq> []) (DAList.impl_of (generic_policy c)))"

text \<open>
  \<open>enabled_part\<close> restricts a context to what is enabled: the valid masks shrink to the set
  bits, and the entries without a value, the bus names with the policy none, the generic
  policy values that start with an exclamation mark and the keys left without values go.
\<close>

definition enabled_part :: "FlatpakContext \<Rightarrow> FlatpakContext" where
  "enabled_part c =
     c\<lparr> shares := shares c AND shares_valid c,
        shares_valid := shares c AND shares_valid c,
        sockets := sockets c AND sockets_valid c,
        sockets_valid := sockets c AND sockets_valid c,
        devices := devices c AND devices_valid c,
        devices_valid := devices c AND devices_valid c,
        features := features c AND features_valid c,
        features_valid := features c AND features_valid c,
        env_vars := hash_table_insert_each (written_env (DAList.impl_of (env_vars c))) DAList.empty,
        filesystems := hash_table_insert_each
          (written_filesystems (DAList.impl_of (filesystems c))) DAList.empty,
        session_bus_policy := hash_table_insert_each
          (written_policies (DAList.impl_of (session_bus_policy c))) DAList.empty,
        system_bus_policy := hash_table_insert_each
          (written_policies (DAList.impl_of (system_bus_policy c))) DAList.empty,
        generic_policy := hash_table_insert_each
          (written_generic_policy (DAList.impl_of (generic_policy c))) DAList.empty \<rparr>"

text \<open>
  A string is negated when it starts with an exclamation mark. \<open>no_negated_entries\<close> holds
  for a key file when no entry of a string list in it is negated, and \<open>plain_persistent\<close>
  for a context when no persistent path is.
\<close>

definition is_negated :: "string \<Rightarrow> bool" where
  "is_negated s = g_str_has_prefix s ''!''"

definition no_negated_entries :: "GKeyFile \<Rightarrow> bool" where
  "no_negated_entries kf =
     list_all (\<lambda>e. case snd e of KF_string_list l \<Rightarrow> list_all (\<lambda>s. \<not> is_negated s) l | KF_string s \<Rightarrow> True)
       (kf_entries kf)"

definition plain_persistent :: "FlatpakContext \<Rightarrow> bool" where
  "plain_persistent c = list_all (\<lambda>(path, u). \<not> is_negated path) (DAList.impl_of (persistent c))"

text \<open>
  Two more example contexts: one with nothing denied, and one with a denied share, a denied
  filesystem, an unset environment variable, a bus name with the policy none and negated
  generic policy values.
\<close>

definition example_context_d :: FlatpakContext where
  "example_context_d =
     flatpak_context_new\<lparr> shares := 1, shares_valid := 3, sockets := 2, sockets_valid := 2,
       env_vars := DAList.update ''A'' (Some ''1'') DAList.empty,
       persistent := DAList.update ''.cfg'' () DAList.empty,
       filesystems := DAList.update ''home'' (Some FLATPAK_FILESYSTEM_MODE_READ_WRITE)
         (DAList.update ''/x'' (Some FLATPAK_FILESYSTEM_MODE_READ_ONLY) DAList.empty),
       session_bus_policy := DAList.update ''org.a'' FLATPAK_POLICY_TALK DAList.empty,
       generic_policy := DAList.update ''s.k'' [''x'', ''!y''] DAList.empty \<rparr>"

definition example_context_e :: FlatpakContext where
  "example_context_e =
     flatpak_context_new\<lparr> shares := 1, shares_valid := 3,
       env_vars := DAList.update ''A'' (Some ''1'') (DAList.update ''B'' None DAList.empty),
       persistent := DAList.update ''.cfg'' () DAList.empty,
       filesystems := DAList.update ''/x'' (Some FLATPAK_FILESYSTEM_MODE_READ_ONLY)
         (DAList.update ''/y'' None DAList.empty),
       session_bus_policy := DAList.update ''org.a'' FLATPAK_POLICY_TALK
         (DAList.update ''org.b'' FLATPAK_POLICY_NONE DAList.empty),
       generic_policy := DAList.update ''s.k'' [''x'', ''!y''] (DAList.update ''s.n'' [''!z''] DAList.empty) \<rparr>"

text \<open>
  The proofs about the round trip describe a saved key file by the list of the writes that
  produced it: \<open>apply_writes\<close> performs a list of writes, and \<open>all_writes\<close> is the list that
  \<open>flatpak_context_save_metadata\<close> performs on a new key file, group after group.
\<close>

type_synonym kf_write = "(string \<times> string) \<times> kf_value"

fun apply_writes :: "kf_write list \<Rightarrow> GKeyFile \<Rightarrow> GKeyFile" where
  "apply_writes [] kf = kf"
| "apply_writes (w # ws) kf = apply_writes ws (g_key_file_set_value kf (fst (fst w)) (snd (fst w)) (snd w))"

definition write_group :: "kf_write \<Rightarrow> string" where
  "write_group w = fst (fst w)"

definition policy_write :: "bool \<Rightarrow> string \<times> string list \<Rightarrow> kf_write" where
  "policy_write flatten e =
     ((FLATPAK_METADATA_GROUP_PREFIX_POLICY @ takeWhile (\<lambda>c. c \<noteq> CHR ''.'') (fst e),
       drop 1 (dropWhile (\<lambda>c. c \<noteq> CHR ''.'') (fst e))),
      KF_string_list (policy_values_written flatten (snd e)))"

definition context_write :: "string \<Rightarrow> bool \<Rightarrow> string list \<Rightarrow> kf_write list" where
  "context_write key present l =
     (if present then [((FLATPAK_METADATA_GROUP_CONTEXT, key), KF_string_list l)] else [])"

definition saved_shared :: "bool \<Rightarrow> FlatpakContext \<Rightarrow> string list" where
  "saved_shared flatten c =
     (if flatten
      then flatpak_context_shared_to_string (shares c AND shares_valid c) (shares c AND shares_valid c)
      else flatpak_context_shared_to_string (shares c) (shares_valid c))"

definition saved_sockets :: "bool \<Rightarrow> FlatpakContext \<Rightarrow> string list" where
  "saved_sockets flatten c =
     (if flatten
      then flatpak_context_sockets_to_string (sockets c AND sockets_valid c) (sockets c AND sockets_valid c)
      else flatpak_context_sockets_to_string (sockets c) (sockets_valid c))"

definition saved_devices :: "bool \<Rightarrow> FlatpakContext \<Rightarrow> string list" where
  "saved_devices flatten c =
     (if flatten
      then flatpak_context_devices_to_string (devices c AND devices_valid c) (devices c AND devices_valid c)
      else flatpak_context_devices_to_string (devices c) (devices_valid c))"

definition saved_features :: "FlatpakContext \<Rightarrow> string list" where
  "saved_features c = flatpak_context_features_to_string (features c) (features c)"

definition context_writes :: "bool \<Rightarrow> FlatpakContext \<Rightarrow> kf_write list" where
  "context_writes flatten c =
     context_write FLATPAK_METADATA_KEY_SHARED (saved_shared flatten c \<noteq> []) (saved_shared flatten c)
     @ context_write FLATPAK_METADATA_KEY_SOCKETS (saved_sockets flatten c \<noteq> []) (saved_sockets flatten c)
     @ context_write FLATPAK_METADATA_KEY_DEVICES (saved_devices flatten c \<noteq> []) (saved_devices flatten c)
     @ context_write FLATPAK_METADATA_KEY_FEATURES (saved_features c \<noteq> []) (saved_features c)
     @ context_write FLATPAK_METADATA_KEY_FILESYSTEMS (DAList.impl_of (filesystems c) \<noteq> [])
         (save_filesystems_loop (DAList.impl_of (filesystems c)))
     @ context_write FLATPAK_METADATA_KEY_PERSISTENT (DAList.impl_of (persistent c) \<noteq> [])
         (map fst (DAList.impl_of (persistent c)))"

definition bus_writes :: "string \<Rightarrow> (string \<times> FlatpakPolicy) list \<Rightarrow> kf_write list" where
  "bus_writes g l =
     map (\<lambda>(key, policy). ((g, key), KF_string (flatpak_policy_to_string policy)))
       (filter (\<lambda>(key, policy). policy \<noteq> FLATPAK_POLICY_NONE) l)"

definition env_writes :: "(string \<times> string option) list \<Rightarrow> kf_write list" where
  "env_writes l =
     map (\<lambda>(key, v). ((FLATPAK_METADATA_GROUP_ENVIRONMENT, key), KF_string (the v)))
       (filter (\<lambda>(key, v). v \<noteq> None) l)"

definition policy_writes :: "bool \<Rightarrow> (string \<times> string list) list \<Rightarrow> kf_write list" where
  "policy_writes flatten l =
     map (policy_write flatten) (filter (\<lambda>e. policy_values_written flatten (snd e) \<noteq> []) l)"

definition all_writes :: "bool \<Rightarrow> FlatpakContext \<Rightarrow> kf_write list" where
  "all_writes flatten c =
     context_writes flatten c
     @ bus_writes FLATPAK_METADATA_GROUP_SESSION_BUS_POLICY (DAList.impl_of (session_bus_policy c))
     @ bus_writes FLATPAK_METADATA_GROUP_SYSTEM_BUS_POLICY (DAList.impl_of (system_bus_policy c))
     @ env_writes (DAList.impl_of (env_vars c))
     @ policy_writes flatten (DAList.impl_of (generic_policy c))"

definition fixed_writes :: "bool \<Rightarrow> FlatpakContext \<Rightarrow> kf_write list" where
  "fixed_writes flatten c =
     context_writes flatten c
     @ bus_writes FLATPAK_METADATA_GROUP_SESSION_BUS_POLICY (DAList.impl_of (session_bus_policy c))
     @ bus_writes FLATPAK_METADATA_GROUP_SYSTEM_BUS_POLICY (DAList.impl_of (system_bus_policy c))
     @ env_writes (DAList.impl_of (env_vars c))"

definition plain_entry :: "kf_write \<Rightarrow> bool" where
  "plain_entry e = (case snd e of KF_string_list l \<Rightarrow> list_all (\<lambda>s. \<not> is_negated s) l | KF_string s \<Rightarrow> True)"

text \<open>
  \<open>bits_loop\<close> is the loop of \<open>load_bitmask_loop\<close> on a pair of a bit mask and its valid
  mask alone.
\<close>

type_synonym bitset = "guint32 \<times> guint32"

fun bits_loop :: "(string \<Rightarrow> guint32) \<Rightarrow> bitset \<Rightarrow> string list \<Rightarrow> bool \<times> bitset" where
  "bits_loop from_string p [] = (True, p)"
| "bits_loop from_string p (entry # entries) =
     (let (name, negated) = parse_negated entry;
          bits = from_string name
      in if bits = 0 then (False, p)
         else bits_loop from_string
                (if negated then (fst p AND NOT bits, snd p OR bits) else (fst p OR bits, snd p OR bits))
                entries)"

text \<open>
  The generic policies that the loading reads from a group of a key file, and those that a
  write stands for; \<open>reloaded_values\<close> is the entry of a key after the round trip.
\<close>

definition policy_key_of_write :: "kf_write \<Rightarrow> string" where
  "policy_key_of_write w =
     drop (length FLATPAK_METADATA_GROUP_PREFIX_POLICY) (fst (fst w)) @ ''.'' @ snd (fst w)"

definition key_values :: "GKeyFile \<Rightarrow> string \<Rightarrow> string \<Rightarrow> string list" where
  "key_values kf g key = (case g_key_file_get_string_list kf g key of None \<Rightarrow> [] | Some l \<Rightarrow> l)"

definition group_keys :: "GKeyFile \<Rightarrow> string \<Rightarrow> string list" where
  "group_keys kf g = (case g_key_file_get_keys kf g of None \<Rightarrow> [] | Some l \<Rightarrow> l)"

definition group_policies :: "GKeyFile \<Rightarrow> string \<Rightarrow> (string \<times> string list) list" where
  "group_policies kf g =
     (if g_str_has_prefix g FLATPAK_METADATA_GROUP_PREFIX_POLICY
      then map (\<lambda>key. (drop (length FLATPAK_METADATA_GROUP_PREFIX_POLICY) g @ ''.'' @ key, key_values kf g key))
             (group_keys kf g)
      else [])"

definition values_of_write :: "kf_write \<Rightarrow> string list" where
  "values_of_write w = (case snd w of KF_string_list l \<Rightarrow> l | KF_string s \<Rightarrow> [])"

definition policy_of_write :: "kf_write \<Rightarrow> string \<times> string list" where
  "policy_of_write w = (policy_key_of_write w, values_of_write w)"

definition reloaded_values :: "bool \<Rightarrow> string list option \<Rightarrow> string list option" where
  "reloaded_values flatten x =
     (case x of
        None \<Rightarrow> None
      | Some vs \<Rightarrow>
          if policy_values_written flatten vs = [] then None
          else Some (merge_values [] (policy_values_written flatten vs)))"

section \<open>Properties\<close>

subsection \<open>Generic policy\<close>

lemma apply_generic_policy_loop_filter:
  "apply_generic_policy_loop old_v v new = new @ filter (\<lambda>old. skip_bang old \<noteq> skip_bang v) old_v"
  by (induction old_v arbitrary: new) (simp_all add: Let_def)

lemma apply_generic_policy_Some:
  assumes "CHR ''.'' \<in> set key"
  shows "flatpak_context_apply_generic_policy c key v =
           Some (c\<lparr> generic_policy := DAList.update key
                   (filter (\<lambda>old. skip_bang old \<noteq> skip_bang v) (generic_policy_values c key) @ [v])
                   (generic_policy c) \<rparr>)"
  using assms
  by (simp add: flatpak_context_apply_generic_policy_def generic_policy_values_def
        apply_generic_policy_loop_filter Let_def)

lemma generic_policy_values_update:
  "generic_policy_values (c\<lparr> generic_policy := DAList.update key l (generic_policy c) \<rparr>) k =
     (if k = key then l else generic_policy_values c k)"
  by (simp add: generic_policy_values_def DAList.lookup_update)

lemma skip_bang_plain: "\<not> g_str_has_prefix x ''!'' \<Longrightarrow> skip_bang x = x"
  by (cases x) (auto simp: g_str_has_prefix_def)

text \<open>
  C6, as amended. Applying a value \<open>v\<close> to a key removes from the values of the key exactly
  those that are equal to \<open>v\<close> once one leading exclamation mark is taken off both sides,
  keeps the others in their order and puts \<open>v\<close> at the end; the other keys keep their values.
  For a value \<open>x\<close> that does not itself start with an exclamation mark, applying \<open>x\<close> and then
  \<open>!x\<close>, or \<open>!x\<close> and then \<open>x\<close>, leaves one entry for \<open>x\<close>, the one applied last.
\<close>

theorem apply_generic_policy_dedup:
  assumes key: "CHR ''.'' \<in> set key"
  shows "(\<exists>c'. flatpak_context_apply_generic_policy c key v = Some c'
            \<and> generic_policy_values c' key =
                filter (\<lambda>old. skip_bang old \<noteq> skip_bang v) (generic_policy_values c key) @ [v]
            \<and> (\<forall>k. k \<noteq> key \<longrightarrow> generic_policy_values c' k = generic_policy_values c k))
       \<and> (\<not> g_str_has_prefix x ''!'' \<longrightarrow>
            (\<exists>c2. apply_generic_policy_values c key [x, CHR ''!'' # x] = Some c2
               \<and> generic_policy_values c2 key =
                   filter (\<lambda>old. skip_bang old \<noteq> x) (generic_policy_values c key) @ [CHR ''!'' # x])
          \<and> (\<exists>c2. apply_generic_policy_values c key [CHR ''!'' # x, x] = Some c2
               \<and> generic_policy_values c2 key =
                   filter (\<lambda>old. skip_bang old \<noteq> x) (generic_policy_values c key) @ [x]))"
proof (intro conjI impI)
  show "\<exists>c'. flatpak_context_apply_generic_policy c key v = Some c'
            \<and> generic_policy_values c' key =
                filter (\<lambda>old. skip_bang old \<noteq> skip_bang v) (generic_policy_values c key) @ [v]
            \<and> (\<forall>k. k \<noteq> key \<longrightarrow> generic_policy_values c' k = generic_policy_values c k)"
    by (simp add: apply_generic_policy_Some [OF key] generic_policy_values_update)
next
  assume "\<not> g_str_has_prefix x ''!''"
  then have x: "skip_bang x = x" by (rule skip_bang_plain)
  show "\<exists>c2. apply_generic_policy_values c key [x, CHR ''!'' # x] = Some c2
               \<and> generic_policy_values c2 key =
                   filter (\<lambda>old. skip_bang old \<noteq> x) (generic_policy_values c key) @ [CHR ''!'' # x]"
    using x by (simp add: apply_generic_policy_Some [OF key] generic_policy_values_update)
  show "\<exists>c2. apply_generic_policy_values c key [CHR ''!'' # x, x] = Some c2
               \<and> generic_policy_values c2 key =
                   filter (\<lambda>old. skip_bang old \<noteq> x) (generic_policy_values c key) @ [x]"
    using x by (simp add: apply_generic_policy_Some [OF key] generic_policy_values_update)
qed

theorem apply_generic_policy_dedup_witness:
  "CHR ''.'' \<in> set ''s.k'' \<and> \<not> g_str_has_prefix ''x'' ''!''
   \<and> (\<exists>c'. flatpak_context_apply_generic_policy flatpak_context_new ''s.k'' ''!v'' = Some c'
         \<and> generic_policy_values c' ''s.k'' = [''!v''] \<and> generic_policy_values c' ''s.j'' = [])
   \<and> (\<exists>c2. apply_generic_policy_values flatpak_context_new ''s.k'' [''x'', ''!x''] = Some c2
         \<and> generic_policy_values c2 ''s.k'' = [''!x''])
   \<and> (\<exists>c2. apply_generic_policy_values flatpak_context_new ''s.k'' [''!x'', ''x''] = Some c2
         \<and> generic_policy_values c2 ''s.k'' = [''x''])"
proof -
  have key: "CHR ''.'' \<in> set ''s.k''" by simp
  have x: "\<not> g_str_has_prefix ''x'' ''!''" by (simp add: g_str_has_prefix_def)
  have empty: "generic_policy_values flatpak_context_new k = []" for k
    by (simp add: generic_policy_values_def flatpak_context_new_def)
  show ?thesis
    using key x apply_generic_policy_dedup [OF key, of flatpak_context_new "''!v''" "''x''"]
    by (auto simp: empty)
qed

text \<open>
  The claim as written fails for a value that starts with an exclamation mark: \<open>!a\<close> and then
  \<open>!!a\<close> leave both entries, since only one mark is taken off before the comparison.
\<close>

theorem apply_generic_policy_counterexample:
  "map_option generic_policy (apply_generic_policy_values flatpak_context_new ''s.k'' [''!a'', ''!!a''])
     = Some (DAList.update ''s.k'' [''!a'', ''!!a''] DAList.empty)"
  by (simp add: flatpak_context_apply_generic_policy_def flatpak_context_new_def Let_def)

subsection \<open>The export planner\<close>

declare exports_path_expose_level.simps [simp del]

lemma expose_level_unfold:
  "exports_path_expose_level h exports mode path level =
     (case expose_step h path level of
        Step_fail \<Rightarrow> (False, exports)
      | Step_export canonical \<Rightarrow> (True, do_export_path exports canonical mode)
      | Step_follow p t \<Rightarrow>
          (case exports_path_expose_level h exports mode t (level + 1) of
             (True, exports') \<Rightarrow> (True, do_export_path exports' p FAKE_MODE_SYMLINK)
           | (False, exports') \<Rightarrow> (False, exports')))"
  by (subst exports_path_expose_level.simps)
     (simp add: expose_step_def Let_def split: option.splits prod.splits)




lemma example_host_simps:
  "lstat example_host p = (if p = ''/p'' then Some S_IFDIR
                   else if p = ''/a'' \<or> p = ''/l'' then Some S_IFLNK else None)"
  "flatpak_resolve_link example_host p = (if p = ''/a'' then Some ''/b''
                                  else if p = ''/l'' then Some ''/l'' else None)"
  "flatpak_canonicalize_filename example_host p = p"
  "flatpak_has_path_prefix example_host = path_has_prefix"
  "g_build_filename example_host a b = a @ ''/'' @ b"
  by (simp_all add: example_host_def)

lemmas example_eval = example_host_simps expose_step_def g_path_is_absolute_def g_str_has_prefix_def
  dont_export_in_def path_has_prefix_def expose_rounds_def path_is_symlink_def
  never_export_as_symlink_def Let_def



lemma find_None_list_ex: "find P xs = None \<longleftrightarrow> \<not> list_ex P xs"
  by (induction xs) auto

lemma direct_path_step: "direct_path h path \<Longrightarrow> expose_step h path 0 = Step_export path"
proof -
  assume d: "direct_path h path"
  then have "find (\<lambda>(p, rest). path_is_symlink h p \<and> \<not> never_export_as_symlink p)
               (expose_rounds path) = None"
    by (simp add: direct_path_def find_None_list_ex)
  with d show ?thesis
    by (auto simp: direct_path_def expose_step_def Let_def)
qed

lemma expose_direct:
  "direct_path h path \<Longrightarrow>
     exports_path_expose_level h exports mode path 0 = (True, do_export_path exports path mode)"
  by (simp add: expose_level_unfold direct_path_step)

lemma lookup_do_export_path:
  "DAList.lookup (do_export_path exports path mode) q =
     (if q = path then Some (case DAList.lookup exports path of Some old \<Rightarrow> max old mode | None \<Rightarrow> mode)
      else DAList.lookup exports q)"
  by (simp add: do_export_path_def Let_def DAList.lookup_update)

lemma impl_of_do_export_path_twice:
  "DAList.impl_of (do_export_path (do_export_path exports_new path m1) path m2) = [(path, max m1 m2)]"
  by (simp add: do_export_path_def exports_new_def Let_def DAList.update.rep_eq DAList.empty.rep_eq
        DAList.lookup.rep_eq)

text \<open>
  C2, as amended. When a path is recorded twice the entry keeps the numerically higher
  mode, in the order dir-only (-1), tmpfs (0), read-only (1), read-write (2), create (3),
  symlink (\<open>G_MAXINT\<close>). For a path that is exported under its own name: after exposing it
  read-only and then read-write the planner holds the single entry read-write; after exposing
  it read-only and then as tmpfs the planner holds the single entry read-only, since the mode
  of tmpfs is below every permission mode.
\<close>

theorem export_conflict_higher_mode_wins:
  assumes "direct_path h p"
  shows "DAList.impl_of
           (exports_path_expose h (exports_path_expose h exports_new FLATPAK_FILESYSTEM_MODE_READ_ONLY p)
              FLATPAK_FILESYSTEM_MODE_READ_WRITE p)
           = [(p, filesystem_mode_to_int FLATPAK_FILESYSTEM_MODE_READ_WRITE)]
       \<and> DAList.impl_of
           (exports_path_tmpfs h (exports_path_expose h exports_new FLATPAK_FILESYSTEM_MODE_READ_ONLY p) p)
           = [(p, filesystem_mode_to_int FLATPAK_FILESYSTEM_MODE_READ_ONLY)]
       \<and> DAList.lookup (do_export_path (do_export_path exports q m1) q m2) q =
           Some (max (case DAList.lookup exports q of Some old \<Rightarrow> max old m1 | None \<Rightarrow> m1) m2)"
  using assms
  by (simp add: exports_path_expose_def exports_path_tmpfs_def expose_direct
        impl_of_do_export_path_twice lookup_do_export_path FAKE_MODE_TMPFS_def)

theorem export_conflict_higher_mode_wins_witness:
  "direct_path example_host ''/p''
   \<and> DAList.impl_of
       (exports_path_expose example_host
          (exports_path_expose example_host exports_new FLATPAK_FILESYSTEM_MODE_READ_ONLY ''/p'')
          FLATPAK_FILESYSTEM_MODE_READ_WRITE ''/p'') = [(''/p'', 2)]
   \<and> DAList.impl_of
       (exports_path_tmpfs example_host
          (exports_path_expose example_host exports_new FLATPAK_FILESYSTEM_MODE_READ_ONLY ''/p'') ''/p'')
       = [(''/p'', 1)]"
proof -
  have d: "direct_path example_host ''/p''"
    by (simp add: direct_path_def example_eval)
  show ?thesis
    using d export_conflict_higher_mode_wins [OF d] by simp
qed

text \<open>
  The claim as written fails at its second half: on the example host, after \<open>/p\<close> was exposed
  read-only, \<open>exports_path_tmpfs\<close> does not leave a tmpfs entry for it.
\<close>

theorem export_conflict_tmpfs_counterexample:
  "DAList.lookup
     (exports_path_tmpfs example_host
        (exports_path_expose example_host exports_new FLATPAK_FILESYSTEM_MODE_READ_ONLY ''/p'') ''/p'')
     ''/p''
   \<noteq> Some FAKE_MODE_TMPFS"
  by (simp add: exports_path_expose_def exports_path_tmpfs_def expose_level_unfold example_eval
        lookup_do_export_path exports_new_def FAKE_MODE_TMPFS_def)

subsection \<open>The launcher\<close>

declare decimal.simps [simp del]

lemma unsetenv_no_entry:
  "e \<in> set (g_environ_unsetenv envp variable) \<Longrightarrow> \<not> g_str_has_prefix e (variable @ ''='')"
  by (simp add: g_environ_unsetenv_def)

lemma x11_args_prefix:
  "\<exists>more. fst (flatpak_run_add_x11_args xh argv_array fd_array envp allowed)
     = argv_array @ [''--tmpfs'', ''/tmp/.X11-unix''] @ more"
  by (auto simp: flatpak_run_add_x11_args_def add_args_def add_args_data_fd_def Let_def
        split: option.splits list.splits prod.splits)

lemma x11_not_allowed:
  "flatpak_run_add_x11_args xh argv_array fd_array envp False
     = (argv_array @ [''--tmpfs'', ''/tmp/.X11-unix''], fd_array, g_environ_unsetenv envp ''DISPLAY'')"
  by (simp add: flatpak_run_add_x11_args_def add_args_def)

text \<open>
  C9. Whatever the context, the arguments that \<open>flatpak_run_add_environment_args\<close> gets from
  \<open>flatpak_run_add_x11_args\<close> start with \<open>--tmpfs /tmp/.X11-unix\<close>. When the x11 socket is
  not granted these two are all that is added (so no bind of an X11 socket), no descriptor
  is added, and the environment is the old one without any entry of \<open>DISPLAY\<close>.
\<close>

theorem x11_socket_dir_always_covered:
  "(\<exists>more. fst (add_environment_args_x11 xh context argv_array fd_array envp)
      = argv_array @ [''--tmpfs'', ''/tmp/.X11-unix''] @ more)
   \<and> (sockets context AND FLATPAK_CONTEXT_SOCKET_X11 = 0 \<longrightarrow>
        add_environment_args_x11 xh context argv_array fd_array envp
          = (argv_array @ [''--tmpfs'', ''/tmp/.X11-unix''], fd_array, g_environ_unsetenv envp ''DISPLAY'')
        \<and> (\<forall>e \<in> set (g_environ_unsetenv envp ''DISPLAY''). \<not> g_str_has_prefix e ''DISPLAY=''))"
  using unsetenv_no_entry [of _ envp "''DISPLAY''"]
    x11_args_prefix [of xh argv_array fd_array envp "sockets context AND FLATPAK_CONTEXT_SOCKET_X11 \<noteq> 0"]
  by (auto simp: add_environment_args_x11_def x11_not_allowed)

theorem x11_socket_dir_always_covered_witness:
  "sockets flatpak_context_new AND FLATPAK_CONTEXT_SOCKET_X11 = 0
   \<and> add_environment_args_x11 example_x11_host flatpak_context_new [''bwrap''] [3]
         [''DISPLAY=:0'', ''HOME=/h'']
       = ([''bwrap'', ''--tmpfs'', ''/tmp/.X11-unix''], [3], [''HOME=/h''])
   \<and> (\<exists>more. fst (add_environment_args_x11 example_x11_host
                     (flatpak_context_add_sockets flatpak_context_new FLATPAK_CONTEXT_SOCKET_X11)
                     [''bwrap''] [3] [''DISPLAY=:0'', ''HOME=/h''])
         = [''bwrap'', ''--tmpfs'', ''/tmp/.X11-unix''] @ more)"
proof -
  have no_x11: "sockets flatpak_context_new AND FLATPAK_CONTEXT_SOCKET_X11 = 0"
    by (simp add: flatpak_context_new_def)
  have env: "g_environ_unsetenv [''DISPLAY=:0'', ''HOME=/h''] ''DISPLAY'' = [''HOME=/h'']"
    by (simp add: g_environ_unsetenv_def g_str_has_prefix_def)
  show ?thesis
    using no_x11 env
      x11_socket_dir_always_covered [of example_x11_host flatpak_context_new "[''bwrap'']" "[3]"
        "[''DISPLAY=:0'', ''HOME=/h'']"]
      x11_socket_dir_always_covered [of example_x11_host
        "flatpak_context_add_sockets flatpak_context_new FLATPAK_CONTEXT_SOCKET_X11" "[''bwrap'']" "[3]"
        "[''DISPLAY=:0'', ''HOME=/h'']"]
    by simp
qed

















text \<open>The error of an unknown syscall names the number of the syscall.\<close>

lemma setup_seccomp_unknown_syscall:
  "setup_seccomp
     (example_libseccomp\<lparr> seccomp_rule_add :=
        (\<lambda>ctx r. if rule_syscall r = SYS_ptrace then - EFAULT else 0) \<rparr>)
     [''bwrap''] [] None 0 False False = Inl ''Failed to block syscall 101''"
  by code_simp

lemma add_rest_args_loop_cannot_forward:
  "file_forwarding \<Longrightarrow>
   add_rest_args_loop dp file_forwarding False doc_mount_path forwarding forwarding_uri argv_array args
     = Inr (argv_array @ filter (\<lambda>a. a \<noteq> ''@@'' \<and> a \<noteq> ''@@u'') args)"
  by (induction args arbitrary: forwarding forwarding_uri argv_array) auto

text \<open>
  C10. With file forwarding enabled, when the mount path of the document portal is \<open>NULL\<close>
  or the proxy of the portal cannot be made, \<open>add_rest_args\<close> succeeds and appends the
  arguments as they are, in their order, without the tokens \<open>@@\<close> and \<open>@@u\<close>.
\<close>

theorem add_rest_args_portal_unreachable:
  assumes "file_forwarding" and "doc_mount_path = None \<or> \<not> documents_proxy_new dp"
  shows "add_rest_args dp file_forwarding doc_mount_path argv_array args
           = Inr (argv_array @ filter (\<lambda>a. a \<noteq> ''@@'' \<and> a \<noteq> ''@@u'') args)"
  using assms by (auto simp: add_rest_args_def add_rest_args_loop_cannot_forward)

theorem add_rest_args_portal_unreachable_witness:
  "(None = (None :: string option) \<or> \<not> documents_proxy_new example_doc_portal)
   \<and> add_rest_args example_doc_portal True None [''app'']
         [''@@'', ''/outside/path'', ''other.txt'', ''@@'', ''x'', ''@@u'', ''file:///y'', ''@@'']
       = Inr [''app'', ''/outside/path'', ''other.txt'', ''x'', ''file:///y'']
   \<and> (Some ''/run/user/1000/doc'' = None \<or> \<not> documents_proxy_new example_doc_portal)
   \<and> add_rest_args example_doc_portal True (Some ''/run/user/1000/doc'') [''app'']
         [''@@'', ''/outside/path'', ''other.txt'', ''@@'']
       = Inr [''app'', ''/outside/path'', ''other.txt'']"
proof -
  have p: "\<not> documents_proxy_new example_doc_portal"
    by (simp add: example_doc_portal_def)
  show ?thesis
    using p
      add_rest_args_portal_unreachable [of True None example_doc_portal "[''app'']"
        "[''@@'', ''/outside/path'', ''other.txt'', ''@@'', ''x'', ''@@u'', ''file:///y'', ''@@'']"]
      add_rest_args_portal_unreachable [of True "Some ''/run/user/1000/doc''" example_doc_portal
        "[''app'']" "[''@@'', ''/outside/path'', ''other.txt'', ''@@'']"]
    by simp
qed

subsection \<open>The invariant of the bit sets\<close>

lemma bits_within_iff: "bits_within b v \<longleftrightarrow> (\<forall>n. bit b n \<longrightarrow> bit v n)"
  proof
  assume "bits_within b v"
  then have z: "b AND NOT v = 0" by (simp add: bits_within_def)
  show "\<forall>n. bit b n \<longrightarrow> bit v n"
  proof (intro allI impI)
    fix n assume n: "bit b n"
    have "\<not> bit (b AND NOT v) n" using z by simp
    with n show "bit v n" by (auto simp: bit_and_iff bit_not_iff dest: bit_imp_le_length)
  qed
next
  assume "\<forall>n. bit b n \<longrightarrow> bit v n"
  then show "bits_within b v"
    by (auto simp: bits_within_def bit_eq_iff bit_and_iff bit_not_iff)
qed

lemma bits_within_add: "bits_within b v \<Longrightarrow> bits_within (b OR s) (v OR s)"
  by (auto simp: bits_within_iff bit_or_iff)

lemma bits_within_remove: "bits_within b v \<Longrightarrow> bits_within (b AND NOT s) (v OR s)"
  by (auto simp: bits_within_iff bit_or_iff bit_and_iff)

lemma bits_within_merge:
  "bits_within b v \<Longrightarrow> bits_within ob ov \<Longrightarrow> bits_within ((b AND NOT ov) OR ob) (v OR ov)"
  by (auto simp: bits_within_iff bit_or_iff bit_and_iff)

lemma same_bitsets_inv: "same_bitsets c c' \<Longrightarrow> bitsets_within_valid c \<Longrightarrow> bitsets_within_valid c'"
  by (simp add: same_bitsets_def bitsets_within_valid_def)

lemma same_bitsets_refl [simp]: "same_bitsets c c"
  by (simp add: same_bitsets_def)

lemma same_bitsets_trans: "same_bitsets a b \<Longrightarrow> same_bitsets b c \<Longrightarrow> same_bitsets a c"
  by (simp add: same_bitsets_def)

lemma setters_same_bitsets [simp]:
  "same_bitsets c (flatpak_context_set_env_var c n v)"
  "same_bitsets c (flatpak_context_set_session_bus_policy c n p)"
  "same_bitsets c (flatpak_context_set_system_bus_policy c n p)"
  "same_bitsets c (flatpak_context_set_persistent c n)"
  "same_bitsets c (flatpak_context_add_filesystem c n)"
  "same_bitsets c (flatpak_context_remove_filesystem c n)"
  "same_bitsets c (flatpak_context_allow_host_fs c)"
  by (simp_all add: same_bitsets_def flatpak_context_set_env_var_def
        flatpak_context_set_session_bus_policy_def flatpak_context_set_system_bus_policy_def
        flatpak_context_set_persistent_def flatpak_context_add_filesystem_def
        flatpak_context_remove_filesystem_def flatpak_context_allow_host_fs_def split: prod.splits)

lemma apply_generic_policy_same_bitsets:
  "flatpak_context_apply_generic_policy c key v = Some c' \<Longrightarrow> same_bitsets c c'"
  by (auto simp: flatpak_context_apply_generic_policy_def same_bitsets_def Let_def split: if_splits)

lemma apply_generic_policy_values_same_bitsets:
  "apply_generic_policy_values c key vs = Some c' \<Longrightarrow> same_bitsets c c'"
proof (induction vs arbitrary: c)
  case Nil
  then show ?case by simp
next
  case (Cons v vs)
  then show ?case
    by (auto split: option.splits dest: apply_generic_policy_same_bitsets intro: same_bitsets_trans)
qed

lemma merge_generic_policy_same_bitsets:
  "merge_generic_policy c l = Some c' \<Longrightarrow> same_bitsets c c'"
proof (induction l arbitrary: c)
  case Nil
  then show ?case by simp
next
  case (Cons e l)
  then show ?case
    by (cases e) (auto split: option.splits dest: apply_generic_policy_values_same_bitsets intro: same_bitsets_trans)
qed

lemma adders_inv:
  assumes "bitsets_within_valid c"
  shows "bitsets_within_valid (flatpak_context_add_shares c s)"
    "bitsets_within_valid (flatpak_context_remove_shares c s)"
    "bitsets_within_valid (flatpak_context_add_sockets c s)"
    "bitsets_within_valid (flatpak_context_remove_sockets c s)"
    "bitsets_within_valid (flatpak_context_add_devices c s)"
    "bitsets_within_valid (flatpak_context_remove_devices c s)"
    "bitsets_within_valid (flatpak_context_add_features c s)"
    "bitsets_within_valid (flatpak_context_remove_features c s)"
  using assms
  by (simp_all add: bitsets_within_valid_def bits_within_add bits_within_remove
        flatpak_context_add_shares_def flatpak_context_remove_shares_def
        flatpak_context_add_sockets_def flatpak_context_remove_sockets_def
        flatpak_context_add_devices_def flatpak_context_remove_devices_def
        flatpak_context_add_features_def flatpak_context_remove_features_def)

lemma load_bitmask_loop_inv:
  assumes add: "\<And>c s. bitsets_within_valid c \<Longrightarrow> bitsets_within_valid (add c s)"
    and remove: "\<And>c s. bitsets_within_valid c \<Longrightarrow> bitsets_within_valid (remove c s)"
  shows "bitsets_within_valid c \<Longrightarrow> bitsets_within_valid (snd (load_bitmask_loop from_string add remove c entries))"
  by (induction entries arbitrary: c) (auto simp: Let_def add remove split: prod.splits)

lemma load_bitmask_key_inv:
  assumes add: "\<And>c s. bitsets_within_valid c \<Longrightarrow> bitsets_within_valid (add c s)"
    and remove: "\<And>c s. bitsets_within_valid c \<Longrightarrow> bitsets_within_valid (remove c s)"
  shows "bitsets_within_valid c \<Longrightarrow> bitsets_within_valid (snd (load_bitmask_key metakey key from_string add remove c))"
  by (auto simp: load_bitmask_key_def load_bitmask_loop_inv [OF add remove] split: option.splits)

lemma load_filesystems_loop_same: "same_bitsets c (snd (load_filesystems_loop c entries))"
proof (induction entries arbitrary: c)
  case Nil
  then show ?case by simp
next
  case (Cons e entries)
  show ?case
    using Cons [of "flatpak_context_remove_filesystem c (fst (parse_negated e))"]
      Cons [of "flatpak_context_add_filesystem c (fst (parse_negated e))"]
    by (auto simp: Let_def split: prod.splits intro: same_bitsets_trans [OF setters_same_bitsets(6)]
          same_bitsets_trans [OF setters_same_bitsets(5)])
qed

lemma load_filesystems_same: "same_bitsets c (snd (load_filesystems metakey c))"
  by (simp add: load_filesystems_def load_filesystems_loop_same split: option.splits)

lemma fold_set_persistent_same:
  "same_bitsets c (fold (\<lambda>path c. flatpak_context_set_persistent c path) entries c)"
proof (induction entries arbitrary: c)
  case Nil
  then show ?case by simp
next
  case (Cons e entries)
  show ?case
    using Cons [of "flatpak_context_set_persistent c e"]
    by (auto intro: same_bitsets_trans [OF setters_same_bitsets(4)])
qed

lemma load_persistent_same: "same_bitsets c (snd (load_persistent metakey c))"
  by (simp add: load_persistent_def fold_set_persistent_same split: option.splits)

lemma load_bus_policy_loop_same:
  assumes "\<And>c n p. same_bitsets c (set_policy c n p)"
  shows "load_bus_policy_loop gio metakey g set_policy c keys = Some (ok, c') \<Longrightarrow> same_bitsets c c'"
proof (induction keys arbitrary: c)
  case Nil
  then show ?case by simp
next
  case (Cons k keys)
  then show ?case
    by (auto simp: Let_def split: if_splits option.splits intro: same_bitsets_trans [OF assms])
qed

lemma load_bus_policy_same:
  assumes "\<And>c n p. same_bitsets c (set_policy c n p)"
  shows "load_bus_policy gio metakey g set_policy c = Some (ok, c') \<Longrightarrow> same_bitsets c c'"
  by (auto simp: load_bus_policy_def split: if_splits option.splits dest: load_bus_policy_loop_same [OF assms])

lemma fold_set_env_var_same:
  "same_bitsets c (fold (\<lambda>key c. flatpak_context_set_env_var c key (f key)) keys c)"
proof (induction keys arbitrary: c)
  case Nil
  then show ?case by simp
next
  case (Cons k keys)
  show ?case
    using Cons [of "flatpak_context_set_env_var c k (f k)"]
    by (auto intro: same_bitsets_trans [OF setters_same_bitsets(1)])
qed

lemma load_environment_same: "same_bitsets c (load_environment metakey c)"
  by (simp add: load_environment_def fold_set_env_var_same split: option.splits)

lemma load_policy_keys_loop_same:
  "load_policy_keys_loop metakey g subsystem c keys = Some c' \<Longrightarrow> same_bitsets c c'"
proof (induction keys arbitrary: c)
  case Nil
  then show ?case by simp
next
  case (Cons k keys)
  then show ?case
    by (auto simp: Let_def split: option.splits dest: apply_generic_policy_values_same_bitsets
          intro: same_bitsets_trans)
qed

lemma load_policy_groups_loop_same:
  "load_policy_groups_loop metakey c groups = Some c' \<Longrightarrow> same_bitsets c c'"
proof (induction groups arbitrary: c)
  case Nil
  then show ?case by simp
next
  case (Cons g groups)
  then show ?case
    by (auto simp: Let_def split: option.splits if_splits dest: load_policy_keys_loop_same
          intro: same_bitsets_trans)
qed

lemma then_part_inv:
  assumes "then_part r rest = Some (ok, c')" "P (snd r)"
    and "\<And>c. P c \<Longrightarrow> rest c = Some (ok, c') \<Longrightarrow> P c'"
  shows "P c'"
  using assms by (auto simp: then_part_def split: if_splits)

lemma then_part_opt_inv:
  assumes "then_part_opt r rest = Some (ok, c')" "\<And>b x. r = Some (b, x) \<Longrightarrow> P x"
    and "\<And>c. P c \<Longrightarrow> rest c = Some (ok, c') \<Longrightarrow> P c'"
  shows "P c'"
  using assms by (cases r) (auto simp: then_part_opt_def then_part_def split: if_splits)

lemma load_bus_policy_inv:
  assumes "\<And>c n p. same_bitsets c (set_policy c n p)"
  shows "load_bus_policy gio metakey g set_policy c = Some (b, x) \<Longrightarrow> bitsets_within_valid c
           \<Longrightarrow> bitsets_within_valid x"
proof -
  assume l: "load_bus_policy gio metakey g set_policy c = Some (b, x)" and i: "bitsets_within_valid c"
  have "same_bitsets c x"
    using l by (rule load_bus_policy_same [of set_policy, rotated]) (rule assms)
  then show ?thesis using i by (rule same_bitsets_inv)
qed

lemma load_rest_inv:
  "map_option (Pair True) (load_policy_groups_loop metakey (load_environment metakey c) groups) = Some (ok, c')
     \<Longrightarrow> bitsets_within_valid c \<Longrightarrow> bitsets_within_valid c'"
  using load_policy_groups_loop_same [of metakey "load_environment metakey c" groups c']
    load_environment_same [of c metakey]
  by (auto intro: same_bitsets_inv)

lemma load_metadata_inv:
  assumes inv: "bitsets_within_valid c"
    and load: "flatpak_context_load_metadata gio c metakey = Some (ok, c')"
  shows "bitsets_within_valid c'"
  using load inv unfolding flatpak_context_load_metadata_def
  apply -
  apply (erule then_part_inv [where P = bitsets_within_valid])
   apply (rule load_bitmask_key_inv; simp add: adders_inv)
  apply (erule then_part_inv [where P = bitsets_within_valid])
   apply (rule load_bitmask_key_inv; simp add: adders_inv)
  apply (erule then_part_inv [where P = bitsets_within_valid])
   apply (rule load_bitmask_key_inv; simp add: adders_inv)
  apply (erule then_part_inv [where P = bitsets_within_valid])
   apply (rule load_bitmask_key_inv; simp add: adders_inv)
  apply (erule then_part_inv [where P = bitsets_within_valid])
   apply (rule same_bitsets_inv [OF load_filesystems_same]; assumption)
  apply (erule then_part_inv [where P = bitsets_within_valid])
   apply (rule same_bitsets_inv [OF load_persistent_same]; assumption)
  apply (erule then_part_opt_inv [where P = bitsets_within_valid])
   apply (erule load_bus_policy_inv [rotated]; simp)
  apply (erule then_part_opt_inv [where P = bitsets_within_valid])
   apply (erule load_bus_policy_inv [rotated]; simp)
  apply (erule load_rest_inv; assumption)
  done

lemma setters_inv:
  assumes "bitsets_within_valid c"
  shows "bitsets_within_valid (flatpak_context_set_env_var c n v)"
  "bitsets_within_valid (flatpak_context_set_session_bus_policy c n p)"
  "bitsets_within_valid (flatpak_context_set_system_bus_policy c n p)"
  "bitsets_within_valid (flatpak_context_set_persistent c n)"
  "bitsets_within_valid (flatpak_context_add_filesystem c n)"
  "bitsets_within_valid (flatpak_context_remove_filesystem c n)"
  "bitsets_within_valid (flatpak_context_allow_host_fs c)"
  using assms by (auto intro: same_bitsets_inv [rotated])

lemma apply_generic_policy_inv:
  "flatpak_context_apply_generic_policy c key v = Some c' \<Longrightarrow> bitsets_within_valid c \<Longrightarrow> bitsets_within_valid c'"
  using apply_generic_policy_same_bitsets same_bitsets_inv by blast

lemma option_inv:
  assumes inv: "bitsets_within_valid c"
    and cb: "(name, callback) \<in> set (context_options gio)" "callback c v = Some (ok, c')"
  shows "bitsets_within_valid c'"
  using cb inv adders_inv [OF inv] setters_inv [OF inv]
  by (auto simp: context_options_def option_share_cb_def option_unshare_cb_def option_socket_cb_def
        option_nosocket_cb_def option_device_cb_def option_nodevice_cb_def option_allow_cb_def
        option_disallow_cb_def option_filesystem_cb_def option_nofilesystem_cb_def option_env_cb_def
        option_own_name_cb_def option_talk_name_cb_def option_system_own_name_cb_def
        option_system_talk_name_cb_def option_add_generic_policy_cb_def
        option_remove_generic_policy_cb_def option_persist_cb_def Let_def
        split: if_splits dest: apply_generic_policy_inv)

lemma merge_inv:
  assumes "bitsets_within_valid c" "bitsets_within_valid other"
    and "flatpak_context_merge c other = Some c'"
  shows "bitsets_within_valid c'"
proof -
  from assms(3) obtain m where m: "merge_generic_policy m (DAList.impl_of (generic_policy other)) = Some c'"
    and "bitsets_within_valid m"
    using assms(1,2)
    by (auto simp: flatpak_context_merge_def bitsets_within_valid_def bits_within_merge)
  then show ?thesis
    using merge_generic_policy_same_bitsets same_bitsets_inv by blast
qed

text \<open>
  C7. Every context that a sequence of the operations produces has, in each of its four bit
  sets, every enabled bit inside the valid mask.
\<close>

theorem produced_bits_within_valid:
  assumes "produced gio c"
  shows "bitsets_within_valid c
       \<and> (\<forall>n. (bit (shares c) n \<longrightarrow> bit (shares_valid c) n)
              \<and> (bit (sockets c) n \<longrightarrow> bit (sockets_valid c) n)
              \<and> (bit (devices c) n \<longrightarrow> bit (devices_valid c) n)
              \<and> (bit (features c) n \<longrightarrow> bit (features_valid c) n))"
proof -
  from assms have "bitsets_within_valid c"
  proof induction
    case produced_new
    show ?case by (simp add: bitsets_within_valid_def bits_within_def flatpak_context_new_def)
  next
    case (produced_load_metadata c metakey ok c')
    then show ?case by (auto intro: load_metadata_inv)
  next
    case (produced_option c name callback v ok c')
    then show ?case by (auto intro: option_inv)
  next
    case (produced_merge c other c')
    then show ?case by (auto intro: merge_inv)
  qed (auto simp: adders_inv setters_inv)
  then show ?thesis
    by (simp add: bitsets_within_valid_def bits_within_iff)
qed

theorem produced_bits_within_valid_witness:
  "produced example_gdbus
     (flatpak_context_remove_sockets
        (flatpak_context_add_shares flatpak_context_new FLATPAK_CONTEXT_SHARED_NETWORK)
        FLATPAK_CONTEXT_SOCKET_X11)
   \<and> bitsets_within_valid
     (flatpak_context_remove_sockets
        (flatpak_context_add_shares flatpak_context_new FLATPAK_CONTEXT_SHARED_NETWORK)
        FLATPAK_CONTEXT_SOCKET_X11)
   \<and> bit (shares (flatpak_context_remove_sockets
        (flatpak_context_add_shares flatpak_context_new FLATPAK_CONTEXT_SHARED_NETWORK)
        FLATPAK_CONTEXT_SOCKET_X11)) 0
   \<and> bit (shares_valid (flatpak_context_remove_sockets
        (flatpak_context_add_shares flatpak_context_new FLATPAK_CONTEXT_SHARED_NETWORK)
        FLATPAK_CONTEXT_SOCKET_X11)) 0"
proof -
  have p: "produced example_gdbus
     (flatpak_context_remove_sockets
        (flatpak_context_add_shares flatpak_context_new FLATPAK_CONTEXT_SHARED_NETWORK)
        FLATPAK_CONTEXT_SOCKET_X11)"
    by (intro produced.intros)
  have b: "bit (shares (flatpak_context_remove_sockets
        (flatpak_context_add_shares flatpak_context_new FLATPAK_CONTEXT_SHARED_NETWORK)
        FLATPAK_CONTEXT_SOCKET_X11)) 0"
    by (simp add: flatpak_context_remove_sockets_def flatpak_context_add_shares_def
          flatpak_context_new_def FLATPAK_CONTEXT_SHARED_NETWORK_def)
  show ?thesis using p b produced_bits_within_valid [OF p] by blast
qed

subsection \<open>Merge\<close>

lemma merge_values_simps [simp]:
  "merge_values old [] = old"
  "merge_values old (vs @ [v]) = policy_step v (merge_values old vs)"
  "merge_values old (v # vs) = merge_values (policy_step v old) vs"
  by (simp_all add: merge_values_def)

lemma merge_values_append: "merge_values a (ys @ zs) = merge_values (merge_values a ys) zs"
  by (simp add: merge_values_def)

lemma merge_values_nonempty: "zs \<noteq> [] \<Longrightarrow> merge_values ys zs \<noteq> []"
  by (induction zs rule: rev_induct) (simp_all add: policy_step_def)

lemma merge_values_split:
  "merge_values a ys = filter (\<lambda>old. skip_bang old \<notin> skip_bang ` set ys) a @ merge_values [] ys"
  by (induction ys rule: rev_induct) (auto simp: policy_step_def intro: filter_cong)

lemma keys_policy_step:
  "skip_bang ` set (policy_step v l) = insert (skip_bang v) (skip_bang ` set l)"
proof -
  have "skip_bang x \<in> skip_bang ` set (policy_step v l)" if "x \<in> set l" for x
  proof (cases "skip_bang x = skip_bang v")
    case True
    then show ?thesis by (simp add: policy_step_def)
  next
    case False
    with that have "x \<in> set (policy_step v l)" by (simp add: policy_step_def)
    then show ?thesis by (rule imageI)
  qed
  moreover have "skip_bang ` set (policy_step v l) \<subseteq> insert (skip_bang v) (skip_bang ` set l)"
    by (auto simp: policy_step_def)
  moreover have "skip_bang v \<in> skip_bang ` set (policy_step v l)"
    by (simp add: policy_step_def)
  ultimately show ?thesis by blast
qed

lemma keys_merge_values:
  "skip_bang ` set (merge_values a ys) = skip_bang ` set a \<union> skip_bang ` set ys"
  by (induction ys rule: rev_induct) (simp_all add: keys_policy_step)

lemma distinct_map_filter_key: "distinct (map f l) \<Longrightarrow> distinct (map f (filter P l))"
  by (induction l) auto

lemma distinct_merge_values: "distinct (map skip_bang (merge_values [] ys))"
proof (induction ys rule: rev_induct)
  case Nil
  show ?case by simp
next
  case (snoc y ys)
  then show ?case
    by (auto simp: policy_step_def distinct_map_filter_key)
qed

lemma merge_values_distinct_id: "distinct (map skip_bang l) \<Longrightarrow> merge_values [] l = l"
proof (induction l rule: rev_induct)
  case Nil
  show ?case by simp
next
  case (snoc x xs)
  from snoc.prems have "skip_bang x \<notin> skip_bang ` set xs" by simp
  then have "\<forall>old \<in> set xs. skip_bang old \<noteq> skip_bang x" by (metis image_eqI)
  then have "filter (\<lambda>old. skip_bang old \<noteq> skip_bang x) xs = xs"
    by (simp add: filter_id_conv)
  with snoc show ?case by (simp add: policy_step_def)
qed

lemma merge_values_filter_keys:
  "merge_values [] (filter (\<lambda>old. skip_bang old \<notin> K) ys)
     = filter (\<lambda>old. skip_bang old \<notin> K) (merge_values [] ys)"
proof (induction ys rule: rev_induct)
  case Nil
  show ?case by simp
next
  case (snoc y ys)
  show ?case
  proof (cases "skip_bang y \<in> K")
    case True
    have "filter (\<lambda>old. skip_bang old \<notin> K) (filter (\<lambda>old. skip_bang old \<noteq> skip_bang y) (merge_values [] ys))
            = filter (\<lambda>old. skip_bang old \<notin> K) (merge_values [] ys)"
      using True by (auto intro: filter_cong)
    with True snoc show ?thesis by (simp add: policy_step_def)
  next
    case False
    with snoc show ?thesis by (auto simp: policy_step_def intro: filter_cong)
  qed
qed

lemma merge_values_nested: "merge_values a (merge_values ys zs) = merge_values a (ys @ zs)"
proof -
  let ?Z = "\<lambda>old. skip_bang old \<notin> skip_bang ` set zs"
  have "merge_values [] (merge_values ys zs) = merge_values [] (filter ?Z ys @ merge_values [] zs)"
    by (subst merge_values_split [of ys zs]) simp
  also have "\<dots> = merge_values (merge_values [] (filter ?Z ys)) (merge_values [] zs)"
    by (rule merge_values_append)
  also have "\<dots> = filter (\<lambda>old. skip_bang old \<notin> skip_bang ` set (merge_values [] zs))
                      (merge_values [] (filter ?Z ys)) @ merge_values [] (merge_values [] zs)"
    by (rule merge_values_split)
  also have "\<dots> = filter ?Z (filter ?Z (merge_values [] ys)) @ merge_values [] zs"
    by (simp add: keys_merge_values merge_values_filter_keys merge_values_distinct_id distinct_merge_values)
  also have "\<dots> = filter ?Z (merge_values [] ys) @ merge_values [] zs"
    by simp
  also have "\<dots> = merge_values (merge_values [] ys) zs"
    by (rule merge_values_split [symmetric])
  also have "\<dots> = merge_values [] (ys @ zs)"
    by (rule merge_values_append [symmetric])
  finally have inner: "merge_values [] (merge_values ys zs) = merge_values [] (ys @ zs)" .
  have "merge_values a (merge_values ys zs)
          = filter (\<lambda>old. skip_bang old \<notin> skip_bang ` set (merge_values ys zs)) a
            @ merge_values [] (merge_values ys zs)"
    by (rule merge_values_split)
  also have "\<dots> = filter (\<lambda>old. skip_bang old \<notin> skip_bang ` set (ys @ zs)) a @ merge_values [] (ys @ zs)"
    by (simp add: keys_merge_values inner image_Un)
  also have "\<dots> = merge_values a (ys @ zs)"
    by (rule merge_values_split [symmetric])
  finally show ?thesis .
qed

lemma merge_values_assoc:
  "merge_values (merge_values a ys) zs = merge_values a (merge_values ys zs)"
  by (simp add: merge_values_nested merge_values_append)

lemma comb_values_assoc: "comb_values (comb_values a b) c = comb_values a (comb_values b c)"
proof (cases c)
  case None
  then show ?thesis by (simp add: comb_values_def)
next
  case (Some zs)
  show ?thesis
  proof (cases "zs = []")
    case True
    with Some show ?thesis by (simp add: comb_values_def)
  next
    case False
    note zs = this
    show ?thesis
    proof (cases b)
      case None
      with Some zs show ?thesis
        using merge_values_nested [of _ "[]" zs]
        by (simp add: comb_values_def merge_values_nonempty)
    next
      case b: (Some ys)
      with Some zs show ?thesis
        using merge_values_nested [of _ "[]" zs]
        by (cases "ys = []") (simp_all add: comb_values_def merge_values_nonempty merge_values_assoc)
    qed
  qed
qed

lemma same_table_iff: "same_table s t \<longleftrightarrow> DAList.lookup s = DAList.lookup t"
  by (simp add: same_table_def DAList.lookup.rep_eq map_of_inject_set)

lemma lookup_update_fun: "DAList.lookup (DAList.update k v t) = (DAList.lookup t)(k \<mapsto> v)"
  by (rule ext) (simp add: DAList.lookup_update)

lemma lookup_insert_each_at:
  "distinct (map fst l) \<Longrightarrow>
     DAList.lookup (hash_table_insert_each l t) x =
       (case map_of l x of Some v \<Rightarrow> Some v | None \<Rightarrow> DAList.lookup t x)"
proof (induction l arbitrary: t)
  case Nil
  show ?case by simp
next
  case (Cons e l)
  obtain k v where e: "e = (k, v)" by (cases e)
  from Cons.prems e have k: "k \<notin> fst ` set l" and d: "distinct (map fst l)" by auto
  from k have "map_of l k = None" by (simp add: map_of_eq_None_iff)
  with Cons.IH [OF d, of "DAList.update k v t"] e show ?case
    by (auto simp: DAList.lookup_update split: option.splits)
qed

lemma lookup_insert_each:
  "distinct (map fst l) \<Longrightarrow>
     DAList.lookup (hash_table_insert_each l t) = DAList.lookup t ++ map_of l"
  by (rule ext) (simp add: lookup_insert_each_at map_add_def)

lemma lookup_insert_table:
  "DAList.lookup (hash_table_insert_each (DAList.impl_of s) t) = DAList.lookup t ++ DAList.lookup s"
proof -
  have "DAList.lookup (hash_table_insert_each (DAList.impl_of s) t)
          = DAList.lookup t ++ map_of (DAList.impl_of s)"
    by (rule lookup_insert_each) simp
  then show ?thesis by (simp only: DAList.lookup.rep_eq)
qed

lemma apply_generic_policy_values_eq:
  "apply_generic_policy_values c key vs =
     (if vs = [] then Some c
      else if CHR ''.'' \<notin> set key then None
      else Some (c\<lparr> generic_policy :=
                    DAList.update key (merge_values (generic_policy_values c key) vs) (generic_policy c) \<rparr>))"
proof (induction vs arbitrary: c)
  case Nil
  show ?case by simp
next
  case (Cons v vs)
  show ?case
  proof (cases "CHR ''.'' \<in> set key")
    case False
    then show ?thesis by (simp add: flatpak_context_apply_generic_policy_def)
  next
    case True
    have step: "flatpak_context_apply_generic_policy c key v =
           Some (c\<lparr> generic_policy := DAList.update key (policy_step v (generic_policy_values c key))
                   (generic_policy c) \<rparr>)"
      using True
      by (simp add: flatpak_context_apply_generic_policy_def generic_policy_values_def policy_step_def
            Let_def apply_generic_policy_loop_filter)
    show ?thesis
      using True
      by (simp add: step Cons.IH generic_policy_values_def DAList.lookup_update)
  qed
qed

lemma merge_generic_policy_abort:
  "list_ex aborting_entry l \<Longrightarrow> merge_generic_policy c l = None"
proof (induction l arbitrary: c)
  case Nil
  then show ?case by simp
next
  case (Cons e l)
  obtain k vs where e: "e = (k, vs)" by (cases e)
  show ?case
  proof (cases "aborting_entry e")
    case True
    with e show ?thesis by (simp add: apply_generic_policy_values_eq aborting_entry_def)
  next
    case False
    with Cons have "merge_generic_policy c' l = None" for c' by simp
    with e show ?thesis by (simp split: option.splits)
  qed
qed

lemma merge_generic_policy_ok:
  assumes "distinct (map fst l)" "\<not> list_ex aborting_entry l"
  shows "\<exists>gp. merge_generic_policy c l = Some (c\<lparr> generic_policy := gp \<rparr>)
           \<and> DAList.lookup gp = comb_table (DAList.lookup (generic_policy c)) (map_of l)"
  using assms
proof (induction l arbitrary: c)
  case Nil
  show ?case
    by (rule exI [of _ "generic_policy c"]) (simp add: comb_table_def comb_values_def fun_eq_iff)
next
  case (Cons e l)
  obtain k vs where e: "e = (k, vs)" by (cases e)
  from Cons.prems e have k: "map_of l k = None" and d: "distinct (map fst l)"
    by (auto simp: map_of_eq_None_iff)
  from Cons.prems have na: "\<not> list_ex aborting_entry l" and "\<not> aborting_entry e"
    by simp_all
  with e have ne: "vs = [] \<or> CHR ''.'' \<in> set k"
    by (auto simp: aborting_entry_def)
  define c1 where "c1 = (if vs = [] then c else c\<lparr> generic_policy :=
                    DAList.update k (merge_values (generic_policy_values c k) vs) (generic_policy c) \<rparr>)"
  have a: "apply_generic_policy_values c k vs = Some c1"
    using ne by (auto simp: apply_generic_policy_values_eq c1_def)
  from Cons.IH [OF d na, of c1] obtain gp where
    gp: "merge_generic_policy c1 l = Some (c1\<lparr> generic_policy := gp \<rparr>)"
    and l: "DAList.lookup gp = comb_table (DAList.lookup (generic_policy c1)) (map_of l)"
    by blast
  have same: "c1\<lparr> generic_policy := gp \<rparr> = c\<lparr> generic_policy := gp \<rparr>"
    by (simp add: c1_def)
  have look: "DAList.lookup gp = comb_table (DAList.lookup (generic_policy c)) (map_of (e # l))"
  proof (rule ext)
    fix x
    have g1: "DAList.lookup (generic_policy c1) y =
                (if y = k \<and> vs \<noteq> [] then Some (merge_values (generic_policy_values c k) vs)
                 else DAList.lookup (generic_policy c) y)" for y
      by (simp add: c1_def DAList.lookup_update)
    show "DAList.lookup gp x = comb_table (DAList.lookup (generic_policy c)) (map_of (e # l)) x"
    proof (cases "x = k")
      case True
      with k e show ?thesis
        by (simp add: l comb_table_def comb_values_def g1 generic_policy_values_def)
    next
      case False
      with e show ?thesis
        by (simp add: l comb_table_def g1)
    qed
  qed
  have "merge_generic_policy c (e # l) = Some (c\<lparr> generic_policy := gp \<rparr>)"
    using a gp e same by simp
  with look show ?case by blast
qed

lemma merge_aborts_iff:
  "merge_aborts other \<longleftrightarrow>
     (\<exists>k vs. DAList.lookup (generic_policy other) k = Some vs \<and> vs \<noteq> [] \<and> CHR ''.'' \<notin> set k)"
proof -
  have "merge_aborts other \<longleftrightarrow> (\<exists>(k, vs) \<in> set (DAList.impl_of (generic_policy other)). vs \<noteq> [] \<and> CHR ''.'' \<notin> set k)"
    by (simp add: merge_aborts_def list_ex_iff)
  also have "\<dots> \<longleftrightarrow> (\<exists>k vs. map_of (DAList.impl_of (generic_policy other)) k = Some vs \<and> vs \<noteq> [] \<and> CHR ''.'' \<notin> set k)"
    by (auto dest: map_of_SomeD)
  finally show ?thesis by (simp add: DAList.lookup.rep_eq)
qed

lemma merge_aborts_list_ex:
  "merge_aborts other = list_ex aborting_entry (DAList.impl_of (generic_policy other))"
  by (simp add: merge_aborts_def aborting_entry_def list_ex_iff case_prod_beta)

lemma merge_None: "merge_aborts other \<Longrightarrow> flatpak_context_merge c other = None"
  by (simp add: flatpak_context_merge_def merge_generic_policy_abort merge_aborts_list_ex)

lemma merge_Some: "\<not> merge_aborts other \<Longrightarrow> \<exists>m. flatpak_context_merge c other = Some m"
proof -
  assume "\<not> merge_aborts other"
  then have na: "\<not> list_ex aborting_entry (DAList.impl_of (generic_policy other))"
    by (simp add: merge_aborts_list_ex)
  have "\<exists>r. merge_generic_policy x (DAList.impl_of (generic_policy other)) = Some r" for x
    using merge_generic_policy_ok [OF _ na, of x] by auto
  then show ?thesis
    unfolding flatpak_context_merge_def by blast
qed

lemma merge_result:
  "\<not> merge_aborts other \<Longrightarrow>
     (let m = the (flatpak_context_merge c other) in
      shares m = merged_bits (shares c) (shares_valid other) (shares other)
      \<and> shares_valid m = shares_valid c OR shares_valid other
      \<and> sockets m = merged_bits (sockets c) (sockets_valid other) (sockets other)
      \<and> sockets_valid m = sockets_valid c OR sockets_valid other
      \<and> devices m = merged_bits (devices c) (devices_valid other) (devices other)
      \<and> devices_valid m = devices_valid c OR devices_valid other
      \<and> features m = merged_bits (features c) (features_valid other) (features other)
      \<and> features_valid m = features_valid c OR features_valid other
      \<and> DAList.lookup (env_vars m) = DAList.lookup (env_vars c) ++ DAList.lookup (env_vars other)
      \<and> DAList.lookup (persistent m) = DAList.lookup (persistent c) ++ DAList.lookup (persistent other)
      \<and> DAList.lookup (filesystems m) = DAList.lookup (filesystems c) ++ DAList.lookup (filesystems other)
      \<and> DAList.lookup (session_bus_policy m)
          = DAList.lookup (session_bus_policy c) ++ DAList.lookup (session_bus_policy other)
      \<and> DAList.lookup (system_bus_policy m)
          = DAList.lookup (system_bus_policy c) ++ DAList.lookup (system_bus_policy other)
      \<and> DAList.lookup (generic_policy m)
          = comb_table (DAList.lookup (generic_policy c)) (DAList.lookup (generic_policy other)))"
proof -
  assume na: "\<not> merge_aborts other"
  let ?c = "(c\<lparr>
          shares := (shares c AND NOT (shares_valid other)) OR shares other,
          shares_valid := shares_valid c OR shares_valid other,
          sockets := (sockets c AND NOT (sockets_valid other)) OR sockets other,
          sockets_valid := sockets_valid c OR sockets_valid other,
          devices := (devices c AND NOT (devices_valid other)) OR devices other,
          devices_valid := devices_valid c OR devices_valid other,
          features := (features c AND NOT (features_valid other)) OR features other,
          features_valid := features_valid c OR features_valid other,
          env_vars := hash_table_insert_each (DAList.impl_of (env_vars other)) (env_vars c),
          persistent := hash_table_insert_each (DAList.impl_of (persistent other)) (persistent c),
          filesystems := hash_table_insert_each (DAList.impl_of (filesystems other)) (filesystems c),
          session_bus_policy :=
            hash_table_insert_each (DAList.impl_of (session_bus_policy other)) (session_bus_policy c),
          system_bus_policy :=
            hash_table_insert_each (DAList.impl_of (system_bus_policy other))
              (hash_table_insert_each (DAList.impl_of (system_bus_policy other)) (system_bus_policy c))
        \<rparr>)"
  from merge_generic_policy_ok [of "DAList.impl_of (generic_policy other)" ?c] na
  obtain gp where gp: "merge_generic_policy ?c (DAList.impl_of (generic_policy other)) = Some (?c\<lparr> generic_policy := gp \<rparr>)"
    and l: "DAList.lookup gp = comb_table (DAList.lookup (generic_policy ?c)) (map_of (DAList.impl_of (generic_policy other)))"
    by (auto simp: merge_aborts_list_ex)
  have m: "the (flatpak_context_merge c other) = ?c\<lparr> generic_policy := gp \<rparr>"
    by (simp add: flatpak_context_merge_def gp)
  have twice: "(a ++ b) ++ b = a ++ b" for a b :: "string \<Rightarrow> FlatpakPolicy option"
    by (simp add: map_add_def fun_eq_iff split: option.splits)
  show "let m = the (flatpak_context_merge c other) in
      shares m = merged_bits (shares c) (shares_valid other) (shares other)
      \<and> shares_valid m = shares_valid c OR shares_valid other
      \<and> sockets m = merged_bits (sockets c) (sockets_valid other) (sockets other)
      \<and> sockets_valid m = sockets_valid c OR sockets_valid other
      \<and> devices m = merged_bits (devices c) (devices_valid other) (devices other)
      \<and> devices_valid m = devices_valid c OR devices_valid other
      \<and> features m = merged_bits (features c) (features_valid other) (features other)
      \<and> features_valid m = features_valid c OR features_valid other
      \<and> DAList.lookup (env_vars m) = DAList.lookup (env_vars c) ++ DAList.lookup (env_vars other)
      \<and> DAList.lookup (persistent m) = DAList.lookup (persistent c) ++ DAList.lookup (persistent other)
      \<and> DAList.lookup (filesystems m) = DAList.lookup (filesystems c) ++ DAList.lookup (filesystems other)
      \<and> DAList.lookup (session_bus_policy m)
          = DAList.lookup (session_bus_policy c) ++ DAList.lookup (session_bus_policy other)
      \<and> DAList.lookup (system_bus_policy m)
          = DAList.lookup (system_bus_policy c) ++ DAList.lookup (system_bus_policy other)
      \<and> DAList.lookup (generic_policy m)
          = comb_table (DAList.lookup (generic_policy c)) (DAList.lookup (generic_policy other))"
    unfolding m Let_def
    by (simp add: merged_bits_def lookup_insert_table twice l DAList.lookup.rep_eq [symmetric])
qed

lemma merged_bits_assoc:
  "merged_bits (merged_bits a bv b) cv c = merged_bits a (bv OR cv) (merged_bits b cv c)"
  by (rule bit_eqI) (auto simp: merged_bits_def bit_and_iff bit_or_iff bit_not_iff)

lemma comb_table_assoc: "comb_table (comb_table m n) p = comb_table m (comb_table n p)"
  by (rule ext) (simp add: comb_table_def comb_values_assoc)

lemma merge_aborts_merged:
  assumes c: "\<not> merge_aborts c"
  shows "merge_aborts (the (flatpak_context_merge b c)) \<longleftrightarrow> merge_aborts b"
proof -
  have look: "DAList.lookup (generic_policy (the (flatpak_context_merge b c)))
          = comb_table (DAList.lookup (generic_policy b)) (DAList.lookup (generic_policy c))"
    using merge_result [OF c, of b] by (simp add: Let_def)
  have "comb_values x (DAList.lookup (generic_policy c) k) = x" if "CHR ''.'' \<notin> set k" for k x
    using c that by (auto simp: merge_aborts_iff comb_values_def split: option.splits)
  then show ?thesis
    unfolding merge_aborts_iff look comb_table_def by metis
qed

text \<open>
  C3. Merging is associative. Either both groupings abort (on a key without a dot in the
  generic policy of the second or third context), or both give a context, and the two
  contexts have the same bit masks and the same tables: for the generic policy too the
  values of every key are the same lists, so they are the same after any deduplication.
\<close>

theorem merge_associative: "rel_option context_equal (merge_left a b c) (merge_right a b c)"
proof (cases "merge_aborts c")
  case True
  then have "merge_left a b c = None"
    by (simp add: merge_left_def merge_None split: option.splits)
  moreover from True have "merge_right a b c = None"
    by (simp add: merge_right_def merge_None)
  ultimately show ?thesis by simp
next
  case c: False
  define bc where "bc = the (flatpak_context_merge b c)"
  have mbc: "flatpak_context_merge b c = Some bc"
    using merge_Some [OF c, of b] by (auto simp: bc_def)
  show ?thesis
  proof (cases "merge_aborts b")
    case True
    then have "merge_left a b c = None"
      by (simp add: merge_left_def merge_None)
    moreover from True have "merge_aborts bc"
      by (simp add: bc_def merge_aborts_merged [OF c])
    then have "merge_right a b c = None"
      by (simp add: merge_right_def mbc merge_None)
    ultimately show ?thesis by simp
  next
    case b: False
    define ab where "ab = the (flatpak_context_merge a b)"
    have mab: "flatpak_context_merge a b = Some ab"
      using merge_Some [OF b, of a] by (auto simp: ab_def)
    have nbc: "\<not> merge_aborts bc"
      using b by (simp add: bc_def merge_aborts_merged [OF c])
    define l where "l = the (flatpak_context_merge ab c)"
    define r where "r = the (flatpak_context_merge a bc)"
    have ml: "merge_left a b c = Some l"
      using merge_Some [OF c, of ab] by (auto simp: merge_left_def mab l_def)
    have mr: "merge_right a b c = Some r"
      using merge_Some [OF nbc, of a] by (auto simp: merge_right_def mbc r_def)
    note fab = merge_result [OF b, of a, folded ab_def, unfolded Let_def]
    note fbc = merge_result [OF c, of b, folded bc_def, unfolded Let_def]
    note fl = merge_result [OF c, of ab, folded l_def, unfolded Let_def]
    note fr = merge_result [OF nbc, of a, folded r_def, unfolded Let_def]
    have "context_equal l r"
      unfolding context_equal_def same_table_iff
      using fab fbc fl fr
      by (simp add: merged_bits_assoc comb_table_assoc ac_simps)
    with ml mr show ?thesis by simp
  qed
qed

lemmas example_context_defs = example_context_a_def example_context_b_def example_context_c_def
  flatpak_context_new_def

theorem merge_associative_witness:
  "rel_option context_equal
     (merge_left example_context_a example_context_b example_context_c)
     (merge_right example_context_a example_context_b example_context_c)
   \<and> map_option (\<lambda>m. (shares m, shares_valid m, DAList.impl_of (env_vars m),
                         DAList.impl_of (generic_policy m)))
       (merge_left example_context_a example_context_b example_context_c)
     = Some (2, 3, [(''A'', Some ''2'')], [(''s.k'', [''y'', ''!x'', ''z''])])"
  using merge_associative [of example_context_a example_context_b example_context_c]
  by (simp add: merge_left_def flatpak_context_merge_def example_context_defs
        DAList.update.rep_eq DAList.empty.rep_eq DAList.lookup.rep_eq
        flatpak_context_apply_generic_policy_def Let_def)

subsection \<open>The round trip through a key file\<close>

lemma apply_writes_append: "apply_writes (a @ b) kf = apply_writes b (apply_writes a kf)"
  by (induction a arbitrary: kf) simp_all

lemma update_fresh: "k \<notin> fst ` set al \<Longrightarrow> AList.update k v al = al @ [(k, v)]"
  by (induction al) auto

lemma entries_apply_writes:
  "distinct (map fst (kf_entries kf @ ws)) \<Longrightarrow> kf_entries (apply_writes ws kf) = kf_entries kf @ ws"
proof (induction ws arbitrary: kf)
  case Nil
  show ?case by simp
next
  case (Cons w ws)
  obtain g k v where w: "w = ((g, k), v)" by (cases w) auto
  from Cons.prems w have fresh: "(g, k) \<notin> fst ` set (kf_entries kf)" by auto
  have e: "kf_entries (g_key_file_set_value kf g k v) = kf_entries kf @ [w]"
    using fresh w by (simp add: g_key_file_set_value_def update_fresh)
  from Cons.prems have "distinct (map fst (kf_entries (g_key_file_set_value kf g k v) @ ws))"
    by (simp add: e)
  from Cons.IH [OF this] w e show ?case by simp
qed

lemma groups_apply_writes:
  "set (kf_groups (apply_writes ws kf)) = set (kf_groups kf) \<union> (\<lambda>w. fst (fst w)) ` set ws"
  by (induction ws arbitrary: kf) (auto simp: g_key_file_set_value_def)

lemma distinct_groups_apply_writes:
  "distinct (kf_groups kf) \<Longrightarrow> distinct (kf_groups (apply_writes ws kf))"
  by (induction ws arbitrary: kf) (auto simp: g_key_file_set_value_def)

lemma remove_key_absent:
  "(g, k) \<notin> fst ` set (kf_entries kf) \<Longrightarrow> g_key_file_remove_key kf g k = kf"
  by (simp add: g_key_file_remove_key_def)

lemma remove_group_absent:
  assumes "g \<notin> set (kf_groups kf)" "g \<notin> (\<lambda>w. fst (fst w)) ` set (kf_entries kf)"
  shows "g_key_file_remove_group kf g = kf"
proof -
  from assms(2) have "filter (\<lambda>e. fst (fst e) \<noteq> g) (kf_entries kf) = kf_entries kf"
    by (auto simp: filter_id_conv)
  with assms(1) show ?thesis by (simp add: g_key_file_remove_group_def)
qed

lemma save_bus_policy_loop_writes:
  "save_bus_policy_loop g l kf =
     apply_writes (map (\<lambda>(key, policy). ((g, key), KF_string (flatpak_policy_to_string policy)))
                     (filter (\<lambda>(key, policy). policy \<noteq> FLATPAK_POLICY_NONE) l)) kf"
  by (induction l arbitrary: kf) (auto simp: g_key_file_set_string_def)

lemma save_environment_loop_writes:
  "save_environment_loop l kf =
     apply_writes (map (\<lambda>(key, v). ((FLATPAK_METADATA_GROUP_ENVIRONMENT, key), KF_string (the v)))
                     (filter (\<lambda>(key, v). v \<noteq> None) l)) kf"
  by (induction l arbitrary: kf) (auto simp: g_key_file_set_string_def)

lemma save_generic_policy_loop_writes:
  "list_all (\<lambda>(key, vs). CHR ''.'' \<in> set key) l \<Longrightarrow>
   save_generic_policy_loop flatten l kf =
     Some (apply_writes (map (policy_write flatten)
                           (filter (\<lambda>e. policy_values_written flatten (snd e) \<noteq> []) l)) kf)"
  by (induction l arbitrary: kf)
     (auto simp: g_key_file_set_string_list_def policy_write_def policy_values_written_def Let_def)

lemma remove_policy_groups_loop_id:
  "list_all (\<lambda>g. \<not> g_str_has_prefix g FLATPAK_METADATA_GROUP_PREFIX_POLICY) gs
     \<Longrightarrow> remove_policy_groups_loop gs kf = kf"
  by (induction gs arbitrary: kf) auto

lemma keys_apply_writes:
  "fst ` set (kf_entries (apply_writes ws kf)) = fst ` set (kf_entries kf) \<union> fst ` set ws"
  by (induction ws arbitrary: kf) (auto simp: g_key_file_set_value_def dom_update)

lemma groups_apply_writes':
  "set (kf_groups (apply_writes ws kf)) = set (kf_groups kf) \<union> write_group ` set ws"
  by (simp add: groups_apply_writes write_group_def)

lemma entry_groups_apply_writes:
  "write_group ` set (kf_entries (apply_writes ws kf))
     = write_group ` set (kf_entries kf) \<union> write_group ` set ws"
proof -
  have "write_group ` set es = fst ` fst ` set es" for es :: "kf_write list"
    by (force simp: write_group_def image_iff)
  then show ?thesis by (simp add: keys_apply_writes image_Un)
qed

lemma save_bitmask_key_writes:
  "(FLATPAK_METADATA_GROUP_CONTEXT, key) \<notin> fst ` set (kf_entries kf) \<Longrightarrow>
     save_bitmask_key kf key names = apply_writes (context_write key (names \<noteq> []) names) kf"
  by (simp add: save_bitmask_key_def context_write_def g_key_file_set_string_list_def remove_key_absent)

lemma save_filesystems_writes:
  "(FLATPAK_METADATA_GROUP_CONTEXT, FLATPAK_METADATA_KEY_FILESYSTEMS) \<notin> fst ` set (kf_entries kf) \<Longrightarrow>
     save_filesystems c kf =
       apply_writes (context_write FLATPAK_METADATA_KEY_FILESYSTEMS (DAList.impl_of (filesystems c) \<noteq> [])
         (save_filesystems_loop (DAList.impl_of (filesystems c)))) kf"
  by (simp add: save_filesystems_def context_write_def g_key_file_set_string_list_def remove_key_absent)

lemma save_persistent_writes:
  "(FLATPAK_METADATA_GROUP_CONTEXT, FLATPAK_METADATA_KEY_PERSISTENT) \<notin> fst ` set (kf_entries kf) \<Longrightarrow>
     save_persistent c kf =
       apply_writes (context_write FLATPAK_METADATA_KEY_PERSISTENT (DAList.impl_of (persistent c) \<noteq> [])
         (map fst (DAList.impl_of (persistent c)))) kf"
  by (simp add: save_persistent_def context_write_def g_key_file_set_string_list_def remove_key_absent)

lemmas metadata_names =
  FLATPAK_METADATA_GROUP_CONTEXT_def FLATPAK_METADATA_KEY_SHARED_def FLATPAK_METADATA_KEY_SOCKETS_def
  FLATPAK_METADATA_KEY_DEVICES_def FLATPAK_METADATA_KEY_FEATURES_def FLATPAK_METADATA_KEY_FILESYSTEMS_def
  FLATPAK_METADATA_KEY_PERSISTENT_def FLATPAK_METADATA_GROUP_SESSION_BUS_POLICY_def
  FLATPAK_METADATA_GROUP_SYSTEM_BUS_POLICY_def FLATPAK_METADATA_GROUP_ENVIRONMENT_def
  FLATPAK_METADATA_GROUP_PREFIX_POLICY_def

lemma write_group_context_write:
  "write_group ` set (context_write key present l) \<subseteq> {FLATPAK_METADATA_GROUP_CONTEXT}"
  by (auto simp: context_write_def write_group_def)

lemma write_group_context_writes:
  "write_group ` set (context_writes flatten c) \<subseteq> {FLATPAK_METADATA_GROUP_CONTEXT}"
  unfolding context_writes_def set_append image_Un
  using write_group_context_write by (intro Un_least) blast+

lemma write_group_bus_writes: "write_group ` set (bus_writes g l) \<subseteq> {g}"
  by (auto simp: bus_writes_def write_group_def)

lemma write_group_env_writes: "write_group ` set (env_writes l) \<subseteq> {FLATPAK_METADATA_GROUP_ENVIRONMENT}"
  by (auto simp: env_writes_def write_group_def)

lemma keys_context_write: "fst ` set (context_write key present l) \<subseteq> {(FLATPAK_METADATA_GROUP_CONTEXT, key)}"
  by (auto simp: context_write_def)

lemma new_entries [simp]: "kf_entries g_key_file_new = []" "kf_groups g_key_file_new = []"
  by (simp_all add: g_key_file_new_def)

lemma key_names_distinct:
  "FLATPAK_METADATA_KEY_SOCKETS \<noteq> FLATPAK_METADATA_KEY_SHARED"
  "FLATPAK_METADATA_KEY_DEVICES \<noteq> FLATPAK_METADATA_KEY_SHARED"
  "FLATPAK_METADATA_KEY_DEVICES \<noteq> FLATPAK_METADATA_KEY_SOCKETS"
  "FLATPAK_METADATA_KEY_FEATURES \<noteq> FLATPAK_METADATA_KEY_SHARED"
  "FLATPAK_METADATA_KEY_FEATURES \<noteq> FLATPAK_METADATA_KEY_SOCKETS"
  "FLATPAK_METADATA_KEY_FEATURES \<noteq> FLATPAK_METADATA_KEY_DEVICES"
  "FLATPAK_METADATA_KEY_FILESYSTEMS \<noteq> FLATPAK_METADATA_KEY_SHARED"
  "FLATPAK_METADATA_KEY_FILESYSTEMS \<noteq> FLATPAK_METADATA_KEY_SOCKETS"
  "FLATPAK_METADATA_KEY_FILESYSTEMS \<noteq> FLATPAK_METADATA_KEY_DEVICES"
  "FLATPAK_METADATA_KEY_FILESYSTEMS \<noteq> FLATPAK_METADATA_KEY_FEATURES"
  "FLATPAK_METADATA_KEY_PERSISTENT \<noteq> FLATPAK_METADATA_KEY_SHARED"
  "FLATPAK_METADATA_KEY_PERSISTENT \<noteq> FLATPAK_METADATA_KEY_SOCKETS"
  "FLATPAK_METADATA_KEY_PERSISTENT \<noteq> FLATPAK_METADATA_KEY_DEVICES"
  "FLATPAK_METADATA_KEY_PERSISTENT \<noteq> FLATPAK_METADATA_KEY_FEATURES"
  "FLATPAK_METADATA_KEY_PERSISTENT \<noteq> FLATPAK_METADATA_KEY_FILESYSTEMS"
  by (simp_all add: metadata_names)

lemma context_write_key:
  "(g, key) \<in> fst ` set (context_write key' present l)
     \<longleftrightarrow> present \<and> g = FLATPAK_METADATA_GROUP_CONTEXT \<and> key = key'"
  by (auto simp: context_write_def)

lemma save_bitmask_key_after:
  "(FLATPAK_METADATA_GROUP_CONTEXT, key) \<notin> fst ` set ws \<Longrightarrow>
     save_bitmask_key (apply_writes ws g_key_file_new) key names
       = apply_writes (ws @ context_write key (names \<noteq> []) names) g_key_file_new"
  by (simp add: save_bitmask_key_writes keys_apply_writes apply_writes_append)

lemma save_filesystems_after:
  "(FLATPAK_METADATA_GROUP_CONTEXT, FLATPAK_METADATA_KEY_FILESYSTEMS) \<notin> fst ` set ws \<Longrightarrow>
     save_filesystems c (apply_writes ws g_key_file_new)
       = apply_writes (ws @ context_write FLATPAK_METADATA_KEY_FILESYSTEMS (DAList.impl_of (filesystems c) \<noteq> [])
         (save_filesystems_loop (DAList.impl_of (filesystems c)))) g_key_file_new"
  by (simp add: save_filesystems_writes keys_apply_writes apply_writes_append)

lemma save_persistent_after:
  "(FLATPAK_METADATA_GROUP_CONTEXT, FLATPAK_METADATA_KEY_PERSISTENT) \<notin> fst ` set ws \<Longrightarrow>
     save_persistent c (apply_writes ws g_key_file_new)
       = apply_writes (ws @ context_write FLATPAK_METADATA_KEY_PERSISTENT (DAList.impl_of (persistent c) \<noteq> [])
         (map fst (DAList.impl_of (persistent c)))) g_key_file_new"
  by (simp add: save_persistent_writes keys_apply_writes apply_writes_append)

lemma save_context_part:
  "save_persistent c (save_filesystems c
     (save_bitmask_key
       (save_bitmask_key
         (save_bitmask_key
           (save_bitmask_key g_key_file_new FLATPAK_METADATA_KEY_SHARED shared)
           FLATPAK_METADATA_KEY_SOCKETS sockets_s)
         FLATPAK_METADATA_KEY_DEVICES devices_s)
       FLATPAK_METADATA_KEY_FEATURES features_s))
   = apply_writes
      (context_write FLATPAK_METADATA_KEY_SHARED (shared \<noteq> []) shared
       @ context_write FLATPAK_METADATA_KEY_SOCKETS (sockets_s \<noteq> []) sockets_s
       @ context_write FLATPAK_METADATA_KEY_DEVICES (devices_s \<noteq> []) devices_s
       @ context_write FLATPAK_METADATA_KEY_FEATURES (features_s \<noteq> []) features_s
       @ context_write FLATPAK_METADATA_KEY_FILESYSTEMS (DAList.impl_of (filesystems c) \<noteq> [])
           (save_filesystems_loop (DAList.impl_of (filesystems c)))
       @ context_write FLATPAK_METADATA_KEY_PERSISTENT (DAList.impl_of (persistent c) \<noteq> [])
           (map fst (DAList.impl_of (persistent c)))) g_key_file_new"
proof -
  note fresh = context_write_key key_names_distinct image_Un
  have start: "g_key_file_new = apply_writes [] g_key_file_new" by simp
  show ?thesis
    apply (subst start)
    apply (subst save_bitmask_key_after, simp)
    apply (subst save_bitmask_key_after, simp add: fresh)
    apply (subst save_bitmask_key_after, simp add: fresh)
    apply (subst save_bitmask_key_after, simp add: fresh)
    apply (subst save_filesystems_after, simp add: fresh)
    apply (subst save_persistent_after, simp add: fresh)
    apply simp
    done
qed

lemma remove_group_fresh:
  assumes "g \<notin> write_group ` set ws"
  shows "g_key_file_remove_group (apply_writes ws g_key_file_new) g = apply_writes ws g_key_file_new"
proof (rule remove_group_absent)
  show "g \<notin> set (kf_groups (apply_writes ws g_key_file_new))"
    using assms by (simp add: groups_apply_writes')
  have "write_group ` set (kf_entries (apply_writes ws g_key_file_new)) = write_group ` set ws"
    by (simp add: entry_groups_apply_writes)
  then show "g \<notin> (\<lambda>w. fst (fst w)) ` set (kf_entries (apply_writes ws g_key_file_new))"
    using assms unfolding write_group_def by simp
qed

lemma group_names_distinct:
  "FLATPAK_METADATA_GROUP_SESSION_BUS_POLICY \<noteq> FLATPAK_METADATA_GROUP_CONTEXT"
  "FLATPAK_METADATA_GROUP_SYSTEM_BUS_POLICY \<noteq> FLATPAK_METADATA_GROUP_CONTEXT"
  "FLATPAK_METADATA_GROUP_SYSTEM_BUS_POLICY \<noteq> FLATPAK_METADATA_GROUP_SESSION_BUS_POLICY"
  "FLATPAK_METADATA_GROUP_ENVIRONMENT \<noteq> FLATPAK_METADATA_GROUP_CONTEXT"
  "FLATPAK_METADATA_GROUP_ENVIRONMENT \<noteq> FLATPAK_METADATA_GROUP_SESSION_BUS_POLICY"
  "FLATPAK_METADATA_GROUP_ENVIRONMENT \<noteq> FLATPAK_METADATA_GROUP_SYSTEM_BUS_POLICY"
  "\<not> g_str_has_prefix FLATPAK_METADATA_GROUP_CONTEXT FLATPAK_METADATA_GROUP_PREFIX_POLICY"
  "\<not> g_str_has_prefix FLATPAK_METADATA_GROUP_SESSION_BUS_POLICY FLATPAK_METADATA_GROUP_PREFIX_POLICY"
  "\<not> g_str_has_prefix FLATPAK_METADATA_GROUP_SYSTEM_BUS_POLICY FLATPAK_METADATA_GROUP_PREFIX_POLICY"
  "\<not> g_str_has_prefix FLATPAK_METADATA_GROUP_ENVIRONMENT FLATPAK_METADATA_GROUP_PREFIX_POLICY"
  by (simp_all add: metadata_names g_str_has_prefix_def)

lemma write_group_fixed_writes:
  "write_group ` set (fixed_writes flatten c) \<subseteq>
     {FLATPAK_METADATA_GROUP_CONTEXT, FLATPAK_METADATA_GROUP_SESSION_BUS_POLICY,
      FLATPAK_METADATA_GROUP_SYSTEM_BUS_POLICY, FLATPAK_METADATA_GROUP_ENVIRONMENT}"
proof
  fix g assume "g \<in> write_group ` set (fixed_writes flatten c)"
  then consider "g \<in> write_group ` set (context_writes flatten c)"
    | "g \<in> write_group ` set (bus_writes FLATPAK_METADATA_GROUP_SESSION_BUS_POLICY (DAList.impl_of (session_bus_policy c)))"
    | "g \<in> write_group ` set (bus_writes FLATPAK_METADATA_GROUP_SYSTEM_BUS_POLICY (DAList.impl_of (system_bus_policy c)))"
    | "g \<in> write_group ` set (env_writes (DAList.impl_of (env_vars c)))"
    unfolding fixed_writes_def set_append image_Un by blast
  then show "g \<in> {FLATPAK_METADATA_GROUP_CONTEXT, FLATPAK_METADATA_GROUP_SESSION_BUS_POLICY,
      FLATPAK_METADATA_GROUP_SYSTEM_BUS_POLICY, FLATPAK_METADATA_GROUP_ENVIRONMENT}"
  proof cases
    case 1 then show ?thesis using write_group_context_writes [of flatten c] by blast
  next
    case 2 then show ?thesis using write_group_bus_writes by blast
  next
    case 3 then show ?thesis using write_group_bus_writes by blast
  next
    case 4 then show ?thesis using write_group_env_writes by blast
  qed
qed

lemma save_tail:
  assumes dots: "list_all (\<lambda>(key, vs). CHR ''.'' \<in> set key) (DAList.impl_of (generic_policy c))"
  shows "save_generic_policy_loop flatten (DAList.impl_of (generic_policy c))
          (remove_policy_groups_loop
            (g_key_file_get_groups
              (save_environment_loop (DAList.impl_of (env_vars c))
                (g_key_file_remove_group
                  (save_bus_policy_loop FLATPAK_METADATA_GROUP_SYSTEM_BUS_POLICY
                    (DAList.impl_of (system_bus_policy c))
                    (g_key_file_remove_group
                      (save_bus_policy_loop FLATPAK_METADATA_GROUP_SESSION_BUS_POLICY
                        (DAList.impl_of (session_bus_policy c))
                        (g_key_file_remove_group (apply_writes (context_writes flatten c) g_key_file_new)
                           FLATPAK_METADATA_GROUP_SESSION_BUS_POLICY))
                      FLATPAK_METADATA_GROUP_SYSTEM_BUS_POLICY))
                  FLATPAK_METADATA_GROUP_ENVIRONMENT)))
            (save_environment_loop (DAList.impl_of (env_vars c))
              (g_key_file_remove_group
                (save_bus_policy_loop FLATPAK_METADATA_GROUP_SYSTEM_BUS_POLICY
                  (DAList.impl_of (system_bus_policy c))
                  (g_key_file_remove_group
                    (save_bus_policy_loop FLATPAK_METADATA_GROUP_SESSION_BUS_POLICY
                      (DAList.impl_of (session_bus_policy c))
                      (g_key_file_remove_group (apply_writes (context_writes flatten c) g_key_file_new)
                         FLATPAK_METADATA_GROUP_SESSION_BUS_POLICY))
                    FLATPAK_METADATA_GROUP_SYSTEM_BUS_POLICY))
                FLATPAK_METADATA_GROUP_ENVIRONMENT)))
         = Some (apply_writes (all_writes flatten c) g_key_file_new)"
proof -
  let ?cw = "context_writes flatten c"
  let ?sw = "bus_writes FLATPAK_METADATA_GROUP_SESSION_BUS_POLICY (DAList.impl_of (session_bus_policy c))"
  let ?yw = "bus_writes FLATPAK_METADATA_GROUP_SYSTEM_BUS_POLICY (DAList.impl_of (system_bus_policy c))"
  let ?ew = "env_writes (DAList.impl_of (env_vars c))"
  note cg = write_group_context_writes [of flatten c]
  note sg = write_group_bus_writes [of FLATPAK_METADATA_GROUP_SESSION_BUS_POLICY "DAList.impl_of (session_bus_policy c)"]
  note yg = write_group_bus_writes [of FLATPAK_METADATA_GROUP_SYSTEM_BUS_POLICY "DAList.impl_of (system_bus_policy c)"]
  have g1: "FLATPAK_METADATA_GROUP_SESSION_BUS_POLICY \<notin> write_group ` set ?cw"
    using cg group_names_distinct(1) by blast
  have g2: "FLATPAK_METADATA_GROUP_SYSTEM_BUS_POLICY \<notin> write_group ` set (?cw @ ?sw)"
    unfolding set_append image_Un
    using cg sg group_names_distinct(2,3) by blast
  have g3: "FLATPAK_METADATA_GROUP_ENVIRONMENT \<notin> write_group ` set (?cw @ ?sw @ ?yw)"
    unfolding set_append image_Un
    using cg sg yg group_names_distinct(4,5,6) by blast
  have k7: "save_bus_policy_loop FLATPAK_METADATA_GROUP_SESSION_BUS_POLICY
              (DAList.impl_of (session_bus_policy c))
              (g_key_file_remove_group (apply_writes ?cw g_key_file_new) FLATPAK_METADATA_GROUP_SESSION_BUS_POLICY)
            = apply_writes (?cw @ ?sw) g_key_file_new"
    by (subst remove_group_fresh [OF g1])
       (simp only: save_bus_policy_loop_writes apply_writes_append bus_writes_def)
  have k8: "save_bus_policy_loop FLATPAK_METADATA_GROUP_SYSTEM_BUS_POLICY
              (DAList.impl_of (system_bus_policy c))
              (g_key_file_remove_group (apply_writes (?cw @ ?sw) g_key_file_new) FLATPAK_METADATA_GROUP_SYSTEM_BUS_POLICY)
            = apply_writes (?cw @ ?sw @ ?yw) g_key_file_new"
    by (subst remove_group_fresh [OF g2])
       (simp only: save_bus_policy_loop_writes apply_writes_append bus_writes_def)
  have k9: "save_environment_loop (DAList.impl_of (env_vars c))
              (g_key_file_remove_group (apply_writes (?cw @ ?sw @ ?yw) g_key_file_new) FLATPAK_METADATA_GROUP_ENVIRONMENT)
            = apply_writes (fixed_writes flatten c) g_key_file_new"
    by (subst remove_group_fresh [OF g3])
       (simp only: save_environment_loop_writes apply_writes_append env_writes_def fixed_writes_def)
  have "\<forall>g \<in> set (kf_groups (apply_writes (fixed_writes flatten c) g_key_file_new)).
          \<not> g_str_has_prefix g FLATPAK_METADATA_GROUP_PREFIX_POLICY"
  proof
    fix g assume "g \<in> set (kf_groups (apply_writes (fixed_writes flatten c) g_key_file_new))"
    then have "g \<in> write_group ` set (fixed_writes flatten c)"
      by (simp add: groups_apply_writes')
    then have "g \<in> {FLATPAK_METADATA_GROUP_CONTEXT, FLATPAK_METADATA_GROUP_SESSION_BUS_POLICY,
      FLATPAK_METADATA_GROUP_SYSTEM_BUS_POLICY, FLATPAK_METADATA_GROUP_ENVIRONMENT}"
      using write_group_fixed_writes [of flatten c] by blast
    then show "\<not> g_str_has_prefix g FLATPAK_METADATA_GROUP_PREFIX_POLICY"
      using group_names_distinct(7-10) by blast
  qed
  then have k10: "remove_policy_groups_loop
              (g_key_file_get_groups (apply_writes (fixed_writes flatten c) g_key_file_new))
              (apply_writes (fixed_writes flatten c) g_key_file_new)
            = apply_writes (fixed_writes flatten c) g_key_file_new"
    by (intro remove_policy_groups_loop_id) (simp add: list_all_iff g_key_file_get_groups_def)
  have all: "all_writes flatten c = fixed_writes flatten c @ policy_writes flatten (DAList.impl_of (generic_policy c))"
    by (simp add: all_writes_def fixed_writes_def)
  show ?thesis
    apply (simp only: k7)
    apply (simp only: k8)
    apply (simp only: k9)
    apply (simp only: k10)
    apply (simp only: all apply_writes_append save_generic_policy_loop_writes [OF dots] policy_writes_def)
    done
qed

lemma context_writes_unfolded:
  "context_write FLATPAK_METADATA_KEY_SHARED
        (flatpak_context_shared_to_string (if flatten then shares c AND shares_valid c else shares c)
           (if flatten then (if flatten then shares c AND shares_valid c else shares c) else shares_valid c) \<noteq> [])
        (flatpak_context_shared_to_string (if flatten then shares c AND shares_valid c else shares c)
           (if flatten then (if flatten then shares c AND shares_valid c else shares c) else shares_valid c))
      @ context_write FLATPAK_METADATA_KEY_SOCKETS
        (flatpak_context_sockets_to_string (if flatten then sockets c AND sockets_valid c else sockets c)
           (if flatten then (if flatten then sockets c AND sockets_valid c else sockets c) else sockets_valid c) \<noteq> [])
        (flatpak_context_sockets_to_string (if flatten then sockets c AND sockets_valid c else sockets c)
           (if flatten then (if flatten then sockets c AND sockets_valid c else sockets c) else sockets_valid c))
      @ context_write FLATPAK_METADATA_KEY_DEVICES
        (flatpak_context_devices_to_string (if flatten then devices c AND devices_valid c else devices c)
           (if flatten then (if flatten then devices c AND devices_valid c else devices c) else devices_valid c) \<noteq> [])
        (flatpak_context_devices_to_string (if flatten then devices c AND devices_valid c else devices c)
           (if flatten then (if flatten then devices c AND devices_valid c else devices c) else devices_valid c))
      @ context_write FLATPAK_METADATA_KEY_FEATURES
        (flatpak_context_features_to_string (if flatten then features c AND features c else features c)
           (if flatten then (if flatten then features c AND features c else features c) else features c) \<noteq> [])
        (flatpak_context_features_to_string (if flatten then features c AND features c else features c)
           (if flatten then (if flatten then features c AND features c else features c) else features c))
      @ context_write FLATPAK_METADATA_KEY_FILESYSTEMS (DAList.impl_of (filesystems c) \<noteq> [])
          (save_filesystems_loop (DAList.impl_of (filesystems c)))
      @ context_write FLATPAK_METADATA_KEY_PERSISTENT (DAList.impl_of (persistent c) \<noteq> [])
          (map fst (DAList.impl_of (persistent c)))
   = context_writes flatten c"
  by (cases flatten)
     (simp_all only: context_writes_def saved_shared_def saved_sockets_def saved_devices_def
        saved_features_def if_True if_False and.idem)

lemma save_metadata_writes:
  assumes dots: "list_all (\<lambda>(key, vs). CHR ''.'' \<in> set key) (DAList.impl_of (generic_policy c))"
  shows "flatpak_context_save_metadata c flatten g_key_file_new
           = Some (apply_writes (all_writes flatten c) g_key_file_new)"
  unfolding flatpak_context_save_metadata_def Let_def save_context_part context_writes_unfolded
  by (rule save_tail [OF dots])

lemma load_bitmask_loop_lens:
  assumes add: "\<And>c s. add c s = put c (fst (get c) OR s, snd (get c) OR s)"
    and remove: "\<And>c s. remove c s = put c (fst (get c) AND NOT s, snd (get c) OR s)"
    and get_put: "\<And>c p. get (put c p) = p"
    and put_put: "\<And>c p q. put (put c p) q = put c q"
    and put_get: "\<And>c. put c (get c) = c"
  shows "load_bitmask_loop from_string add remove c l
           = (fst (bits_loop from_string (get c) l), put c (snd (bits_loop from_string (get c) l)))"
proof (induction l arbitrary: c)
  case Nil
  show ?case by (simp add: put_get)
next
  case (Cons entry entries)
  show ?case
    by (simp add: Cons.IH Let_def split: prod.splits) (simp add: add remove get_put put_put put_get)
qed

lemma from_string_index:
  "distinct (pre @ n # rest) \<Longrightarrow>
     bitmask_from_string_loop k n (pre @ n # rest) = push_bit (k + length pre) 1"
  by (induction pre arbitrary: k) auto

lemma exp_nonzero: "i < 32 \<Longrightarrow> (2 :: guint32) ^ i \<noteq> 0"
proof
  assume "i < 32" "(2 :: guint32) ^ i = 0"
  then have "bit ((2 :: guint32) ^ i) i = bit (0 :: guint32) i" by simp
  with \<open>i < 32\<close> show False by (simp add: bit_exp_iff)
qed

lemma and_exp_zero: "(w AND 2 ^ i = 0) = (\<not> bit (w :: guint32) i)"
  using bit_iff_and_push_bit_not_eq_0 [of w i] by simp

lemma parse_negated_bang: "parse_negated (CHR ''!'' # n) = (n, True)"
  by (simp add: parse_negated_def g_str_has_prefix_def)

lemma parse_negated_plain: "\<not> g_str_has_prefix n ''!'' \<Longrightarrow> parse_negated n = (n, False)"
  by (simp add: parse_negated_def)

lemma bits_loop_to_string:
  assumes "distinct (pre @ names)"
    and "\<forall>n \<in> set names. \<not> g_str_has_prefix n ''!''"
    and "length (pre @ names) \<le> 32"
  shows "\<exists>b' v'. bits_loop (\<lambda>s. bitmask_from_string_loop 0 s (pre @ names)) (b0, v0)
                   (bitmask_to_string_loop (length pre) e v names) = (True, b', v')
           \<and> (\<forall>m. bit v' m = (bit v0 m \<or> (length pre \<le> m \<and> m < length (pre @ names) \<and> bit v m)))
           \<and> (\<forall>m. bit b' m = (if length pre \<le> m \<and> m < length (pre @ names) \<and> bit v m
                                then bit e m else bit b0 m))"
  using assms
proof (induction names arbitrary: pre b0 v0)
  case Nil
  show ?case by auto
next
  case (Cons n names)
  let ?i = "length pre"
  have i32: "?i < 32" using Cons.prems(3) by simp
  have idx: "bitmask_from_string_loop 0 n (pre @ n # names) = push_bit ?i 1"
    using from_string_index [OF Cons.prems(1), of 0] by simp
  have plain: "parse_negated n = (n, False)"
    using Cons.prems(2) by (simp add: parse_negated_plain)
  have step: "\<exists>b' v'. bits_loop (\<lambda>s. bitmask_from_string_loop 0 s ((pre @ [n]) @ names)) (b1, v1)
                   (bitmask_to_string_loop (length (pre @ [n])) e v names) = (True, b', v')
           \<and> (\<forall>m. bit v' m = (bit v1 m \<or> (length (pre @ [n]) \<le> m \<and> m < length ((pre @ [n]) @ names) \<and> bit v m)))
           \<and> (\<forall>m. bit b' m = (if length (pre @ [n]) \<le> m \<and> m < length ((pre @ [n]) @ names) \<and> bit v m
                                then bit e m else bit b1 m))" for b1 v1
    using Cons.prems by (intro Cons.IH) auto
  show ?case
  proof (cases "bit v ?i")
    case False
    from step [of b0 v0] obtain b' v' where
      r: "bits_loop (\<lambda>s. bitmask_from_string_loop 0 s (pre @ n # names)) (b0, v0)
                   (bitmask_to_string_loop (Suc ?i) e v names) = (True, b', v')"
      and v: "\<And>m. bit v' m = (bit v0 m \<or> (Suc ?i \<le> m \<and> m < Suc (?i + length names) \<and> bit v m))"
      and b: "\<And>m. bit b' m = (if Suc ?i \<le> m \<and> m < Suc (?i + length names) \<and> bit v m
                                then bit e m else bit b0 m)"
      by auto
    have "\<And>m. (?i \<le> m \<and> m < Suc (?i + length names) \<and> bit v m)
             = (Suc ?i \<le> m \<and> m < Suc (?i + length names) \<and> bit v m)"
      using False by (metis Suc_leI le_neq_implies_less Suc_leD)
    then show ?thesis
      using False r v b by (simp add: and_exp_zero Let_def)
  next
    case True
    show ?thesis
    proof (cases "bit e ?i")
      case e: True
      from step [of "b0 OR push_bit ?i 1" "v0 OR push_bit ?i 1"] obtain b' v' where
        r: "bits_loop (\<lambda>s. bitmask_from_string_loop 0 s (pre @ n # names))
                     (b0 OR push_bit ?i 1, v0 OR push_bit ?i 1)
                     (bitmask_to_string_loop (Suc ?i) e v names) = (True, b', v')"
        and v: "\<And>m. bit v' m = (bit (v0 OR push_bit ?i 1) m \<or> (Suc ?i \<le> m \<and> m < Suc (?i + length names) \<and> bit v m))"
        and b: "\<And>m. bit b' m = (if Suc ?i \<le> m \<and> m < Suc (?i + length names) \<and> bit v m
                                  then bit e m else bit (b0 OR push_bit ?i 1) m)"
        by auto
      have v': "bit v' m = (bit v0 m \<or> (?i \<le> m \<and> m < Suc (?i + length names) \<and> bit v m))" for m
        using True i32 unfolding v [of m]
        by (cases "m = ?i") (auto simp: bit_or_iff bit_exp_iff)
      have b': "bit b' m = (if ?i \<le> m \<and> m < Suc (?i + length names) \<and> bit v m
                                  then bit e m else bit b0 m)" for m
        using True e i32 unfolding b [of m]
        by (cases "m = ?i") (auto simp: bit_or_iff bit_exp_iff)
      show ?thesis
        using True e r v' b' i32
        by (simp add: and_exp_zero Let_def plain idx exp_nonzero)
    next
      case e: False
      from step [of "b0 AND NOT (push_bit ?i 1)" "v0 OR push_bit ?i 1"] obtain b' v' where
        r: "bits_loop (\<lambda>s. bitmask_from_string_loop 0 s (pre @ n # names))
                     (b0 AND NOT (push_bit ?i 1), v0 OR push_bit ?i 1)
                     (bitmask_to_string_loop (Suc ?i) e v names) = (True, b', v')"
        and v: "\<And>m. bit v' m = (bit (v0 OR push_bit ?i 1) m \<or> (Suc ?i \<le> m \<and> m < Suc (?i + length names) \<and> bit v m))"
        and b: "\<And>m. bit b' m = (if Suc ?i \<le> m \<and> m < Suc (?i + length names) \<and> bit v m
                                  then bit e m else bit (b0 AND NOT (push_bit ?i 1)) m)"
        by auto
      have v': "bit v' m = (bit v0 m \<or> (?i \<le> m \<and> m < Suc (?i + length names) \<and> bit v m))" for m
        using True i32 unfolding v [of m]
        by (cases "m = ?i") (auto simp: bit_or_iff bit_exp_iff)
      have b': "bit b' m = (if ?i \<le> m \<and> m < Suc (?i + length names) \<and> bit v m
                                  then bit e m else bit b0 m)" for m
        using True e i32 unfolding b [of m]
        by (cases "m = ?i") (auto simp: bit_and_iff bit_not_iff bit_exp_iff dest: bit_imp_le_length)
      show ?thesis
        using True e r v' b' i32
        by (simp add: and_exp_zero Let_def parse_negated_bang idx exp_nonzero)
    qed
  qed
qed

lemma bits_loop_saved:
  assumes "distinct names" "\<forall>n \<in> set names. \<not> g_str_has_prefix n ''!''" "length names \<le> 32"
  shows "bits_loop (\<lambda>s. flatpak_context_bitmask_from_string s names) (0, 0)
           (flatpak_context_bitmask_to_string e v names)
         = (True, e AND v AND named_bits names, v AND named_bits names)"
proof -
  from bits_loop_to_string [of "[]" names 0 0 e v] assms obtain b' v' where
    r: "bits_loop (\<lambda>s. bitmask_from_string_loop 0 s names) (0, 0)
          (bitmask_to_string_loop 0 e v names) = (True, b', v')"
    and v: "\<And>m. bit v' m = (m < length names \<and> bit v m)"
    and b0: "\<And>m. bit b' m = (if m < length names \<and> bit v m then bit e m else bit (0 :: guint32) m)"
    by auto
  have b: "bit b' m = (m < length names \<and> bit v m \<and> bit e m)" for m
    unfolding b0 [of m] by auto
  have "v' = v AND named_bits names"
    by (rule bit_eqI) (auto simp: v bit_and_iff bit_mask_iff named_bits_def dest: bit_imp_le_length)
  moreover have "b' = e AND v AND named_bits names"
    by (rule bit_eqI) (auto simp: b bit_and_iff bit_mask_iff named_bits_def dest: bit_imp_le_length)
  ultimately show ?thesis
    using r by (simp add: flatpak_context_bitmask_from_string_def flatpak_context_bitmask_to_string_def)
qed

lemma within_and:
  assumes "bits_within b v" "bits_within v n"
  shows "b AND v AND n = b" "v AND n = v" "b AND v = b" "b AND n = b"
proof -
  from assms have bv: "\<And>m. bit b m \<Longrightarrow> bit v m" and vn: "\<And>m. bit v m \<Longrightarrow> bit n m"
    by (simp_all add: bits_within_iff)
  show "b AND v AND n = b"
    by (rule bit_eqI) (auto simp: bit_and_iff dest: bv vn)
  show "v AND n = v"
    by (rule bit_eqI) (auto simp: bit_and_iff dest: vn)
  show "b AND v = b"
    by (rule bit_eqI) (auto simp: bit_and_iff dest: bv)
  show "b AND n = b"
    by (rule bit_eqI) (auto simp: bit_and_iff dest: bv vn)
qed

lemma names_ok:
  "distinct flatpak_context_shares" "\<forall>n \<in> set flatpak_context_shares. \<not> g_str_has_prefix n ''!''"
  "length flatpak_context_shares \<le> 32"
  "distinct flatpak_context_sockets" "\<forall>n \<in> set flatpak_context_sockets. \<not> g_str_has_prefix n ''!''"
  "length flatpak_context_sockets \<le> 32"
  "distinct flatpak_context_devices" "\<forall>n \<in> set flatpak_context_devices. \<not> g_str_has_prefix n ''!''"
  "length flatpak_context_devices \<le> 32"
  "distinct flatpak_context_features" "\<forall>n \<in> set flatpak_context_features. \<not> g_str_has_prefix n ''!''"
  "length flatpak_context_features \<le> 32"
  by (simp_all add: flatpak_context_shares_def flatpak_context_sockets_def flatpak_context_devices_def
      flatpak_context_features_def g_str_has_prefix_def)

lemma load_shares:
  assumes "shares c = 0" "shares_valid c = 0"
  shows "load_bitmask_loop flatpak_context_share_from_string flatpak_context_add_shares
           flatpak_context_remove_shares c (flatpak_context_shared_to_string e v)
         = (True, c\<lparr> shares := e AND v AND named_bits flatpak_context_shares,
                     shares_valid := v AND named_bits flatpak_context_shares \<rparr>)"
proof -
  have "load_bitmask_loop flatpak_context_share_from_string flatpak_context_add_shares
           flatpak_context_remove_shares c l
        = (fst (bits_loop flatpak_context_share_from_string (shares c, shares_valid c) l),
           (\<lambda>c p. c\<lparr> shares := fst p, shares_valid := snd p \<rparr>) c
             (snd (bits_loop flatpak_context_share_from_string (shares c, shares_valid c) l)))" for l
    by (rule load_bitmask_loop_lens [where get = "\<lambda>c. (shares c, shares_valid c)"])
       (simp_all add: flatpak_context_add_shares_def flatpak_context_remove_shares_def)
  then show ?thesis
    using bits_loop_saved [OF names_ok(1-3), of e v] assms
    by (simp add: flatpak_context_share_from_string_def [abs_def] flatpak_context_shared_to_string_def)
qed

lemma load_sockets:
  assumes "sockets c = 0" "sockets_valid c = 0"
  shows "load_bitmask_loop flatpak_context_socket_from_string flatpak_context_add_sockets
           flatpak_context_remove_sockets c (flatpak_context_sockets_to_string e v)
         = (True, c\<lparr> sockets := e AND v AND named_bits flatpak_context_sockets,
                     sockets_valid := v AND named_bits flatpak_context_sockets \<rparr>)"
proof -
  have "load_bitmask_loop flatpak_context_socket_from_string flatpak_context_add_sockets
           flatpak_context_remove_sockets c l
        = (fst (bits_loop flatpak_context_socket_from_string (sockets c, sockets_valid c) l),
           (\<lambda>c p. c\<lparr> sockets := fst p, sockets_valid := snd p \<rparr>) c
             (snd (bits_loop flatpak_context_socket_from_string (sockets c, sockets_valid c) l)))" for l
    by (rule load_bitmask_loop_lens [where get = "\<lambda>c. (sockets c, sockets_valid c)"])
       (simp_all add: flatpak_context_add_sockets_def flatpak_context_remove_sockets_def)
  then show ?thesis
    using bits_loop_saved [OF names_ok(4-6), of e v] assms
    by (simp add: flatpak_context_socket_from_string_def [abs_def] flatpak_context_sockets_to_string_def)
qed

lemma load_devices:
  assumes "devices c = 0" "devices_valid c = 0"
  shows "load_bitmask_loop flatpak_context_device_from_string flatpak_context_add_devices
           flatpak_context_remove_devices c (flatpak_context_devices_to_string e v)
         = (True, c\<lparr> devices := e AND v AND named_bits flatpak_context_devices,
                     devices_valid := v AND named_bits flatpak_context_devices \<rparr>)"
proof -
  have "load_bitmask_loop flatpak_context_device_from_string flatpak_context_add_devices
           flatpak_context_remove_devices c l
        = (fst (bits_loop flatpak_context_device_from_string (devices c, devices_valid c) l),
           (\<lambda>c p. c\<lparr> devices := fst p, devices_valid := snd p \<rparr>) c
             (snd (bits_loop flatpak_context_device_from_string (devices c, devices_valid c) l)))" for l
    by (rule load_bitmask_loop_lens [where get = "\<lambda>c. (devices c, devices_valid c)"])
       (simp_all add: flatpak_context_add_devices_def flatpak_context_remove_devices_def)
  then show ?thesis
    using bits_loop_saved [OF names_ok(7-9), of e v] assms
    by (simp add: flatpak_context_device_from_string_def [abs_def] flatpak_context_devices_to_string_def)
qed

lemma load_features:
  assumes "features c = 0" "features_valid c = 0"
  shows "load_bitmask_loop flatpak_context_feature_from_string flatpak_context_add_features
           flatpak_context_remove_features c (flatpak_context_features_to_string e v)
         = (True, c\<lparr> features := e AND v AND named_bits flatpak_context_features,
                     features_valid := v AND named_bits flatpak_context_features \<rparr>)"
proof -
  have "load_bitmask_loop flatpak_context_feature_from_string flatpak_context_add_features
           flatpak_context_remove_features c l
        = (fst (bits_loop flatpak_context_feature_from_string (features c, features_valid c) l),
           (\<lambda>c p. c\<lparr> features := fst p, features_valid := snd p \<rparr>) c
             (snd (bits_loop flatpak_context_feature_from_string (features c, features_valid c) l)))" for l
    by (rule load_bitmask_loop_lens [where get = "\<lambda>c. (features c, features_valid c)"])
       (simp_all add: flatpak_context_add_features_def flatpak_context_remove_features_def)
  then show ?thesis
    using bits_loop_saved [OF names_ok(10-12), of e v] assms
    by (simp add: flatpak_context_feature_from_string_def [abs_def] flatpak_context_features_to_string_def)
qed

lemma entries_saved:
  "distinct (map fst ws) \<Longrightarrow> kf_entries (apply_writes ws g_key_file_new) = ws"
  using entries_apply_writes [of g_key_file_new ws] by simp

lemma groups_saved: "set (kf_groups (apply_writes ws g_key_file_new)) = write_group ` set ws"
  by (simp add: groups_apply_writes')

lemma distinct_groups_saved: "distinct (kf_groups (apply_writes ws g_key_file_new))"
  by (rule distinct_groups_apply_writes) simp

lemma map_of_group:
  "map_of ws (g, k) = map_of (filter (\<lambda>w. write_group w = g) ws) (g, k)"
  by (induction ws) (auto simp: write_group_def)

lemma map_of_in_group: "map_of ws (g, k) = Some v \<Longrightarrow> g \<in> write_group ` set ws"
proof -
  assume "map_of ws (g, k) = Some v"
  then have "((g, k), v) \<in> set ws" by (rule map_of_SomeD)
  then show ?thesis by (force simp: write_group_def)
qed

lemma has_key_saved:
  assumes "distinct (map fst ws)"
  shows "g_key_file_has_key (apply_writes ws g_key_file_new) g k = (map_of ws (g, k) \<noteq> None)"
  using map_of_in_group [of ws g k]
  by (auto simp: g_key_file_has_key_def entries_saved [OF assms] groups_saved)

lemma get_string_list_saved:
  assumes "distinct (map fst ws)"
  shows "g_key_file_get_string_list (apply_writes ws g_key_file_new) g k
           = (case map_of ws (g, k) of Some (KF_string_list l) \<Rightarrow> Some l | _ \<Rightarrow> None)"
  using map_of_in_group [of ws g k]
  by (auto simp: g_key_file_get_string_list_def entries_saved [OF assms] groups_saved
      split: option.splits kf_value.splits)

lemma get_string_saved:
  assumes "distinct (map fst ws)"
  shows "g_key_file_get_string (apply_writes ws g_key_file_new) g k
           = (case map_of ws (g, k) of Some (KF_string s) \<Rightarrow> Some s | _ \<Rightarrow> None)"
  using map_of_in_group [of ws g k]
  by (auto simp: g_key_file_get_string_def entries_saved [OF assms] groups_saved
      split: option.splits kf_value.splits)

lemma has_group_saved:
  "g_key_file_has_group (apply_writes ws g_key_file_new) g = (g \<in> write_group ` set ws)"
  by (simp add: g_key_file_has_group_def groups_saved)

lemma get_keys_saved:
  assumes "distinct (map fst ws)"
  shows "g_key_file_get_keys (apply_writes ws g_key_file_new) g
           = (if g \<in> write_group ` set ws
              then Some (map (\<lambda>w. snd (fst w)) (filter (\<lambda>w. write_group w = g) ws))
              else None)"
  by (simp add: g_key_file_get_keys_def entries_saved [OF assms] groups_saved write_group_def)

lemma filter_one_group:
  "write_group ` set ws \<subseteq> {g'} \<Longrightarrow>
     filter (\<lambda>w. write_group w = g) ws = (if g = g' then ws else [])"
  by (induction ws) auto

lemma write_group_policy_writes:
  "w \<in> set (policy_writes flatten l) \<Longrightarrow> g_str_has_prefix (write_group w) FLATPAK_METADATA_GROUP_PREFIX_POLICY"
  by (auto simp: policy_writes_def policy_write_def write_group_def g_str_has_prefix_def)

lemma filter_group_policy_writes:
  "\<not> g_str_has_prefix g FLATPAK_METADATA_GROUP_PREFIX_POLICY \<Longrightarrow>
     filter (\<lambda>w. write_group w = g) (policy_writes flatten l) = []"
  using write_group_policy_writes [of _ flatten l] by (auto simp: filter_empty_conv)

lemma filter_group_all_writes:
  "filter (\<lambda>w. write_group w = FLATPAK_METADATA_GROUP_CONTEXT) (all_writes flatten c)
     = context_writes flatten c"
  "filter (\<lambda>w. write_group w = FLATPAK_METADATA_GROUP_SESSION_BUS_POLICY) (all_writes flatten c)
     = bus_writes FLATPAK_METADATA_GROUP_SESSION_BUS_POLICY (DAList.impl_of (session_bus_policy c))"
  "filter (\<lambda>w. write_group w = FLATPAK_METADATA_GROUP_SYSTEM_BUS_POLICY) (all_writes flatten c)
     = bus_writes FLATPAK_METADATA_GROUP_SYSTEM_BUS_POLICY (DAList.impl_of (system_bus_policy c))"
  "filter (\<lambda>w. write_group w = FLATPAK_METADATA_GROUP_ENVIRONMENT) (all_writes flatten c)
     = env_writes (DAList.impl_of (env_vars c))"
  unfolding all_writes_def filter_append
  by (simp_all add: filter_one_group [OF write_group_context_writes]
      filter_one_group [OF write_group_bus_writes] filter_one_group [OF write_group_env_writes]
      filter_group_policy_writes group_names_distinct group_names_distinct(1-6) [symmetric])

lemma filter_group_policy:
  assumes "g_str_has_prefix g FLATPAK_METADATA_GROUP_PREFIX_POLICY"
  shows "filter (\<lambda>w. write_group w = g) (all_writes flatten c)
     = filter (\<lambda>w. write_group w = g) (policy_writes flatten (DAList.impl_of (generic_policy c)))"
proof -
  from assms group_names_distinct(7-10) have
    "g \<noteq> FLATPAK_METADATA_GROUP_CONTEXT" "g \<noteq> FLATPAK_METADATA_GROUP_SESSION_BUS_POLICY"
    "g \<noteq> FLATPAK_METADATA_GROUP_SYSTEM_BUS_POLICY" "g \<noteq> FLATPAK_METADATA_GROUP_ENVIRONMENT"
    by auto
  then show ?thesis
    unfolding all_writes_def filter_append
    by (simp add: filter_one_group [OF write_group_context_writes]
      filter_one_group [OF write_group_bus_writes] filter_one_group [OF write_group_env_writes])
qed

lemma distinct_context_writes: "distinct (map fst (context_writes flatten c))"
  by (simp add: context_writes_def context_write_def key_names_distinct key_names_distinct [symmetric])

lemma distinct_map_Pair: "distinct (map (Pair g) xs) = distinct xs"
  by (simp add: distinct_map inj_on_def)

lemma distinct_bus_writes: "distinct (map fst l) \<Longrightarrow> distinct (map fst (bus_writes g l))"
proof -
  assume d: "distinct (map fst l)"
  have m: "map fst (bus_writes g l)
          = map (Pair g) (map fst (filter (\<lambda>(key, policy). policy \<noteq> FLATPAK_POLICY_NONE) l))"
    by (simp add: bus_writes_def case_prod_beta comp_def)
  have "distinct (map fst (filter (\<lambda>(key, policy). policy \<noteq> FLATPAK_POLICY_NONE) l))"
    using d by (rule distinct_map_filter_key)
  then show ?thesis
    by (simp only: m distinct_map_Pair)
qed

lemma distinct_env_writes: "distinct (map fst l) \<Longrightarrow> distinct (map fst (env_writes l))"
proof -
  assume d: "distinct (map fst l)"
  have m: "map fst (env_writes l)
          = map (Pair FLATPAK_METADATA_GROUP_ENVIRONMENT) (map fst (filter (\<lambda>(key, v). v \<noteq> None) l))"
    by (simp add: env_writes_def case_prod_beta comp_def)
  have "distinct (map fst (filter (\<lambda>(key, v). v \<noteq> None) l))"
    using d by (rule distinct_map_filter_key)
  then show ?thesis
    by (simp only: m distinct_map_Pair)
qed

lemma split_at_dot:
  "CHR ''.'' \<in> set key \<Longrightarrow>
     takeWhile (\<lambda>c. c \<noteq> CHR ''.'') key @ ''.'' @ drop 1 (dropWhile (\<lambda>c. c \<noteq> CHR ''.'') key) = key"
proof -
  assume "CHR ''.'' \<in> set key"
  then have "dropWhile (\<lambda>c. c \<noteq> CHR ''.'') key \<noteq> []" by (auto simp: dropWhile_eq_Nil_conv)
  then obtain r where r: "dropWhile (\<lambda>c. c \<noteq> CHR ''.'') key = CHR ''.'' # r"
    using hd_dropWhile [of "\<lambda>c. c \<noteq> CHR ''.''" key] by (cases "dropWhile (\<lambda>c. c \<noteq> CHR ''.'') key") auto
  have "takeWhile (\<lambda>c. c \<noteq> CHR ''.'') key @ dropWhile (\<lambda>c. c \<noteq> CHR ''.'') key = key" by simp
  then show ?thesis by (simp add: r)
qed

lemma policy_key_of_policy_write:
  "CHR ''.'' \<in> set (fst e) \<Longrightarrow> policy_key_of_write (policy_write flatten e) = fst e"
  using split_at_dot [of "fst e"] by (simp add: policy_key_of_write_def policy_write_def)

lemma dotted_filter:
  "list_all (\<lambda>(key, vs). CHR ''.'' \<in> set key) l \<Longrightarrow> e \<in> set l \<Longrightarrow> CHR ''.'' \<in> set (fst e)"
  by (auto simp: list_all_iff)

lemma map_policy_key_of_writes:
  assumes "list_all (\<lambda>(key, vs). CHR ''.'' \<in> set key) l"
  shows "map policy_key_of_write (policy_writes flatten l)
          = map fst (filter (\<lambda>e. policy_values_written flatten (snd e) \<noteq> []) l)"
  using dotted_filter [OF assms]
  by (auto simp: policy_writes_def policy_key_of_policy_write)

lemma distinct_policy_keys:
  assumes "list_all (\<lambda>(key, vs). CHR ''.'' \<in> set key) l" "distinct (map fst l)"
  shows "distinct (map policy_key_of_write (policy_writes flatten l))"
  unfolding map_policy_key_of_writes [OF assms(1)]
  using assms(2) by (rule distinct_map_filter_key)

lemma distinct_policy_writes:
  assumes "list_all (\<lambda>(key, vs). CHR ''.'' \<in> set key) l" "distinct (map fst l)"
  shows "distinct (map fst (policy_writes flatten l))"
proof -
  have "map policy_key_of_write (policy_writes flatten l)
          = map (\<lambda>gk. drop (length FLATPAK_METADATA_GROUP_PREFIX_POLICY) (fst gk) @ ''.'' @ snd gk)
              (map fst (policy_writes flatten l))"
    by (simp add: policy_key_of_write_def comp_def)
  with distinct_policy_keys [OF assms, of flatten] show ?thesis
    using distinct_map [of "\<lambda>gk. drop (length FLATPAK_METADATA_GROUP_PREFIX_POLICY) (fst gk) @ ''.'' @ snd gk"
        "map fst (policy_writes flatten l)"] by simp
qed

lemma distinct_groupwise:
  assumes "\<And>g. distinct (map fst (filter (\<lambda>w. write_group w = g) ws))"
  shows "distinct (map fst ws)"
  using assms
proof (induction ws)
  case Nil
  show ?case by simp
next
  case (Cons w ws)
  have "distinct (map fst ws)"
  proof (rule Cons.IH)
    fix g
    from Cons.prems [of g] show "distinct (map fst (filter (\<lambda>w. write_group w = g) ws))"
      by (simp split: if_splits)
  qed
  moreover have "fst w \<notin> fst ` set ws"
  proof
    assume "fst w \<in> fst ` set ws"
    then obtain w' where w': "w' \<in> set ws" "fst w' = fst w" by auto
    then have "write_group w' = write_group w" by (simp add: write_group_def)
    with w' have "w' \<in> set (filter (\<lambda>x. write_group x = write_group w) ws)"
      by simp
    then have "fst w' \<in> fst ` set (filter (\<lambda>x. write_group x = write_group w) ws)"
      by (rule imageI)
    with w' have "fst w \<in> fst ` set (filter (\<lambda>x. write_group x = write_group w) ws)"
      by simp
    with Cons.prems [of "write_group w"] show False by simp
  qed
  ultimately show ?case by simp
qed

lemma distinct_all_writes:
  assumes dots: "list_all (\<lambda>(key, vs). CHR ''.'' \<in> set key) (DAList.impl_of (generic_policy c))"
  shows "distinct (map fst (all_writes flatten c))"
proof (rule distinct_groupwise)
  fix g
  consider (c) "g = FLATPAK_METADATA_GROUP_CONTEXT"
    | (s) "g = FLATPAK_METADATA_GROUP_SESSION_BUS_POLICY"
    | (y) "g = FLATPAK_METADATA_GROUP_SYSTEM_BUS_POLICY"
    | (e) "g = FLATPAK_METADATA_GROUP_ENVIRONMENT"
    | (p) "g \<noteq> FLATPAK_METADATA_GROUP_CONTEXT" "g \<noteq> FLATPAK_METADATA_GROUP_SESSION_BUS_POLICY"
          "g \<noteq> FLATPAK_METADATA_GROUP_SYSTEM_BUS_POLICY" "g \<noteq> FLATPAK_METADATA_GROUP_ENVIRONMENT"
    by blast
  then show "distinct (map fst (filter (\<lambda>w. write_group w = g) (all_writes flatten c)))"
  proof cases
    case c
    show ?thesis unfolding c filter_group_all_writes by (rule distinct_context_writes)
  next
    case s
    show ?thesis unfolding s filter_group_all_writes by (rule distinct_bus_writes) simp
  next
    case y
    show ?thesis unfolding y filter_group_all_writes by (rule distinct_bus_writes) simp
  next
    case e
    show ?thesis unfolding e filter_group_all_writes by (rule distinct_env_writes) simp
  next
    case p
    have "filter (\<lambda>w. write_group w = g) (all_writes flatten c)
            = filter (\<lambda>w. write_group w = g) (policy_writes flatten (DAList.impl_of (generic_policy c)))"
      unfolding all_writes_def filter_append using p
      by (simp add: filter_one_group [OF write_group_context_writes]
            filter_one_group [OF write_group_bus_writes] filter_one_group [OF write_group_env_writes])
    then show ?thesis
      using distinct_policy_writes [OF dots, of flatten]
      by (simp add: distinct_map_filter_key)
  qed
qed

lemma map_of_context_key:
  "map_of (all_writes flatten c) (FLATPAK_METADATA_GROUP_CONTEXT, key)
     = map_of (context_writes flatten c) (FLATPAK_METADATA_GROUP_CONTEXT, key)"
proof -
  have "map_of (all_writes flatten c) (FLATPAK_METADATA_GROUP_CONTEXT, key)
          = map_of (filter (\<lambda>w. write_group w = FLATPAK_METADATA_GROUP_CONTEXT) (all_writes flatten c))
              (FLATPAK_METADATA_GROUP_CONTEXT, key)"
    by (rule map_of_group)
  then show ?thesis
    by (simp only: filter_group_all_writes)
qed

lemma map_of_context_write:
  "map_of (context_write key' present l @ rest) (FLATPAK_METADATA_GROUP_CONTEXT, key)
     = (if present \<and> key = key' then Some (KF_string_list l)
        else map_of rest (FLATPAK_METADATA_GROUP_CONTEXT, key))"
  by (simp add: context_write_def)

lemma map_of_context_write_last:
  "map_of (context_write key' present l) (FLATPAK_METADATA_GROUP_CONTEXT, key)
     = (if present \<and> key = key' then Some (KF_string_list l) else None)"
  by (simp add: context_write_def)

lemma map_of_context_writes:
  "map_of (context_writes flatten c) (FLATPAK_METADATA_GROUP_CONTEXT, FLATPAK_METADATA_KEY_SHARED)
     = (if saved_shared flatten c \<noteq> [] then Some (KF_string_list (saved_shared flatten c)) else None)"
  "map_of (context_writes flatten c) (FLATPAK_METADATA_GROUP_CONTEXT, FLATPAK_METADATA_KEY_SOCKETS)
     = (if saved_sockets flatten c \<noteq> [] then Some (KF_string_list (saved_sockets flatten c)) else None)"
  "map_of (context_writes flatten c) (FLATPAK_METADATA_GROUP_CONTEXT, FLATPAK_METADATA_KEY_DEVICES)
     = (if saved_devices flatten c \<noteq> [] then Some (KF_string_list (saved_devices flatten c)) else None)"
  "map_of (context_writes flatten c) (FLATPAK_METADATA_GROUP_CONTEXT, FLATPAK_METADATA_KEY_FEATURES)
     = (if saved_features c \<noteq> [] then Some (KF_string_list (saved_features c)) else None)"
  "map_of (context_writes flatten c) (FLATPAK_METADATA_GROUP_CONTEXT, FLATPAK_METADATA_KEY_FILESYSTEMS)
     = (if DAList.impl_of (filesystems c) \<noteq> []
        then Some (KF_string_list (save_filesystems_loop (DAList.impl_of (filesystems c)))) else None)"
  "map_of (context_writes flatten c) (FLATPAK_METADATA_GROUP_CONTEXT, FLATPAK_METADATA_KEY_PERSISTENT)
     = (if DAList.impl_of (persistent c) \<noteq> []
        then Some (KF_string_list (map fst (DAList.impl_of (persistent c)))) else None)"
  unfolding context_writes_def
  by (simp_all only: map_of_context_write map_of_context_write_last key_names_distinct
        key_names_distinct [symmetric] simp_thms if_False if_True)

lemma load_bitmask_key_saved:
  assumes "distinct (map fst ws)"
    and "map_of ws (FLATPAK_METADATA_GROUP_CONTEXT, key) = (if l \<noteq> [] then Some (KF_string_list l) else None)"
  shows "load_bitmask_key (apply_writes ws g_key_file_new) key from_string add remove c
           = load_bitmask_loop from_string add remove c l"
  by (simp add: load_bitmask_key_def has_key_saved [OF assms(1)] get_string_list_saved [OF assms(1)] assms(2))

lemma load_filesystems_saved:
  assumes "distinct (map fst ws)"
    and "map_of ws (FLATPAK_METADATA_GROUP_CONTEXT, FLATPAK_METADATA_KEY_FILESYSTEMS)
          = (if fs \<noteq> [] then Some (KF_string_list (save_filesystems_loop fs)) else None)"
  shows "load_filesystems (apply_writes ws g_key_file_new) c
           = load_filesystems_loop c (save_filesystems_loop fs)"
  by (simp add: load_filesystems_def has_key_saved [OF assms(1)] get_string_list_saved [OF assms(1)] assms(2))

lemma load_persistent_saved:
  assumes "distinct (map fst ws)"
    and "map_of ws (FLATPAK_METADATA_GROUP_CONTEXT, FLATPAK_METADATA_KEY_PERSISTENT)
          = (if ps \<noteq> [] then Some (KF_string_list (map fst ps)) else None)"
  shows "load_persistent (apply_writes ws g_key_file_new) c
           = (True, fold (\<lambda>path c. flatpak_context_set_persistent c path) (map fst ps) c)"
  by (simp add: load_persistent_def has_key_saved [OF assms(1)] get_string_list_saved [OF assms(1)] assms(2))

lemma fold_set_persistent:
  "fold (\<lambda>path c. flatpak_context_set_persistent c path) (map fst ps) c
     = c\<lparr> persistent := hash_table_insert_each ps (persistent c) \<rparr>"
  by (induction ps arbitrary: c) (auto simp: flatpak_context_set_persistent_def)

lemma parse_flags_ro:
  "parse_filesystem_flags (k @ '':ro'') = (k, FLATPAK_FILESYSTEM_MODE_READ_ONLY)"
  by (simp add: parse_filesystem_flags_def g_str_has_suffix_def)

lemma parse_flags_create:
  "parse_filesystem_flags (k @ '':create'') = (k, FLATPAK_FILESYSTEM_MODE_CREATE)"
  by (simp add: parse_filesystem_flags_def g_str_has_suffix_def)

lemma verify_suffixed:
  assumes "filesystem_key k" "parse_filesystem_flags x = (k, m)"
  shows "flatpak_context_verify_filesystem x"
proof -
  from assms(1) have p: "parse_filesystem_flags k = (k, FLATPAK_FILESYSTEM_MODE_READ_WRITE)"
    and v: "flatpak_context_verify_filesystem k"
    by (simp_all add: filesystem_key_def)
  from v have "k = ''host'' \<or> k = ''home'' \<or> get_xdg_user_dir_from_string k
      \<or> g_str_has_prefix k ''~/'' \<or> g_str_has_prefix k ''/''"
    unfolding flatpak_context_verify_filesystem_def Let_def p fst_conv
    by (simp split: if_splits)
  then show ?thesis
    unfolding flatpak_context_verify_filesystem_def Let_def assms(2) fst_conv
    by auto
qed

lemma filesystem_key_no_bang:
  assumes "filesystem_key k"
  shows "\<not> g_str_has_prefix (k @ s) ''!''"
proof
  assume "g_str_has_prefix (k @ s) ''!''"
  show False
  proof (cases k)
    case Nil
    with assms show False
      by (simp add: filesystem_key_def flatpak_context_verify_filesystem_def parse_filesystem_flags_def
          g_str_has_suffix_def g_str_has_prefix_def get_xdg_user_dir_from_string_def
          get_xdg_dir_from_prefix_def Let_def)
  next
    case (Cons a r)
    with \<open>g_str_has_prefix (k @ s) ''!''\<close> have a: "a = CHR ''!''"
      by (simp add: g_str_has_prefix_def)
    from assms have "fst (parse_filesystem_flags k) = k" "flatpak_context_verify_filesystem k"
      by (simp_all add: filesystem_key_def)
    then show False
      unfolding flatpak_context_verify_filesystem_def Cons a
      by (simp add: g_str_has_prefix_def get_xdg_user_dir_from_string_def
          get_xdg_dir_from_prefix_def Let_def split: if_splits)
  qed
qed

lemma load_filesystems_loop_saved:
  assumes "\<forall>(k, v) \<in> set l. v \<noteq> None \<longrightarrow> filesystem_key k"
  shows "load_filesystems_loop c (save_filesystems_loop l)
           = (True, c\<lparr> filesystems := hash_table_insert_each (filter (\<lambda>(k, v). v \<noteq> None) l) (filesystems c) \<rparr>)"
  using assms
proof (induction l arbitrary: c)
  case Nil
  show ?case by simp
next
  case (Cons e l)
  obtain k v where e: "e = (k, v)" by (cases e)
  from Cons.prems have rest: "\<forall>(k, v) \<in> set l. v \<noteq> None \<longrightarrow> filesystem_key k" by simp
  note IH = Cons.IH [OF rest]
  show ?case
  proof (cases v)
    case None
    with e IH show ?thesis by simp
  next
    case (Some m)
    with Cons.prems e have key: "filesystem_key k" by simp
    then have plain: "parse_filesystem_flags k = (k, FLATPAK_FILESYSTEM_MODE_READ_WRITE)"
      by (simp add: filesystem_key_def)
    have neg: "parse_negated (k @ s) = (k @ s, False)" for s
      using filesystem_key_no_bang [OF key, of s] by (simp add: parse_negated_plain)
    have neg0: "parse_negated k = (k, False)"
      using neg [of "[]"] by simp
    show ?thesis
    proof (cases m)
      case FLATPAK_FILESYSTEM_MODE_READ_ONLY
      then show ?thesis
        using e Some IH verify_suffixed [OF key parse_flags_ro]
        by (simp add: neg flatpak_context_add_filesystem_def parse_flags_ro)
    next
      case FLATPAK_FILESYSTEM_MODE_READ_WRITE
      then show ?thesis
        using e Some IH verify_suffixed [OF key plain]
        by (simp add: neg0 flatpak_context_add_filesystem_def plain)
    next
      case FLATPAK_FILESYSTEM_MODE_CREATE
      then show ?thesis
        using e Some IH verify_suffixed [OF key parse_flags_create]
        by (simp add: neg flatpak_context_add_filesystem_def parse_flags_create)
    qed
  qed
qed

lemma policy_from_to_string:
  "saved_policy p \<Longrightarrow> flatpak_policy_from_string (flatpak_policy_to_string p) = Some p"
  by (auto simp: saved_policy_def flatpak_policy_from_string_def flatpak_policy_to_string_def policies_def)

lemma group_present:
  "(g \<in> write_group ` set ws) = (filter (\<lambda>w. write_group w = g) ws \<noteq> [])"
  by (auto simp: filter_empty_conv)

lemma map_of_bus_write:
  assumes "distinct (map fst l)" "(k, p) \<in> set l" "p \<noteq> FLATPAK_POLICY_NONE"
  shows "map_of (bus_writes g l) (g, k) = Some (KF_string (flatpak_policy_to_string p))"
proof (rule map_of_is_SomeI)
  show "distinct (map fst (bus_writes g l))" using assms(1) by (rule distinct_bus_writes)
  show "((g, k), KF_string (flatpak_policy_to_string p)) \<in> set (bus_writes g l)"
    using assms(2,3) by (force simp: bus_writes_def)
qed

lemma map_of_env_write:
  assumes "distinct (map fst l)" "(k, Some s) \<in> set l"
  shows "map_of (env_writes l) (FLATPAK_METADATA_GROUP_ENVIRONMENT, k) = Some (KF_string s)"
proof (rule map_of_is_SomeI)
  show "distinct (map fst (env_writes l))" using assms(1) by (rule distinct_env_writes)
  show "((FLATPAK_METADATA_GROUP_ENVIRONMENT, k), KF_string s) \<in> set (env_writes l)"
    using assms(2) by (force simp: env_writes_def)
qed

lemma load_session_bus_loop:
  assumes "\<forall>(k, p) \<in> set l. flatpak_verify_dbus_name gio k
             \<and> g_key_file_get_string kf g k = Some (flatpak_policy_to_string p) \<and> saved_policy p"
  shows "load_bus_policy_loop gio kf g flatpak_context_set_session_bus_policy c (map fst l)
           = Some (True, c\<lparr> session_bus_policy := hash_table_insert_each l (session_bus_policy c) \<rparr>)"
  using assms
proof (induction l arbitrary: c)
  case Nil
  show ?case by simp
next
  case (Cons e l)
  obtain k p where e: "e = (k, p)" by (cases e)
  from Cons.prems have rest: "\<forall>(k, p) \<in> set l. flatpak_verify_dbus_name gio k
             \<and> g_key_file_get_string kf g k = Some (flatpak_policy_to_string p) \<and> saved_policy p"
    by simp
  from Cons.prems e have here: "flatpak_verify_dbus_name gio k"
    "g_key_file_get_string kf g k = Some (flatpak_policy_to_string p)" "saved_policy p"
    by simp_all
  show ?case
    using here Cons.IH [OF rest, of "flatpak_context_set_session_bus_policy c k p"]
    by (simp add: e policy_from_to_string flatpak_context_set_session_bus_policy_def)
qed

lemma load_system_bus_loop:
  assumes "\<forall>(k, p) \<in> set l. flatpak_verify_dbus_name gio k
             \<and> g_key_file_get_string kf g k = Some (flatpak_policy_to_string p) \<and> saved_policy p"
  shows "load_bus_policy_loop gio kf g flatpak_context_set_system_bus_policy c (map fst l)
           = Some (True, c\<lparr> system_bus_policy := hash_table_insert_each l (system_bus_policy c) \<rparr>)"
  using assms
proof (induction l arbitrary: c)
  case Nil
  show ?case by simp
next
  case (Cons e l)
  obtain k p where e: "e = (k, p)" by (cases e)
  from Cons.prems have rest: "\<forall>(k, p) \<in> set l. flatpak_verify_dbus_name gio k
             \<and> g_key_file_get_string kf g k = Some (flatpak_policy_to_string p) \<and> saved_policy p"
    by simp
  from Cons.prems e have here: "flatpak_verify_dbus_name gio k"
    "g_key_file_get_string kf g k = Some (flatpak_policy_to_string p)" "saved_policy p"
    by simp_all
  show ?case
    using here Cons.IH [OF rest, of "flatpak_context_set_system_bus_policy c k p"]
    by (simp add: e policy_from_to_string flatpak_context_set_system_bus_policy_def)
qed

lemma keys_bus_writes: "map (\<lambda>w. snd (fst w)) (bus_writes g l) = map fst (written_policies l)"
  by (simp add: bus_writes_def written_policies_def case_prod_beta comp_def)

lemma load_bus_policy_saved:
  assumes d: "distinct (map fst ws)"
    and grp: "filter (\<lambda>w. write_group w = g) ws = bus_writes g l"
  shows "load_bus_policy gio (apply_writes ws g_key_file_new) g set_policy c
           = load_bus_policy_loop gio (apply_writes ws g_key_file_new) g set_policy c
               (map fst (written_policies l))"
proof (cases "bus_writes g l = []")
  case True
  then have "map fst (written_policies l) = []"
    using keys_bus_writes [of g l] by simp
  then show ?thesis
    using True by (simp add: load_bus_policy_def has_group_saved group_present grp)
next
  case False
  then show ?thesis
    by (simp add: load_bus_policy_def has_group_saved group_present grp get_keys_saved [OF d]
        keys_bus_writes)
qed

lemma get_string_bus_saved:
  assumes d: "distinct (map fst ws)"
    and grp: "filter (\<lambda>w. write_group w = g) ws = bus_writes g l"
    and l: "distinct (map fst l)" "(k, p) \<in> set (written_policies l)"
  shows "g_key_file_get_string (apply_writes ws g_key_file_new) g k = Some (flatpak_policy_to_string p)"
proof -
  from l(2) have "(k, p) \<in> set l" "p \<noteq> FLATPAK_POLICY_NONE"
    by (auto simp: written_policies_def)
  then have "map_of (bus_writes g l) (g, k) = Some (KF_string (flatpak_policy_to_string p))"
    using l(1) by (intro map_of_bus_write)
  then have "map_of ws (g, k) = Some (KF_string (flatpak_policy_to_string p))"
    using map_of_group [of ws g k] by (simp add: grp)
  then show ?thesis by (simp add: get_string_saved [OF d])
qed

lemma keys_env_writes: "map (\<lambda>w. snd (fst w)) (env_writes l) = map fst (written_env l)"
  by (simp add: env_writes_def written_env_def case_prod_beta comp_def)

lemma fold_set_env_var:
  assumes "\<forall>(k, v) \<in> set l. g_key_file_get_string kf g k = v"
  shows "fold (\<lambda>key c. flatpak_context_set_env_var c key (g_key_file_get_string kf g key)) (map fst l) c
           = c\<lparr> env_vars := hash_table_insert_each l (env_vars c) \<rparr>"
  using assms
  by (induction l arbitrary: c) (auto simp: flatpak_context_set_env_var_def)

lemma load_environment_saved:
  assumes d: "distinct (map fst ws)"
    and grp: "filter (\<lambda>w. write_group w = FLATPAK_METADATA_GROUP_ENVIRONMENT) ws = env_writes l"
    and l: "distinct (map fst l)"
  shows "load_environment (apply_writes ws g_key_file_new) c
           = c\<lparr> env_vars := hash_table_insert_each (written_env l) (env_vars c) \<rparr>"
proof -
  have get: "\<forall>(k, v) \<in> set (written_env l).
               g_key_file_get_string (apply_writes ws g_key_file_new) FLATPAK_METADATA_GROUP_ENVIRONMENT k = v"
  proof (clarify)
    fix k v assume "(k, v) \<in> set (written_env l)"
    then obtain s where s: "v = Some s" "(k, Some s) \<in> set l"
      by (auto simp: written_env_def)
    then have "map_of (env_writes l) (FLATPAK_METADATA_GROUP_ENVIRONMENT, k) = Some (KF_string s)"
      using l by (intro map_of_env_write)
    then have "map_of ws (FLATPAK_METADATA_GROUP_ENVIRONMENT, k) = Some (KF_string s)"
      using map_of_group [of ws FLATPAK_METADATA_GROUP_ENVIRONMENT k] by (simp add: grp)
    then show "g_key_file_get_string (apply_writes ws g_key_file_new) FLATPAK_METADATA_GROUP_ENVIRONMENT k = v"
      by (simp add: get_string_saved [OF d] s)
  qed
  show ?thesis
  proof (cases "env_writes l = []")
    case True
    then have "map fst (written_env l) = []"
      using keys_env_writes [of l] by simp
    then show ?thesis
      using True by (simp add: load_environment_def has_group_saved group_present grp)
  next
    case False
    then show ?thesis
      by (simp add: load_environment_def has_group_saved group_present grp get_keys_saved [OF d]
          keys_env_writes fold_set_env_var [OF get])
  qed
qed

lemma merge_generic_policy_append:
  "merge_generic_policy c (a @ b)
     = (case merge_generic_policy c a of None \<Rightarrow> None | Some c' \<Rightarrow> merge_generic_policy c' b)"
  by (induction a arbitrary: c) (auto split: option.splits)

lemma load_policy_keys_loop_merge:
  "load_policy_keys_loop kf g subsystem c keys
     = merge_generic_policy c (map (\<lambda>key. (subsystem @ ''.'' @ key, key_values kf g key)) keys)"
  by (induction keys arbitrary: c) (auto simp: key_values_def Let_def split: option.splits)

lemma load_policy_groups_loop_merge:
  "load_policy_groups_loop kf c gs = merge_generic_policy c (concat (map (group_policies kf) gs))"
proof (induction gs arbitrary: c)
  case Nil
  show ?case by simp
next
  case (Cons g gs)
  show ?case
  proof (cases "g_str_has_prefix g FLATPAK_METADATA_GROUP_PREFIX_POLICY")
    case True
    then show ?thesis
      by (simp add: Cons.IH merge_generic_policy_append load_policy_keys_loop_merge
            group_policies_def group_keys_def Let_def split: option.splits)
  next
    case False
    then show ?thesis by (simp add: Cons.IH group_policies_def)
  qed
qed

lemma distinct_regroup:
  assumes "distinct (map k ws)" "distinct gs"
  shows "distinct (map k (concat (map (\<lambda>g. if Q g then filter (\<lambda>w. grp w = g) ws else []) gs)))"
  using assms(2)
proof (induction gs)
  case Nil
  show ?case by simp
next
  case (Cons g gs)
  let ?rest = "concat (map (\<lambda>g. if Q g then filter (\<lambda>w. grp w = g) ws else []) gs)"
  have inj: "inj_on k (set ws)" using assms(1) by (simp add: distinct_map)
  have rest_in: "w \<in> set ?rest \<Longrightarrow> w \<in> set ws \<and> grp w \<in> set gs" for w
    by (auto split: if_splits)
  have "k ` set (filter (\<lambda>w. grp w = g) ws) \<inter> k ` set ?rest = {}"
  proof (rule ccontr)
    assume "k ` set (filter (\<lambda>w. grp w = g) ws) \<inter> k ` set ?rest \<noteq> {}"
    then obtain x y where x: "x \<in> set ws" "grp x = g" and y: "y \<in> set ?rest" and xy: "k x = k y"
      by auto
    from rest_in [OF y] have y': "y \<in> set ws" "grp y \<in> set gs" by simp_all
    from inj x(1) y'(1) xy have "x = y" by (simp add: inj_on_def)
    with x(2) y'(2) Cons.prems show False by simp
  qed
  moreover have "distinct (map k (filter (\<lambda>w. grp w = g) ws))"
    using assms(1) by (rule distinct_map_filter_key)
  moreover have "distinct (map k ?rest)"
    using Cons.prems by (intro Cons.IH) simp
  ultimately show ?case by simp
qed

lemma set_regroup:
  assumes "\<forall>w \<in> set ws. grp w \<in> set gs \<and> Q (grp w)"
  shows "set (concat (map (\<lambda>g. if Q g then filter (\<lambda>w. grp w = g) ws else []) gs)) = set ws"
  using assms by (auto split: if_splits)

lemma policy_of_policy_write:
  "CHR ''.'' \<in> set (fst e) \<Longrightarrow>
     policy_of_write (policy_write flatten e) = (fst e, policy_values_written flatten (snd e))"
  by (simp add: policy_of_write_def policy_key_of_policy_write)
     (simp add: values_of_write_def policy_write_def)

lemma map_of_written:
  "distinct (map fst l) \<Longrightarrow>
     map_of (map (\<lambda>e. (fst e, h (snd e))) (filter (\<lambda>e. Q (snd e)) l)) k
       = (case map_of l k of None \<Rightarrow> None | Some v \<Rightarrow> if Q v then Some (h v) else None)"
proof (induction l)
  case Nil
  show ?case by simp
next
  case (Cons e l)
  obtain a b where e: "e = (a, b)" by (cases e)
  from Cons.prems e have a: "a \<notin> fst ` set l" and d: "distinct (map fst l)" by auto
  from a have none: "map_of l a = None" by (simp add: map_of_eq_None_iff)
  show ?case
    using Cons.IH [OF d] none by (auto simp: e)
qed

lemma map_policy_of_writes:
  assumes "list_all (\<lambda>(key, vs). CHR ''.'' \<in> set key) l"
  shows "map policy_of_write (policy_writes flatten l)
          = map (\<lambda>e. (fst e, policy_values_written flatten (snd e)))
              (filter (\<lambda>e. policy_values_written flatten (snd e) \<noteq> []) l)"
  using dotted_filter [OF assms]
  by (auto simp: policy_writes_def policy_of_policy_write)

lemma group_policies_saved:
  assumes d: "distinct (map fst ws)"
    and g: "g \<in> write_group ` set ws"
  shows "group_policies (apply_writes ws g_key_file_new) g
           = (if g_str_has_prefix g FLATPAK_METADATA_GROUP_PREFIX_POLICY
              then map policy_of_write (filter (\<lambda>w. write_group w = g) ws) else [])"
proof (cases "g_str_has_prefix g FLATPAK_METADATA_GROUP_PREFIX_POLICY")
  case False
  then show ?thesis by (simp add: group_policies_def)
next
  case True
  let ?kf = "apply_writes ws g_key_file_new"
  have keys: "group_keys ?kf g = map (\<lambda>w. snd (fst w)) (filter (\<lambda>w. write_group w = g) ws)"
    using g by (simp add: group_keys_def get_keys_saved [OF d])
  have one: "(drop (length FLATPAK_METADATA_GROUP_PREFIX_POLICY) g @ ''.'' @ snd (fst w),
               key_values ?kf g (snd (fst w))) = policy_of_write w"
    if w: "w \<in> set (filter (\<lambda>w. write_group w = g) ws)" for w
  proof -
    from w have in_ws: "w \<in> set ws" and grp: "fst (fst w) = g"
      by (simp_all add: write_group_def)
    from in_ws have "(fst w, snd w) \<in> set ws" by simp
    with d have "map_of ws (fst w) = Some (snd w)" by (rule map_of_is_SomeI)
    moreover have "fst w = (g, snd (fst w))" using grp by (cases w) auto
    ultimately have "map_of ws (g, snd (fst w)) = Some (snd w)" by simp
    then have "key_values ?kf g (snd (fst w)) = values_of_write w"
      by (simp add: key_values_def get_string_list_saved [OF d] values_of_write_def
            split: kf_value.splits)
    then show ?thesis
      by (simp add: policy_of_write_def policy_key_of_write_def grp)
  qed
  show ?thesis
    using True one by (simp add: group_policies_def keys comp_def)
qed

lemma concat_group_policies_saved:
  assumes d: "distinct (map fst ws)"
  shows "concat (map (group_policies (apply_writes ws g_key_file_new))
                      (kf_groups (apply_writes ws g_key_file_new)))
           = map policy_of_write
               (concat (map (\<lambda>g. if g_str_has_prefix g FLATPAK_METADATA_GROUP_PREFIX_POLICY
                                   then filter (\<lambda>w. write_group w = g) ws else [])
                         (kf_groups (apply_writes ws g_key_file_new))))"
proof -
  have eq: "map (group_policies (apply_writes ws g_key_file_new)) (kf_groups (apply_writes ws g_key_file_new))
          = map (\<lambda>g. map policy_of_write
                        (if g_str_has_prefix g FLATPAK_METADATA_GROUP_PREFIX_POLICY
                         then filter (\<lambda>w. write_group w = g) ws else []))
              (kf_groups (apply_writes ws g_key_file_new))"
    by (rule map_cong [OF refl]) (simp add: group_policies_saved [OF d] groups_saved)
  have b: "map policy_of_write (concat (map X gs)) = concat (map (\<lambda>g. map policy_of_write (X g)) gs)"
    for X :: "string \<Rightarrow> kf_write list" and gs
    by (simp add: map_concat comp_def)
  show ?thesis
    unfolding b by (rule arg_cong [OF eq])
qed

lemma load_policy_saved:
  assumes dots: "list_all (\<lambda>(key, vs). CHR ''.'' \<in> set key) (DAList.impl_of (generic_policy c))"
    and empty: "DAList.lookup (generic_policy c0) = (\<lambda>k. None)"
  shows "\<exists>gp. load_policy_groups_loop (apply_writes (all_writes flatten c) g_key_file_new) c0
                 (g_key_file_get_groups (apply_writes (all_writes flatten c) g_key_file_new))
               = Some (c0\<lparr> generic_policy := gp \<rparr>)
             \<and> DAList.lookup gp = (\<lambda>k. reloaded_values flatten (DAList.lookup (generic_policy c) k))"
proof -
  let ?ws = "all_writes flatten c"
  let ?kf = "apply_writes ?ws g_key_file_new"
  let ?gpl = "DAList.impl_of (generic_policy c)"
  let ?pw = "policy_writes flatten ?gpl"
  let ?Q = "\<lambda>g. g_str_has_prefix g FLATPAK_METADATA_GROUP_PREFIX_POLICY"
  let ?X = "concat (map (\<lambda>g. if ?Q g then filter (\<lambda>w. write_group w = g) ?pw else []) (kf_groups ?kf))"
  let ?P = "map (\<lambda>e. (fst e, policy_values_written flatten (snd e)))
              (filter (\<lambda>e. policy_values_written flatten (snd e) \<noteq> []) ?gpl)"
  note d = distinct_all_writes [OF dots, of flatten]
  have same: "(\<lambda>g. if ?Q g then filter (\<lambda>w. write_group w = g) ?ws else [])
            = (\<lambda>g. if ?Q g then filter (\<lambda>w. write_group w = g) ?pw else [])"
    by (rule ext) (simp add: filter_group_policy)
  have load: "load_policy_groups_loop ?kf c0 (g_key_file_get_groups ?kf)
                = merge_generic_policy c0 (map policy_of_write ?X)"
    by (simp only: load_policy_groups_loop_merge g_key_file_get_groups_def
          concat_group_policies_saved [OF d] same)
  have pw_in: "\<forall>w \<in> set ?pw. write_group w \<in> set (kf_groups ?kf) \<and> ?Q (write_group w)"
  proof
    fix w assume w: "w \<in> set ?pw"
    then have "w \<in> set ?ws" by (simp add: all_writes_def)
    then have "write_group w \<in> set (kf_groups ?kf)" by (simp add: groups_saved)
    with w show "write_group w \<in> set (kf_groups ?kf) \<and> ?Q (write_group w)"
      by (simp add: write_group_policy_writes)
  qed
  have setX: "set ?X = set ?pw"
    using pw_in by (rule set_regroup)
  have dX: "distinct (map policy_key_of_write ?X)"
    by (rule distinct_regroup [OF distinct_policy_keys [OF dots] distinct_groups_saved]) simp
  have keysA: "map fst (map policy_of_write ?X) = map policy_key_of_write ?X"
    by (simp add: policy_of_write_def comp_def)
  have dA: "distinct (map fst (map policy_of_write ?X))"
    unfolding keysA by (rule dX)
  have setA: "set (map policy_of_write ?X) = set ?P"
    using setX map_policy_of_writes [OF dots, of flatten]
    by (metis (no_types, lifting) set_map)
  have dP: "distinct (map fst ?P)"
    by (simp add: comp_def distinct_map_filter_key)
  have mapA: "map_of (map policy_of_write ?X) = map_of ?P"
    using map_of_inject_set [OF dA dP] setA by simp
  have no_abort: "\<not> list_ex aborting_entry (map policy_of_write ?X)"
  proof
    assume "list_ex aborting_entry (map policy_of_write ?X)"
    then obtain e where "e \<in> set (map policy_of_write ?X)" "aborting_entry e"
      unfolding list_ex_iff by blast
    with setA have "e \<in> set ?P" "CHR ''.'' \<notin> set (fst e)"
      by (simp_all add: aborting_entry_def)
    then show False
      using dotted_filter [OF dots] by auto
  qed
  from merge_generic_policy_ok [OF dA no_abort, of c0] obtain gp where
    gp: "merge_generic_policy c0 (map policy_of_write ?X) = Some (c0\<lparr> generic_policy := gp \<rparr>)"
    and look: "DAList.lookup gp = comb_table (DAList.lookup (generic_policy c0)) (map_of (map policy_of_write ?X))"
    by blast
  have "DAList.lookup gp k = reloaded_values flatten (DAList.lookup (generic_policy c) k)" for k
  proof -
    have mp: "map_of ?P k = (case map_of ?gpl k of None \<Rightarrow> None
            | Some v \<Rightarrow> if policy_values_written flatten v \<noteq> [] then Some (policy_values_written flatten v) else None)"
      by (rule map_of_written) simp
    have lgp: "DAList.lookup gp k = comb_values None (map_of ?P k)"
      by (simp add: look mapA empty comb_table_def)
    have lc: "DAList.lookup (generic_policy c) k = map_of ?gpl k"
      by (simp add: DAList.lookup.rep_eq)
    show ?thesis
      unfolding lgp lc mp
      by (simp add: comb_values_def reloaded_values_def split: option.splits)
  qed
  then have "DAList.lookup gp = (\<lambda>k. reloaded_values flatten (DAList.lookup (generic_policy c) k))"
    by (rule ext)
  with gp load show ?thesis by auto
qed

lemma then_part_True: "then_part (True, x) rest = rest x"
  by (simp add: then_part_def)

lemma then_part_opt_True: "then_part_opt (Some (True, x)) rest = rest x"
  by (simp add: then_part_opt_def then_part_def)

lemma reload_shares:
  assumes "bits_within (shares c) (shares_valid c)"
    "bits_within (shares_valid c) (named_bits flatpak_context_shares)"
    "shares c0 = 0" "shares_valid c0 = 0"
  shows "load_bitmask_loop flatpak_context_share_from_string flatpak_context_add_shares
           flatpak_context_remove_shares c0 (saved_shared flatten c)
         = (True, c0\<lparr> shares := shares c,
                      shares_valid := (if flatten then shares c else shares_valid c) \<rparr>)"
proof -
  note w = within_and [OF assms(1,2)]
  show ?thesis
    using assms(3,4) by (simp add: saved_shared_def load_shares w)
qed

lemma reload_sockets:
  assumes "bits_within (sockets c) (sockets_valid c)"
    "bits_within (sockets_valid c) (named_bits flatpak_context_sockets)"
    "sockets c0 = 0" "sockets_valid c0 = 0"
  shows "load_bitmask_loop flatpak_context_socket_from_string flatpak_context_add_sockets
           flatpak_context_remove_sockets c0 (saved_sockets flatten c)
         = (True, c0\<lparr> sockets := sockets c,
                      sockets_valid := (if flatten then sockets c else sockets_valid c) \<rparr>)"
proof -
  note w = within_and [OF assms(1,2)]
  show ?thesis
    using assms(3,4) by (simp add: saved_sockets_def load_sockets w)
qed

lemma reload_devices:
  assumes "bits_within (devices c) (devices_valid c)"
    "bits_within (devices_valid c) (named_bits flatpak_context_devices)"
    "devices c0 = 0" "devices_valid c0 = 0"
  shows "load_bitmask_loop flatpak_context_device_from_string flatpak_context_add_devices
           flatpak_context_remove_devices c0 (saved_devices flatten c)
         = (True, c0\<lparr> devices := devices c,
                      devices_valid := (if flatten then devices c else devices_valid c) \<rparr>)"
proof -
  note w = within_and [OF assms(1,2)]
  show ?thesis
    using assms(3,4) by (simp add: saved_devices_def load_devices w)
qed

lemma reload_features:
  assumes "bits_within (features c) (features_valid c)"
    "bits_within (features_valid c) (named_bits flatpak_context_features)"
    "features c0 = 0" "features_valid c0 = 0"
  shows "load_bitmask_loop flatpak_context_feature_from_string flatpak_context_add_features
           flatpak_context_remove_features c0 (saved_features c)
         = (True, c0\<lparr> features := features c, features_valid := features c \<rparr>)"
proof -
  note w = within_and [OF assms(1,2)]
  show ?thesis
    using assms(3,4) by (simp add: saved_features_def load_features w)
qed

lemma reload:
  assumes wf: "metadata_context gio c"
  shows "\<exists>gp. metadata_round_trip gio flatten c
           = Some (True, flatpak_context_new\<lparr>
               shares := shares c,
               shares_valid := (if flatten then shares c else shares_valid c),
               sockets := sockets c,
               sockets_valid := (if flatten then sockets c else sockets_valid c),
               devices := devices c,
               devices_valid := (if flatten then devices c else devices_valid c),
               features := features c,
               features_valid := features c,
               filesystems := hash_table_insert_each
                 (written_filesystems (DAList.impl_of (filesystems c))) DAList.empty,
               persistent := hash_table_insert_each (DAList.impl_of (persistent c)) DAList.empty,
               session_bus_policy := hash_table_insert_each
                 (written_policies (DAList.impl_of (session_bus_policy c))) DAList.empty,
               system_bus_policy := hash_table_insert_each
                 (written_policies (DAList.impl_of (system_bus_policy c))) DAList.empty,
               env_vars := hash_table_insert_each (written_env (DAList.impl_of (env_vars c))) DAList.empty,
               generic_policy := gp \<rparr>)
         \<and> DAList.lookup gp = (\<lambda>k. reloaded_values flatten (DAList.lookup (generic_policy c) k))"
proof -
  let ?ws = "all_writes flatten c"
  let ?kf = "apply_writes ?ws g_key_file_new"
  from wf have bits: "bitsets_within_valid c" and names: "valid_within_names c"
    and fs: "list_all (\<lambda>(key, v). filesystem_key key) (written_filesystems (DAList.impl_of (filesystems c)))"
    and sb: "list_all (\<lambda>(name, policy). flatpak_verify_dbus_name gio name \<and> saved_policy policy)
           (written_policies (DAList.impl_of (session_bus_policy c)))"
    and yb: "list_all (\<lambda>(name, policy). flatpak_verify_dbus_name gio name \<and> saved_policy policy)
           (written_policies (DAList.impl_of (system_bus_policy c)))"
    and gp: "list_all (\<lambda>(key, vs). CHR ''.'' \<in> set key \<and> distinct (map skip_bang vs))
           (DAList.impl_of (generic_policy c))"
    by (simp_all add: metadata_context_def)
  from gp have dots: "list_all (\<lambda>(key, vs). CHR ''.'' \<in> set key) (DAList.impl_of (generic_policy c))"
    by (auto simp: list_all_iff)
  note d = distinct_all_writes [OF dots, of flatten]
  note m = map_of_context_key map_of_context_writes
  have save: "flatpak_context_save_metadata c flatten g_key_file_new = Some ?kf"
    by (rule save_metadata_writes [OF dots])
  have l1: "load_bitmask_key ?kf FLATPAK_METADATA_KEY_SHARED flatpak_context_share_from_string
              flatpak_context_add_shares flatpak_context_remove_shares c0
            = (True, c0\<lparr> shares := shares c, shares_valid := (if flatten then shares c else shares_valid c) \<rparr>)"
    if "shares c0 = 0" "shares_valid c0 = 0" for c0
    using bits names that
    by (subst load_bitmask_key_saved [OF d, where l = "saved_shared flatten c"])
       (simp_all only: m reload_shares bitsets_within_valid_def valid_within_names_def)
  have l2: "load_bitmask_key ?kf FLATPAK_METADATA_KEY_SOCKETS flatpak_context_socket_from_string
              flatpak_context_add_sockets flatpak_context_remove_sockets c0
            = (True, c0\<lparr> sockets := sockets c, sockets_valid := (if flatten then sockets c else sockets_valid c) \<rparr>)"
    if "sockets c0 = 0" "sockets_valid c0 = 0" for c0
    using bits names that
    by (subst load_bitmask_key_saved [OF d, where l = "saved_sockets flatten c"])
       (simp_all only: m reload_sockets bitsets_within_valid_def valid_within_names_def)
  have l3: "load_bitmask_key ?kf FLATPAK_METADATA_KEY_DEVICES flatpak_context_device_from_string
              flatpak_context_add_devices flatpak_context_remove_devices c0
            = (True, c0\<lparr> devices := devices c, devices_valid := (if flatten then devices c else devices_valid c) \<rparr>)"
    if "devices c0 = 0" "devices_valid c0 = 0" for c0
    using bits names that
    by (subst load_bitmask_key_saved [OF d, where l = "saved_devices flatten c"])
       (simp_all only: m reload_devices bitsets_within_valid_def valid_within_names_def)
  have l4: "load_bitmask_key ?kf FLATPAK_METADATA_KEY_FEATURES flatpak_context_feature_from_string
              flatpak_context_add_features flatpak_context_remove_features c0
            = (True, c0\<lparr> features := features c, features_valid := features c \<rparr>)"
    if "features c0 = 0" "features_valid c0 = 0" for c0
    using bits names that
    by (subst load_bitmask_key_saved [OF d, where l = "saved_features c"])
       (simp_all only: m reload_features bitsets_within_valid_def valid_within_names_def)
  have fs': "\<forall>(k, v) \<in> set (DAList.impl_of (filesystems c)). v \<noteq> None \<longrightarrow> filesystem_key k"
    using fs by (auto simp: list_all_iff written_filesystems_def)
  have l5: "load_filesystems ?kf c0
            = (True, c0\<lparr> filesystems := hash_table_insert_each
                   (written_filesystems (DAList.impl_of (filesystems c))) (filesystems c0) \<rparr>)" for c0
    by (subst load_filesystems_saved [OF d, where fs = "DAList.impl_of (filesystems c)"])
       (simp_all only: m load_filesystems_loop_saved [OF fs'] written_filesystems_def)
  have l6: "load_persistent ?kf c0
            = (True, c0\<lparr> persistent := hash_table_insert_each (DAList.impl_of (persistent c)) (persistent c0) \<rparr>)"
    for c0
    by (subst load_persistent_saved [OF d, where ps = "DAList.impl_of (persistent c)"])
       (simp_all only: m fold_set_persistent)
  have l7: "load_bus_policy gio ?kf FLATPAK_METADATA_GROUP_SESSION_BUS_POLICY
              flatpak_context_set_session_bus_policy c0
            = Some (True, c0\<lparr> session_bus_policy := hash_table_insert_each
                   (written_policies (DAList.impl_of (session_bus_policy c))) (session_bus_policy c0) \<rparr>)"
    for c0
  proof -
    have "\<forall>(k, p) \<in> set (written_policies (DAList.impl_of (session_bus_policy c))).
            flatpak_verify_dbus_name gio k
            \<and> g_key_file_get_string ?kf FLATPAK_METADATA_GROUP_SESSION_BUS_POLICY k
                = Some (flatpak_policy_to_string p)
            \<and> saved_policy p"
    proof (clarify, intro conjI)
      fix k p assume kp: "(k, p) \<in> set (written_policies (DAList.impl_of (session_bus_policy c)))"
      show "flatpak_verify_dbus_name gio k" using sb kp by (auto simp: list_all_iff)
      show "saved_policy p" using sb kp by (auto simp: list_all_iff)
      show "g_key_file_get_string ?kf FLATPAK_METADATA_GROUP_SESSION_BUS_POLICY k
                = Some (flatpak_policy_to_string p)"
        by (rule get_string_bus_saved [OF d filter_group_all_writes(2) _ kp]) simp
    qed
    then show ?thesis
      by (simp only: load_bus_policy_saved [OF d filter_group_all_writes(2)] load_session_bus_loop)
  qed
  have l8: "load_bus_policy gio ?kf FLATPAK_METADATA_GROUP_SYSTEM_BUS_POLICY
              flatpak_context_set_system_bus_policy c0
            = Some (True, c0\<lparr> system_bus_policy := hash_table_insert_each
                   (written_policies (DAList.impl_of (system_bus_policy c))) (system_bus_policy c0) \<rparr>)"
    for c0
  proof -
    have "\<forall>(k, p) \<in> set (written_policies (DAList.impl_of (system_bus_policy c))).
            flatpak_verify_dbus_name gio k
            \<and> g_key_file_get_string ?kf FLATPAK_METADATA_GROUP_SYSTEM_BUS_POLICY k
                = Some (flatpak_policy_to_string p)
            \<and> saved_policy p"
    proof (clarify, intro conjI)
      fix k p assume kp: "(k, p) \<in> set (written_policies (DAList.impl_of (system_bus_policy c)))"
      show "flatpak_verify_dbus_name gio k" using yb kp by (auto simp: list_all_iff)
      show "saved_policy p" using yb kp by (auto simp: list_all_iff)
      show "g_key_file_get_string ?kf FLATPAK_METADATA_GROUP_SYSTEM_BUS_POLICY k
                = Some (flatpak_policy_to_string p)"
        by (rule get_string_bus_saved [OF d filter_group_all_writes(3) _ kp]) simp
    qed
    then show ?thesis
      by (simp only: load_bus_policy_saved [OF d filter_group_all_writes(3)] load_system_bus_loop)
  qed
  have l9: "load_environment ?kf c0
            = c0\<lparr> env_vars := hash_table_insert_each (written_env (DAList.impl_of (env_vars c))) (env_vars c0) \<rparr>"
    for c0
    by (rule load_environment_saved [OF d filter_group_all_writes(4)]) simp
  let ?c9 = "flatpak_context_new\<lparr>
               shares := shares c,
               shares_valid := (if flatten then shares c else shares_valid c),
               sockets := sockets c,
               sockets_valid := (if flatten then sockets c else sockets_valid c),
               devices := devices c,
               devices_valid := (if flatten then devices c else devices_valid c),
               features := features c,
               features_valid := features c,
               filesystems := hash_table_insert_each
                 (written_filesystems (DAList.impl_of (filesystems c))) DAList.empty,
               persistent := hash_table_insert_each (DAList.impl_of (persistent c)) DAList.empty,
               session_bus_policy := hash_table_insert_each
                 (written_policies (DAList.impl_of (session_bus_policy c))) DAList.empty,
               system_bus_policy := hash_table_insert_each
                 (written_policies (DAList.impl_of (system_bus_policy c))) DAList.empty,
               env_vars := hash_table_insert_each (written_env (DAList.impl_of (env_vars c))) DAList.empty \<rparr>"
  have chain: "flatpak_context_load_metadata gio flatpak_context_new ?kf
          = map_option (Pair True) (load_policy_groups_loop ?kf ?c9 (g_key_file_get_groups ?kf))"
    unfolding flatpak_context_load_metadata_def
    apply (subst l1, simp add: flatpak_context_new_def, simp add: flatpak_context_new_def)
    apply (subst then_part_True)
    apply (subst l2, simp add: flatpak_context_new_def, simp add: flatpak_context_new_def)
    apply (subst then_part_True)
    apply (subst l3, simp add: flatpak_context_new_def, simp add: flatpak_context_new_def)
    apply (subst then_part_True)
    apply (subst l4, simp add: flatpak_context_new_def, simp add: flatpak_context_new_def)
    apply (subst then_part_True)
    apply (subst l5)
    apply (subst then_part_True)
    apply (subst l6)
    apply (subst then_part_True)
    apply (subst l7)
    apply (subst then_part_opt_True)
    apply (subst l8)
    apply (subst then_part_opt_True)
    apply (subst l9)
    apply (simp add: flatpak_context_new_def)
    done
  have "DAList.lookup (generic_policy ?c9) = (\<lambda>k. None)"
    by (simp add: flatpak_context_new_def fun_eq_iff DAList.lookup.rep_eq DAList.empty.rep_eq)
  from load_policy_saved [OF dots this, of flatten] obtain gp' where
    g1: "load_policy_groups_loop ?kf ?c9 (g_key_file_get_groups ?kf) = Some (?c9\<lparr> generic_policy := gp' \<rparr>)"
    and g2: "DAList.lookup gp' = (\<lambda>k. reloaded_values flatten (DAList.lookup (generic_policy c) k))"
    by blast
  show ?thesis
    apply (rule exI [of _ gp'])
    apply (simp only: metadata_round_trip_def save option.case chain g1 g2)
    apply simp
    done
qed

lemma lookup_empty_table: "DAList.lookup DAList.empty = Map.empty"
  by (rule ext) (simp add: DAList.lookup.rep_eq DAList.empty.rep_eq)

lemma lookup_insert_empty:
  "distinct (map fst l) \<Longrightarrow> DAList.lookup (hash_table_insert_each l DAList.empty) = map_of l"
  by (simp only: lookup_insert_each lookup_empty_table empty_map_add)

lemma lookup_impl_of: "DAList.lookup t = map_of (DAList.impl_of t)"
  by (rule ext) (simp add: DAList.lookup.rep_eq)

lemma same_table_insert_table:
  "same_table t (hash_table_insert_each (DAList.impl_of t) DAList.empty)"
proof -
  have "DAList.lookup (hash_table_insert_each (DAList.impl_of t) DAList.empty) = map_of (DAList.impl_of t)"
    by (rule lookup_insert_empty) simp
  then show ?thesis
    unfolding same_table_iff by (simp only: lookup_impl_of [of t])
qed

lemma filter_all: "list_all P l \<Longrightarrow> filter P l = l"
  by (induction l) auto

lemma same_table_insert_all:
  assumes "list_all P (DAList.impl_of t)"
  shows "same_table t (hash_table_insert_each (filter P (DAList.impl_of t)) DAList.empty)"
  unfolding filter_all [OF assms] by (rule same_table_insert_table)

lemma reloaded_values_id:
  assumes "list_all (\<lambda>(key, vs). CHR ''.'' \<in> set key \<and> distinct (map skip_bang vs)) l"
    and "list_all (\<lambda>(key, vs). vs \<noteq> []) l"
  shows "reloaded_values False (map_of l k) = map_of l k"
proof (cases "map_of l k")
  case None
  then show ?thesis by (simp add: reloaded_values_def)
next
  case (Some vs)
  then have "(k, vs) \<in> set l" by (rule map_of_SomeD)
  with assms have "distinct (map skip_bang vs)" "vs \<noteq> []"
    by (auto simp: list_all_iff)
  then show ?thesis
    using Some by (simp add: reloaded_values_def policy_values_written_def merge_values_distinct_id)
qed

text \<open>
  Where the saving leaves nothing out, the round trip gives the context back. For a context
  that satisfies \<open>metadata_context\<close> and in which nothing is denied, saving with \<open>flatten\<close>
  false into a new key file succeeds, loading the file into a new context returns \<open>TRUE\<close>,
  and the loaded context is equal to the saved one: the same bit masks and valid masks and
  the same entries in each of the six tables.
\<close>

lemma metadata_round_trip_lossless:
  assumes "metadata_context gio c" and "nothing_denied c"
  shows "\<exists>c'. metadata_round_trip gio False c = Some (True, c') \<and> context_equal c c'"
proof -
  from reload [OF assms(1), of False] obtain gp where
    r: "metadata_round_trip gio False c
           = Some (True, flatpak_context_new\<lparr>
               shares := shares c, shares_valid := shares_valid c,
               sockets := sockets c, sockets_valid := sockets_valid c,
               devices := devices c, devices_valid := devices_valid c,
               features := features c, features_valid := features c,
               filesystems := hash_table_insert_each
                 (written_filesystems (DAList.impl_of (filesystems c))) DAList.empty,
               persistent := hash_table_insert_each (DAList.impl_of (persistent c)) DAList.empty,
               session_bus_policy := hash_table_insert_each
                 (written_policies (DAList.impl_of (session_bus_policy c))) DAList.empty,
               system_bus_policy := hash_table_insert_each
                 (written_policies (DAList.impl_of (system_bus_policy c))) DAList.empty,
               env_vars := hash_table_insert_each (written_env (DAList.impl_of (env_vars c))) DAList.empty,
               generic_policy := gp \<rparr>)"
    and gp: "DAList.lookup gp = (\<lambda>k. reloaded_values False (DAList.lookup (generic_policy c) k))"
    by auto
  from assms(2) have fv: "features_valid c = features c"
    and env: "list_all (\<lambda>(name, v). v \<noteq> None) (DAList.impl_of (env_vars c))"
    and fs: "list_all (\<lambda>(key, v). v \<noteq> None) (DAList.impl_of (filesystems c))"
    and sb: "list_all (\<lambda>(name, policy). policy \<noteq> FLATPAK_POLICY_NONE) (DAList.impl_of (session_bus_policy c))"
    and yb: "list_all (\<lambda>(name, policy). policy \<noteq> FLATPAK_POLICY_NONE) (DAList.impl_of (system_bus_policy c))"
    and ne: "list_all (\<lambda>(key, vs). vs \<noteq> []) (DAList.impl_of (generic_policy c))"
    by (simp_all add: nothing_denied_def)
  from assms(1) have gpc: "list_all (\<lambda>(key, vs). CHR ''.'' \<in> set key \<and> distinct (map skip_bang vs))
           (DAList.impl_of (generic_policy c))"
    by (simp add: metadata_context_def)
  have t1: "same_table (env_vars c) (hash_table_insert_each (written_env (DAList.impl_of (env_vars c))) DAList.empty)"
    unfolding written_env_def by (rule same_table_insert_all [OF env])
  have t2: "same_table (filesystems c)
              (hash_table_insert_each (written_filesystems (DAList.impl_of (filesystems c))) DAList.empty)"
    unfolding written_filesystems_def by (rule same_table_insert_all [OF fs])
  have t3: "same_table (session_bus_policy c)
              (hash_table_insert_each (written_policies (DAList.impl_of (session_bus_policy c))) DAList.empty)"
    unfolding written_policies_def by (rule same_table_insert_all [OF sb])
  have t4: "same_table (system_bus_policy c)
              (hash_table_insert_each (written_policies (DAList.impl_of (system_bus_policy c))) DAList.empty)"
    unfolding written_policies_def by (rule same_table_insert_all [OF yb])
  have t5: "same_table (persistent c) (hash_table_insert_each (DAList.impl_of (persistent c)) DAList.empty)"
    by (rule same_table_insert_table)
  have t6: "same_table (generic_policy c) gp"
    unfolding same_table_iff gp
    by (rule ext) (simp only: lookup_impl_of [of "generic_policy c"] reloaded_values_id [OF gpc ne])
  show ?thesis
    unfolding r
    using fv t1 t2 t3 t4 t5 t6
    by (simp add: context_equal_def flatpak_context_new_def)
qed

text \<open>
  The round trip of \<open>example_context_d\<close>, with the entries of the key file that the saving
  writes.
\<close>

lemma metadata_round_trip_lossless_example:
  "metadata_context example_gdbus example_context_d \<and> nothing_denied example_context_d
   \<and> (\<exists>c'. metadata_round_trip example_gdbus False example_context_d = Some (True, c')
          \<and> context_equal example_context_d c')
   \<and> map_option kf_entries (flatpak_context_save_metadata example_context_d False g_key_file_new)
       = Some [((''Context'', ''shared''), KF_string_list [''network'', ''!ipc'']),
               ((''Context'', ''sockets''), KF_string_list [''wayland'']),
               ((''Context'', ''filesystems''), KF_string_list [''/x:ro'', ''home'']),
               ((''Context'', ''persistent''), KF_string_list [''.cfg'']),
               ((''Session Bus Policy'', ''org.a''), KF_string ''talk''),
               ((''Environment'', ''A''), KF_string ''1''),
               ((''Policy s'', ''k''), KF_string_list [''x'', ''!y''])]"
proof -
  have a: "metadata_context example_gdbus example_context_d" by code_simp
  have b: "nothing_denied example_context_d" by code_simp
  have c: "map_option kf_entries (flatpak_context_save_metadata example_context_d False g_key_file_new)
       = Some [((''Context'', ''shared''), KF_string_list [''network'', ''!ipc'']),
               ((''Context'', ''sockets''), KF_string_list [''wayland'']),
               ((''Context'', ''filesystems''), KF_string_list [''/x:ro'', ''home'']),
               ((''Context'', ''persistent''), KF_string_list [''.cfg'']),
               ((''Session Bus Policy'', ''org.a''), KF_string ''talk''),
               ((''Environment'', ''A''), KF_string ''1''),
               ((''Policy s'', ''k''), KF_string_list [''x'', ''!y''])]" by code_simp
  from a b c metadata_round_trip_lossless [OF a b] show ?thesis by simp
qed

text \<open>
  C1. The code breaks the round trip at a denied filesystem. The context that
  \<open>--filesystem=/y --nofilesystem=/x\<close> makes of a new context has \<open>/y\<close> granted and \<open>/x\<close>
  denied. Saving it with \<open>flatten\<close> false writes the list \<open>filesystems\<close> with the one entry
  \<open>/y\<close>, since the loop over the filesystems adds an entry only when the value is not
  \<open>NULL\<close>; loading the key file returns \<open>TRUE\<close> with the context that has \<open>/y\<close> alone, which
  is not equal to the saved one. The loader itself reads an entry \<open>!/x\<close> as the denied
  filesystem \<open>/x\<close>.
\<close>

theorem metadata_round_trip_denied_filesystem:
  "map_option kf_entries
     (flatpak_context_save_metadata
        (flatpak_context_remove_filesystem (flatpak_context_add_filesystem flatpak_context_new ''/y'') ''/x'')
        False g_key_file_new)
     = Some [((''Context'', ''filesystems''), KF_string_list [''/y''])]
   \<and> metadata_round_trip example_gdbus False
       (flatpak_context_remove_filesystem (flatpak_context_add_filesystem flatpak_context_new ''/y'') ''/x'')
     = Some (True, flatpak_context_add_filesystem flatpak_context_new ''/y'')
   \<and> \<not> context_equal
         (flatpak_context_remove_filesystem (flatpak_context_add_filesystem flatpak_context_new ''/y'') ''/x'')
         (flatpak_context_add_filesystem flatpak_context_new ''/y'')
   \<and> load_filesystems_loop flatpak_context_new [''/y'', ''!/x'']
     = (True, flatpak_context_remove_filesystem (flatpak_context_add_filesystem flatpak_context_new ''/y'') ''/x'')"
  by code_simp

text \<open>
  Two more entries that the saving loses. A denied feature: \<open>features_valid\<close> is taken from
  \<open>context->features\<close>, so the context with the feature \<open>devel\<close> denied is saved as an empty
  key file. A bus name with the policy filtered: \<open>flatpak_policy_to_string\<close> has no name for
  it, and the name comes back with the policy none.
\<close>

lemma metadata_round_trip_lost_entries:
  "map_option kf_entries
     (flatpak_context_save_metadata (flatpak_context_remove_features flatpak_context_new 1) False g_key_file_new)
     = Some []
   \<and> metadata_round_trip example_gdbus False (flatpak_context_remove_features flatpak_context_new 1)
     = Some (True, flatpak_context_new)
   \<and> features_valid (flatpak_context_remove_features flatpak_context_new 1) = 1
   \<and> metadata_round_trip example_gdbus False
       (flatpak_context_set_session_bus_policy flatpak_context_new ''org.a'' FLATPAK_POLICY_FILTERED)
     = Some (True, flatpak_context_set_session_bus_policy flatpak_context_new ''org.a'' FLATPAK_POLICY_NONE)"
  by code_simp

lemma to_string_enabled:
  "\<forall>n \<in> set names. \<not> is_negated n \<Longrightarrow>
     list_all (\<lambda>s. \<not> is_negated s) (bitmask_to_string_loop i m m names)"
  by (induction names arbitrary: i) (simp_all add: Let_def)

lemma names_plain:
  "\<forall>n \<in> set flatpak_context_shares. \<not> is_negated n"
  "\<forall>n \<in> set flatpak_context_sockets. \<not> is_negated n"
  "\<forall>n \<in> set flatpak_context_devices. \<not> is_negated n"
  "\<forall>n \<in> set flatpak_context_features. \<not> is_negated n"
  using names_ok by (simp_all add: is_negated_def)

lemma plain_context_write: "list_all (\<lambda>s. \<not> is_negated s) l \<Longrightarrow> list_all plain_entry (context_write key present l)"
  by (simp add: context_write_def plain_entry_def)

lemma plain_filesystems:
  assumes "\<forall>(k, v) \<in> set l. v \<noteq> None \<longrightarrow> filesystem_key k"
  shows "list_all (\<lambda>s. \<not> is_negated s) (save_filesystems_loop l)"
  using assms
proof (induction l)
  case Nil
  show ?case by simp
next
  case (Cons e l)
  obtain k v where e: "e = (k, v)" by (cases e)
  from Cons.prems have rest: "\<forall>(k, v) \<in> set l. v \<noteq> None \<longrightarrow> filesystem_key k" by simp
  note IH = Cons.IH [OF rest]
  show ?case
  proof (cases v)
    case None
    with e IH show ?thesis by simp
  next
    case (Some m)
    with Cons.prems e have key: "filesystem_key k" by simp
    from filesystem_key_no_bang [OF key] have "\<not> is_negated (k @ s)" for s
      by (simp add: is_negated_def)
    from this [of "[]"] this [of "'':ro''"] this [of "'':create''"] show ?thesis
      using e IH by simp
  qed
qed

lemma plain_context_writes:
  assumes fs: "\<forall>(k, v) \<in> set (DAList.impl_of (filesystems c)). v \<noteq> None \<longrightarrow> filesystem_key k"
    and ps: "plain_persistent c"
  shows "list_all plain_entry (context_writes True c)"
proof -
  have "list_all (\<lambda>s. \<not> is_negated s) (map fst (DAList.impl_of (persistent c)))"
    using ps by (auto simp: plain_persistent_def list_all_iff)
  then show ?thesis
    unfolding context_writes_def list_all_append
    by (intro conjI plain_context_write plain_filesystems [OF fs])
       (simp_all add: saved_shared_def saved_sockets_def saved_devices_def saved_features_def
          flatpak_context_shared_to_string_def flatpak_context_sockets_to_string_def
          flatpak_context_devices_to_string_def flatpak_context_features_to_string_def
          flatpak_context_bitmask_to_string_def to_string_enabled names_plain)
qed

lemma plain_bus_writes: "list_all plain_entry (bus_writes g l)"
  by (auto simp: bus_writes_def plain_entry_def list_all_iff)

lemma plain_env_writes: "list_all plain_entry (env_writes l)"
  by (auto simp: env_writes_def plain_entry_def list_all_iff)

lemma plain_policy_writes: "list_all plain_entry (policy_writes True l)"
  by (auto simp: policy_writes_def policy_write_def plain_entry_def list_all_iff
        policy_values_written_def is_negated_def)

lemma plain_all_writes:
  assumes fs: "\<forall>(k, v) \<in> set (DAList.impl_of (filesystems c)). v \<noteq> None \<longrightarrow> filesystem_key k"
    and ps: "plain_persistent c"
  shows "list_all plain_entry (all_writes True c)"
  unfolding all_writes_def list_all_append
  by (intro conjI plain_context_writes [OF fs ps] plain_bus_writes plain_env_writes plain_policy_writes)

lemma bits_within_and: "bits_within b v \<Longrightarrow> b AND v = b"
  by (rule bit_eqI) (auto simp: bit_and_iff bits_within_iff)

lemma reloaded_values_flatten:
  assumes "list_all (\<lambda>(key, vs). CHR ''.'' \<in> set key \<and> distinct (map skip_bang vs)) l"
    and "distinct (map fst l)"
  shows "reloaded_values True (map_of l k) = map_of (written_generic_policy l) k"
proof -
  have w: "map_of (written_generic_policy l) k
         = (case map_of l k of None \<Rightarrow> None
            | Some v \<Rightarrow> if policy_values_written True v \<noteq> [] then Some (policy_values_written True v) else None)"
    unfolding written_generic_policy_def using assms(2) by (rule map_of_written)
  show ?thesis
  proof (cases "map_of l k")
    case None
    then show ?thesis by (simp add: w reloaded_values_def)
  next
    case (Some vs)
    then have "(k, vs) \<in> set l" by (rule map_of_SomeD)
    with assms(1) have "distinct (map skip_bang vs)"
      by (auto simp: list_all_iff)
    then have "distinct (map skip_bang (policy_values_written True vs))"
      unfolding policy_values_written_def by (rule distinct_map_filter_key)
    then have "merge_values [] (policy_values_written True vs) = policy_values_written True vs"
      by (rule merge_values_distinct_id)
    then show ?thesis
      using Some by (simp add: w reloaded_values_def)
  qed
qed

text \<open>
  C4, as amended. For a context that satisfies \<open>metadata_context\<close> and whose persistent
  paths are not negated, saving with \<open>flatten\<close> true into a new key file succeeds and gives a
  key file in which no entry of a string list is negated, and loading that file into a new
  context returns \<open>TRUE\<close> with a context equal to the enabled part of the saved one.
\<close>

theorem flatten_round_trip:
  assumes "metadata_context gio c" and "plain_persistent c"
  shows "\<exists>metakey c'. flatpak_context_save_metadata c True g_key_file_new = Some metakey
           \<and> no_negated_entries metakey
           \<and> flatpak_context_load_metadata gio flatpak_context_new metakey = Some (True, c')
           \<and> context_equal (enabled_part c) c'"
proof -
  let ?kf = "apply_writes (all_writes True c) g_key_file_new"
  from assms(1) have bits: "bitsets_within_valid c" and names: "valid_within_names c"
    and fs: "list_all (\<lambda>(key, v). filesystem_key key) (written_filesystems (DAList.impl_of (filesystems c)))"
    and gpc: "list_all (\<lambda>(key, vs). CHR ''.'' \<in> set key \<and> distinct (map skip_bang vs))
           (DAList.impl_of (generic_policy c))"
    by (simp_all add: metadata_context_def)
  from gpc have dots: "list_all (\<lambda>(key, vs). CHR ''.'' \<in> set key) (DAList.impl_of (generic_policy c))"
    by (auto simp: list_all_iff)
  have fs': "\<forall>(k, v) \<in> set (DAList.impl_of (filesystems c)). v \<noteq> None \<longrightarrow> filesystem_key k"
    using fs by (auto simp: list_all_iff written_filesystems_def)
  have save: "flatpak_context_save_metadata c True g_key_file_new = Some ?kf"
    by (rule save_metadata_writes [OF dots])
  have plain: "no_negated_entries ?kf"
    using plain_all_writes [OF fs' assms(2)]
    by (simp add: no_negated_entries_def entries_saved [OF distinct_all_writes [OF dots]] plain_entry_def [abs_def])
  from reload [OF assms(1), of True] obtain gp where
    r: "metadata_round_trip gio True c
           = Some (True, flatpak_context_new\<lparr>
               shares := shares c, shares_valid := shares c,
               sockets := sockets c, sockets_valid := sockets c,
               devices := devices c, devices_valid := devices c,
               features := features c, features_valid := features c,
               filesystems := hash_table_insert_each
                 (written_filesystems (DAList.impl_of (filesystems c))) DAList.empty,
               persistent := hash_table_insert_each (DAList.impl_of (persistent c)) DAList.empty,
               session_bus_policy := hash_table_insert_each
                 (written_policies (DAList.impl_of (session_bus_policy c))) DAList.empty,
               system_bus_policy := hash_table_insert_each
                 (written_policies (DAList.impl_of (system_bus_policy c))) DAList.empty,
               env_vars := hash_table_insert_each (written_env (DAList.impl_of (env_vars c))) DAList.empty,
               generic_policy := gp \<rparr>)"
    and gp: "DAList.lookup gp = (\<lambda>k. reloaded_values True (DAList.lookup (generic_policy c) k))"
    by auto
  from r have load: "flatpak_context_load_metadata gio flatpak_context_new ?kf
           = Some (True, flatpak_context_new\<lparr>
               shares := shares c, shares_valid := shares c,
               sockets := sockets c, sockets_valid := sockets c,
               devices := devices c, devices_valid := devices c,
               features := features c, features_valid := features c,
               filesystems := hash_table_insert_each
                 (written_filesystems (DAList.impl_of (filesystems c))) DAList.empty,
               persistent := hash_table_insert_each (DAList.impl_of (persistent c)) DAList.empty,
               session_bus_policy := hash_table_insert_each
                 (written_policies (DAList.impl_of (session_bus_policy c))) DAList.empty,
               system_bus_policy := hash_table_insert_each
                 (written_policies (DAList.impl_of (system_bus_policy c))) DAList.empty,
               env_vars := hash_table_insert_each (written_env (DAList.impl_of (env_vars c))) DAList.empty,
               generic_policy := gp \<rparr>)"
    by (simp add: metadata_round_trip_def save)
  from bits names have w:
    "shares c AND shares_valid c = shares c" "sockets c AND sockets_valid c = sockets c"
    "devices c AND devices_valid c = devices c" "features c AND features_valid c = features c"
    by (simp_all add: bitsets_within_valid_def bits_within_and)
  have d: "distinct (map fst (written_generic_policy (DAList.impl_of (generic_policy c))))"
    by (simp add: written_generic_policy_def comp_def distinct_map_filter_key)
  have t5: "same_table (persistent c) (hash_table_insert_each (DAList.impl_of (persistent c)) DAList.empty)"
    by (rule same_table_insert_table)
  have t6: "same_table (hash_table_insert_each
          (written_generic_policy (DAList.impl_of (generic_policy c))) DAList.empty) gp"
    unfolding same_table_iff gp lookup_insert_empty [OF d]
    by (rule ext)
       (simp only: lookup_impl_of [of "generic_policy c"] reloaded_values_flatten [OF gpc] DAList.impl_of_distinct)
  have refl_table: "same_table t t" for t :: "('k, 'v) alist"
    by (simp add: same_table_def)
  have "context_equal (enabled_part c) (flatpak_context_new\<lparr>
               shares := shares c, shares_valid := shares c,
               sockets := sockets c, sockets_valid := sockets c,
               devices := devices c, devices_valid := devices c,
               features := features c, features_valid := features c,
               filesystems := hash_table_insert_each
                 (written_filesystems (DAList.impl_of (filesystems c))) DAList.empty,
               persistent := hash_table_insert_each (DAList.impl_of (persistent c)) DAList.empty,
               session_bus_policy := hash_table_insert_each
                 (written_policies (DAList.impl_of (session_bus_policy c))) DAList.empty,
               system_bus_policy := hash_table_insert_each
                 (written_policies (DAList.impl_of (system_bus_policy c))) DAList.empty,
               env_vars := hash_table_insert_each (written_env (DAList.impl_of (env_vars c))) DAList.empty,
               generic_policy := gp \<rparr>)"
    using t5 t6 by (simp add: context_equal_def enabled_part_def w refl_table flatpak_context_new_def)
  with save plain load show ?thesis by blast
qed

text \<open>
  The theorem at \<open>example_context_e\<close>, with the entries of the key file that the saving
  writes.
\<close>

theorem flatten_round_trip_witness:
  "metadata_context example_gdbus example_context_e \<and> plain_persistent example_context_e
   \<and> (\<exists>metakey c'. flatpak_context_save_metadata example_context_e True g_key_file_new = Some metakey
          \<and> no_negated_entries metakey
          \<and> flatpak_context_load_metadata example_gdbus flatpak_context_new metakey = Some (True, c')
          \<and> context_equal (enabled_part example_context_e) c')
   \<and> map_option kf_entries (flatpak_context_save_metadata example_context_e True g_key_file_new)
       = Some [((''Context'', ''shared''), KF_string_list [''network'']),
               ((''Context'', ''filesystems''), KF_string_list [''/x:ro'']),
               ((''Context'', ''persistent''), KF_string_list [''.cfg'']),
               ((''Session Bus Policy'', ''org.a''), KF_string ''talk''),
               ((''Environment'', ''A''), KF_string ''1''),
               ((''Policy s'', ''k''), KF_string_list [''x''])]"
proof -
  have a: "metadata_context example_gdbus example_context_e" by code_simp
  have b: "plain_persistent example_context_e" by code_simp
  have c: "map_option kf_entries (flatpak_context_save_metadata example_context_e True g_key_file_new)
       = Some [((''Context'', ''shared''), KF_string_list [''network'']),
               ((''Context'', ''filesystems''), KF_string_list [''/x:ro'']),
               ((''Context'', ''persistent''), KF_string_list [''.cfg'']),
               ((''Session Bus Policy'', ''org.a''), KF_string ''talk''),
               ((''Environment'', ''A''), KF_string ''1''),
               ((''Policy s'', ''k''), KF_string_list [''x''])]" by code_simp
  from a b c flatten_round_trip [OF a b] show ?thesis by simp
qed

text \<open>
  C4 as stated fails. The persistent paths are written as they are, so the path \<open>!p\<close>, which
  \<open>flatpak_context_set_persistent\<close> stores like any other, is a negated entry of the list
  \<open>persistent\<close> of the flattened key file.
\<close>

theorem flatten_persistent_counterexample:
  "metadata_context example_gdbus (flatpak_context_set_persistent flatpak_context_new ''!p'')
   \<and> map_option kf_entries
       (flatpak_context_save_metadata (flatpak_context_set_persistent flatpak_context_new ''!p'') True
          g_key_file_new)
     = Some [((''Context'', ''persistent''), KF_string_list [''!p''])]
   \<and> map_option no_negated_entries
       (flatpak_context_save_metadata (flatpak_context_set_persistent flatpak_context_new ''!p'') True
          g_key_file_new)
     = Some False"
  by code_simp

end
